(* ===== verification/Rdb_Prelude.thy ===== *)
theory Rdb_Prelude
  imports Main "HOL-Library.Word" "HOL-Library.Char_ord" "HOL-Library.List_Lexorder"
begin

text \<open>
  Shared ground of the development: the machine integer conventions, the native error
  codes of \<open>rdb_errno.h\<close>, the operations of \<open>std::string\<close> that the components call, and
  the generic list lemmas their proofs share.

  A C++ \<open>std::string\<close> is a byte string, here a \<^typ>\<open>string\<close>; its \<open><\<close> compares bytes as
  unsigned numbers, which is the lexicographic order of \<open>List_Lexorder\<close> over \<open>Char_ord\<close>.
  Signed integers are \<^typ>\<open>int\<close>; a narrowing conversion is written out with \<open>to_i32\<close> or
  \<open>to_i64\<close>.
\<close>

named_theorems errno \<open>values of the native error codes\<close>
named_theorems str_ops \<open>characteristic equations of the string operations\<close>

type_synonym byte = "8 word"

section \<open>Machine integers\<close>

definition to_i32 :: "int \<Rightarrow> int" where
  "to_i32 x = (x + 2 ^ 31) mod 2 ^ 32 - 2 ^ 31"

definition to_i64 :: "int \<Rightarrow> int" where
  "to_i64 x = (x + 2 ^ 63) mod 2 ^ 64 - 2 ^ 63"

definition INT_MIN :: int where
  "INT_MIN = - (2 ^ 31)"

lemma to_i32_id: "- (2 ^ 31) \<le> x \<Longrightarrow> x < 2 ^ 31 \<Longrightarrow> to_i32 x = x"
  by (simp add: to_i32_def)

lemma to_i32_bounds: "- (2 ^ 31) \<le> to_i32 x \<and> to_i32 x < 2 ^ 31"
  by (simp add: to_i32_def)

section \<open>Error codes (\<open>rdb_errno.h\<close>)\<close>

text \<open>
  \<open>E_BASE\<close> is \<open>ErrCodeOffset(SUBSYS_DISTRIBUTEDDATAMNG, 2)\<close>, subsystem 13 shifted by 21 bits
  and module 2 shifted by 16.
\<close>

definition E_OK :: int where [errno]: "E_OK = 0"
definition E_BASE :: int where [errno]: "E_BASE = 27394048"
definition E_NOT_SUPPORT :: int where [errno]: "E_NOT_SUPPORT = E_BASE + 801"
definition E_ERROR :: int where [errno]: "E_ERROR = E_BASE"
definition E_INVALID_ARGS :: int where [errno]: "E_INVALID_ARGS = E_BASE + 0x1"
definition E_INCORRECT_SQL :: int where [errno]: "E_INCORRECT_SQL = E_BASE + 0x4"
definition E_EMPTY_TABLE_NAME :: int where [errno]: "E_EMPTY_TABLE_NAME = E_BASE + 0x5"
definition E_EMPTY_VALUES_BUCKET :: int where [errno]: "E_EMPTY_VALUES_BUCKET = E_BASE + 0x6"
definition E_NOT_SELECT :: int where [errno]: "E_NOT_SELECT = E_BASE + 0x7"
definition E_COLUMN_OUT_RANGE :: int where [errno]: "E_COLUMN_OUT_RANGE = E_BASE + 0x8"
definition E_INVALID_COLUMN_TYPE :: int where [errno]: "E_INVALID_COLUMN_TYPE = E_BASE + 0x9"
definition E_ROW_OUT_RANGE :: int where [errno]: "E_ROW_OUT_RANGE = E_BASE + 0xd"
definition E_EXECUTE_WRITE_IN_READ_CONNECTION :: int where
  [errno]: "E_EXECUTE_WRITE_IN_READ_CONNECTION = E_BASE + 0xe"
definition E_NO_ROW_IN_QUERY :: int where [errno]: "E_NO_ROW_IN_QUERY = E_BASE + 0x12"
definition E_INVALID_BIND_ARGS_COUNT :: int where
  [errno]: "E_INVALID_BIND_ARGS_COUNT = E_BASE + 0x13"
definition E_INVALID_OBJECT_TYPE :: int where [errno]: "E_INVALID_OBJECT_TYPE = E_BASE + 0x14"
definition E_NO_MORE_ROWS :: int where [errno]: "E_NO_MORE_ROWS = E_BASE + 0x1a"
definition E_STEP_RESULT_QUERY_EXCEEDED :: int where
  [errno]: "E_STEP_RESULT_QUERY_EXCEEDED = E_BASE + 0x1b"
definition E_STATEMENT_NOT_PREPARED :: int where [errno]: "E_STATEMENT_NOT_PREPARED = E_BASE + 0x1c"
definition E_ALREADY_CLOSED :: int where [errno]: "E_ALREADY_CLOSED = E_BASE + 0x1e"
definition E_DATABASE_BUSY :: int where [errno]: "E_DATABASE_BUSY = E_BASE + 0x22"
definition E_DB_NOT_EXIST :: int where [errno]: "E_DB_NOT_EXIST = E_BASE + 0x2d"
definition E_ARGS_READ_CON_OVERLOAD :: int where [errno]: "E_ARGS_READ_CON_OVERLOAD = E_BASE + 0x2e"
definition E_CON_OVER_LIMIT :: int where [errno]: "E_CON_OVER_LIMIT = E_BASE + 0x30"
definition E_NULL_OBJECT :: int where [errno]: "E_NULL_OBJECT = E_BASE + 0x31"
definition E_SQLITE_FULL :: int where [errno]: "E_SQLITE_FULL = E_BASE + 0x34"
definition E_NOT_SUPPORT_THE_SQL :: int where [errno]: "E_NOT_SUPPORT_THE_SQL = E_BASE + 0x35"
definition E_SQLITE_ERROR :: int where [errno]: "E_SQLITE_ERROR = E_BASE + 0x37"
definition E_SQLITE_CORRUPT :: int where [errno]: "E_SQLITE_CORRUPT = E_BASE + 0x38"
definition E_WAIT_COMPENSATED_SYNC :: int where [errno]: "E_WAIT_COMPENSATED_SYNC = E_BASE + 0x39"
definition E_SQLITE_ABORT :: int where [errno]: "E_SQLITE_ABORT = E_BASE + 0x3a"
definition E_SQLITE_PERM :: int where [errno]: "E_SQLITE_PERM = E_BASE + 0x3b"
definition E_SQLITE_BUSY :: int where [errno]: "E_SQLITE_BUSY = E_BASE + 0x3c"
definition E_SQLITE_LOCKED :: int where [errno]: "E_SQLITE_LOCKED = E_BASE + 0x3d"
definition E_SQLITE_NOMEM :: int where [errno]: "E_SQLITE_NOMEM = E_BASE + 0x3e"
definition E_SQLITE_READONLY :: int where [errno]: "E_SQLITE_READONLY = E_BASE + 0x3f"
definition E_SQLITE_IOERR :: int where [errno]: "E_SQLITE_IOERR = E_BASE + 0x40"
definition E_SQLITE_CANTOPEN :: int where [errno]: "E_SQLITE_CANTOPEN = E_BASE + 0x41"
definition E_SQLITE_TOOBIG :: int where [errno]: "E_SQLITE_TOOBIG = E_BASE + 0x42"
definition E_SQLITE_CONSTRAINT :: int where [errno]: "E_SQLITE_CONSTRAINT = E_BASE + 0x43"
definition E_SQLITE_MISMATCH :: int where [errno]: "E_SQLITE_MISMATCH = E_BASE + 0x44"
definition E_SQLITE_MISUSE :: int where [errno]: "E_SQLITE_MISUSE = E_BASE + 0x45"
definition E_SQLITE_SCHEMA :: int where [errno]: "E_SQLITE_SCHEMA = E_BASE + 0x48"
definition E_INVALID_SECRET_KEY :: int where [errno]: "E_INVALID_SECRET_KEY = E_BASE + 0x4a"
definition E_SQLITE_IOERR_FULL :: int where [errno]: "E_SQLITE_IOERR_FULL = E_BASE + 0x4b"
definition E_INNER_WARNING :: int where [errno]: "E_INNER_WARNING = E_BASE + 0x4c"
definition E_SQLITE_META_RECOVERED :: int where [errno]: "E_SQLITE_META_RECOVERED = E_BASE + 0x57"
definition E_INVALID_ARGS_NEW :: int where [errno]: "E_INVALID_ARGS_NEW = E_BASE + 0x58"
definition E_SQLITE_INTERRUPT :: int where [errno]: "E_SQLITE_INTERRUPT = E_BASE + 0x5a"
definition E_NON_SYSTEM_APP :: int where [errno]: "E_NON_SYSTEM_APP = E_BASE + 0x5b"
definition E_NOT_SUPPORT_NEW :: int where [errno]: "E_NOT_SUPPORT_NEW = E_BASE + 0x5c"

section \<open>Decimal printing (\<open>std::to_string\<close>)\<close>

definition digit_char :: "nat \<Rightarrow> char" where
  "digit_char d = char_of (48 + d)"

fun show_nat :: "nat \<Rightarrow> string" where
  "show_nat n = (if n < 10 then [digit_char n] else show_nat (n div 10) @ [digit_char (n mod 10)])"

declare show_nat.simps [simp del]

definition to_string_int :: "int \<Rightarrow> string" where
  "to_string_int i = (if i < 0 then CHR ''-'' # show_nat (nat (- i)) else show_nat (nat i))"

definition to_string_bool :: "bool \<Rightarrow> string" where
  "to_string_bool b = (if b then ''1'' else ''0'')"

lemma show_nat_nonempty [simp]: "show_nat n \<noteq> []"
  by (subst show_nat.simps) simp

lemma to_string_int_nonempty [simp]: "to_string_int i \<noteq> []"
  by (simp add: to_string_int_def)

lemma digit_char_literals:
  "digit_char 0 = CHR ''0''" "digit_char 1 = CHR ''1''" "digit_char 2 = CHR ''2''"
  "digit_char 3 = CHR ''3''" "digit_char 4 = CHR ''4''" "digit_char 5 = CHR ''5''"
  "digit_char 6 = CHR ''6''" "digit_char 7 = CHR ''7''" "digit_char 8 = CHR ''8''"
  "digit_char 9 = CHR ''9''"
  by code_simp+

lemma digit_char_range: "d < 10 \<Longrightarrow> of_char (digit_char d) = 48 + d"
  by (simp add: digit_char_def)

lemma show_nat_digits: "c \<in> set (show_nat n) \<Longrightarrow> \<exists>d < 10. c = digit_char d"
proof (induction n rule: show_nat.induct)
  case (1 n)
  then show ?case
    by (subst (asm) show_nat.simps) (auto split: if_splits intro: exI [of _ "n mod 10"])
qed

section \<open>Substring search (\<open>std::string\<close>)\<close>

fun starts_with :: "string \<Rightarrow> string \<Rightarrow> bool" where
  "starts_with [] s = True"
| "starts_with (c # cs) [] = False"
| "starts_with (c # cs) (d # ds) = (c = d \<and> starts_with cs ds)"

text \<open>\<open>s.find(pat)\<close> from position 0; \<open>None\<close> is \<open>npos\<close>.\<close>

fun str_find :: "string \<Rightarrow> string \<Rightarrow> nat option" where
  "str_find pat [] = (if pat = [] then Some 0 else None)"
| "str_find pat (c # cs) =
     (if starts_with pat (c # cs) then Some 0 else map_option Suc (str_find pat cs))"

text \<open>\<open>s.find(pat, pos)\<close>.\<close>

definition str_find_from :: "string \<Rightarrow> string \<Rightarrow> nat \<Rightarrow> nat option" where
  "str_find_from pat s pos =
     (if pos \<le> length s then map_option (\<lambda>k. pos + k) (str_find pat (drop pos s)) else None)"

text \<open>\<open>s.find_last_of(cs)\<close>: the last position whose character is in \<open>cs\<close>.\<close>

fun str_find_last_of :: "string \<Rightarrow> string \<Rightarrow> nat option" where
  "str_find_last_of cs [] = None"
| "str_find_last_of cs (c # s) =
     (case str_find_last_of cs s of
        Some k \<Rightarrow> Some (Suc k)
      | None \<Rightarrow> if c \<in> set cs then Some 0 else None)"

lemma starts_with_iff: "starts_with pat s \<longleftrightarrow> (\<exists>r. s = pat @ r)"
  by (induction pat s rule: starts_with.induct) auto

lemma starts_with_append [simp, intro]: "starts_with pat (pat @ r)"
  by (auto simp: starts_with_iff)

lemma str_find_Some:
  "str_find pat s = Some k \<Longrightarrow> k + length pat \<le> length s \<and> s = take k s @ pat @ drop (k + length pat) s"
proof (induction s arbitrary: k)
  case Nil
  then show ?case by (auto split: if_splits)
next
  case (Cons c cs)
  show ?case
  proof (cases "starts_with pat (c # cs)")
    case True
    with Cons.prems have "k = 0" by simp
    from True obtain r where "c # cs = pat @ r" by (auto simp: starts_with_iff)
    with \<open>k = 0\<close> show ?thesis by simp
  next
    case False
    with Cons.prems obtain k' where "k = Suc k'" "str_find pat cs = Some k'" by auto
    with Cons.IH [of k'] show ?thesis by auto
  qed
qed

lemma str_find_None: "str_find pat s = None \<longleftrightarrow> (\<forall>a b. s \<noteq> a @ pat @ b)"
proof (induction s)
  case Nil
  then show ?case by auto
next
  case (Cons c cs)
  have "(\<forall>a b. c # cs \<noteq> a @ pat @ b) \<longleftrightarrow> \<not> starts_with pat (c # cs) \<and> (\<forall>a b. cs \<noteq> a @ pat @ b)"
    by (auto simp: starts_with_iff Cons_eq_append_conv)
  with Cons show ?case by auto
qed

lemma str_find_last_of_Some:
  "str_find_last_of cs s = Some k \<Longrightarrow>
     k < length s \<and> s ! k \<in> set cs \<and> (\<forall>j. k < j \<longrightarrow> j < length s \<longrightarrow> s ! j \<notin> set cs)"
proof (induction s arbitrary: k)
  case (Cons c s)
  show ?case
  proof (cases "str_find_last_of cs s")
    case None
    have "\<forall>x \<in> set s. x \<notin> set cs" using None
      by (induction s) (auto split: option.splits if_splits)
    with None Cons.prems show ?thesis
      by (auto split: if_splits simp: nth_Cons split: nat.splits)
  next
    case (Some k')
    with Cons.prems Cons.IH [of k'] show ?thesis
      by (auto simp: nth_Cons split: nat.splits)
  qed
qed simp

section \<open>Character classes of the C locale\<close>

definition is_space :: "char \<Rightarrow> bool" where
  "is_space c = (let n = of_char c :: nat in n = 32 \<or> 9 \<le> n \<and> n \<le> 13)"

definition is_cntrl :: "char \<Rightarrow> bool" where
  "is_cntrl c = (let n = of_char c :: nat in n < 32 \<or> n = 127)"

definition to_upper :: "char \<Rightarrow> char" where
  "to_upper c = (let n = of_char c :: nat in if 97 \<le> n \<and> n \<le> 122 then char_of (n - 32) else c)"

definition to_lower :: "char \<Rightarrow> char" where
  "to_lower c = (let n = of_char c :: nat in if 65 \<le> n \<and> n \<le> 90 then char_of (n + 32) else c)"

text \<open>\<open>s.c_str()\<close>, read up to the terminating zero byte.\<close>

definition c_str :: "string \<Rightarrow> string" where
  "c_str s = takeWhile (\<lambda>c. c \<noteq> CHR 0x00) s"

text \<open>\<open>s.rfind(pat)\<close>.\<close>

fun str_rfind :: "string \<Rightarrow> string \<Rightarrow> nat option" where
  "str_rfind pat [] = (if pat = [] then Some 0 else None)"
| "str_rfind pat (c # cs) =
     (case str_rfind pat cs of
        Some k \<Rightarrow> Some (Suc k)
      | None \<Rightarrow> if starts_with pat (c # cs) then Some 0 else None)"

lemma str_rfind_Some: "str_rfind pat s = Some k \<Longrightarrow> k + length pat \<le> length s \<and> starts_with pat (drop k s)"
proof (induction s arbitrary: k)
  case (Cons c s)
  have "length pat \<le> Suc (length s)" if "starts_with pat (c # s)"
    using that by (auto simp: starts_with_iff dest!: arg_cong [where f = length])
  with Cons show ?case by (auto split: option.splits if_splits)
qed (auto split: if_splits)

lemma str_rfind_suffix: "pat \<noteq> [] \<Longrightarrow> str_rfind pat (s @ pat) = Some (length s)"
proof (induction s)
  case Nil
  have "str_rfind pat (tl pat) = None"
  proof (cases "str_rfind pat (tl pat)")
    case (Some k)
    from str_rfind_Some [OF this] Nil show ?thesis by (cases pat) auto
  qed
  with Nil show ?case
    using starts_with_append [of pat "[]"] by (cases pat) auto
qed simp

section \<open>Counting characters\<close>

abbreviation qmarks :: "string \<Rightarrow> nat" where
  "qmarks s \<equiv> count_list s CHR ''?''"

lemma count_list_concat: "count_list (concat xss) c = sum_list (map (\<lambda>xs. count_list xs c) xss)"
  by (induction xss) auto

lemma count_list_replicate [simp]: "count_list (replicate n d) c = (if d = c then n else 0)"
  by (induction n) auto

lemma qmarks_to_string_int [simp]: "qmarks (to_string_int i) = 0"
proof -
  have "CHR ''?'' \<notin> set (show_nat n)" for n
  proof
    assume "CHR ''?'' \<in> set (show_nat n)"
    then obtain d where d: "d < 10" "CHR ''?'' = digit_char d" using show_nat_digits by blast
    then have "of_char CHR ''?'' = 48 + d" using digit_char_range by metis
    moreover have "of_char CHR ''?'' = (63 :: nat)" by simp
    ultimately show False using d(1) by linarith
  qed
  then show ?thesis by (auto simp: to_string_int_def count_list_0_iff)
qed

section \<open>Joining\<close>

fun join_with :: "string \<Rightarrow> string list \<Rightarrow> string" where
  "join_with sep [] = []"
| "join_with sep [x] = x"
| "join_with sep (x # y # ys) = x @ sep @ join_with sep (y # ys)"

lemma join_with_Cons: "xs \<noteq> [] \<Longrightarrow> join_with sep (x # xs) = x @ sep @ join_with sep xs"
  by (cases xs) auto

lemma join_with_append:
  "xs \<noteq> [] \<Longrightarrow> ys \<noteq> [] \<Longrightarrow> join_with sep (xs @ ys) = join_with sep xs @ sep @ join_with sep ys"
  by (induction sep xs rule: join_with.induct) (auto simp: join_with_Cons)

lemma join_with_snoc: "xs \<noteq> [] \<Longrightarrow> join_with sep (xs @ [x]) = join_with sep xs @ sep @ x"
  by (simp add: join_with_append)

lemma count_join_with:
  "count_list (join_with sep xs) c =
     sum_list (map (\<lambda>x. count_list x c) xs) + (length xs - 1) * count_list sep c"
  by (induction sep xs rule: join_with.induct) auto

end
