(* ===== verification/Ieee_Double.thy ===== *)
theory Ieee_Double
  imports Rdb_Prelude
begin

text \<open>
  The IEEE 754 values that \<open>ValueObject\<close> holds. A C++ \<open>double\<close> is its 64-bit pattern and a
  \<open>float\<close> its 32-bit pattern; \<open>fp_decode\<close> reads a pattern. A finite value is kept exactly, as
  the integer number of units of the least subnormal (\<open>2 ^ -1074\<close> for a double, \<open>2 ^ -149\<close>
  for a float), so comparison, truncation and decimal printing are integer arithmetic.
\<close>

type_synonym f64 = "64 word"
type_synonym f32 = "32 word"

datatype fp = FNaN | FInf bool | FFin int

text \<open>\<open>fp_decode mb eb n\<close>: \<open>mb\<close> fraction bits, \<open>eb\<close> exponent bits, pattern \<open>n\<close>.\<close>

definition fp_decode :: "nat \<Rightarrow> nat \<Rightarrow> nat \<Rightarrow> fp" where
  "fp_decode mb eb n =
     (let f = n mod 2 ^ mb;
          e = (n div 2 ^ mb) mod 2 ^ eb;
          neg = odd (n div 2 ^ (mb + eb));
          sg = (if neg then - 1 else 1)
      in if e = 2 ^ eb - 1 then (if f = 0 then FInf neg else FNaN)
         else if e = 0 then FFin (sg * int f)
         else FFin (sg * (int (2 ^ mb + f) * 2 ^ (e - 1))))"

definition f64_decode :: "f64 \<Rightarrow> fp" where
  "f64_decode w = fp_decode 52 11 (unat w)"

definition f32_decode :: "f32 \<Rightarrow> fp" where
  "f32_decode w = fp_decode 23 8 (unat w)"

definition f64_sign :: "f64 \<Rightarrow> bool" where
  "f64_sign w = odd (unat w div 2 ^ 63)"

section \<open>Comparison\<close>

fun fp_less :: "fp \<Rightarrow> fp \<Rightarrow> bool" where
  "fp_less (FFin a) (FFin b) = (a < b)"
| "fp_less (FFin a) (FInf s) = (\<not> s)"
| "fp_less (FInf s) (FFin b) = s"
| "fp_less (FInf s) (FInf t) = (s \<and> \<not> t)"
| "fp_less _ _ = False"

definition f64_less :: "f64 \<Rightarrow> f64 \<Rightarrow> bool" where
  "f64_less a b = fp_less (f64_decode a) (f64_decode b)"

definition f32_less :: "f32 \<Rightarrow> f32 \<Rightarrow> bool" where
  "f32_less a b = fp_less (f32_decode a) (f32_decode b)"

definition f64_is_nan :: "f64 \<Rightarrow> bool" where
  "f64_is_nan w = (f64_decode w = FNaN)"

definition f32_is_nan :: "f32 \<Rightarrow> bool" where
  "f32_is_nan w = (f32_decode w = FNaN)"

lemma fp_less_irrefl [simp]: "\<not> fp_less a a"
  by (cases a) auto

lemma fp_less_trans: "fp_less a b \<Longrightarrow> fp_less b c \<Longrightarrow> fp_less a c"
  by (cases a; cases b; cases c) auto

lemma fp_less_total: "a \<noteq> FNaN \<Longrightarrow> b \<noteq> FNaN \<Longrightarrow> fp_less a b \<or> fp_less b a \<or> a = b"
  by (cases a; cases b) auto

lemma fp_less_NaN [simp]: "\<not> fp_less FNaN a" "\<not> fp_less a FNaN"
  by (cases a; simp)+

section \<open>Conversion to integers\<close>

text \<open>
  \<open>static_cast<int64_t>(d)\<close> truncates towards zero; \<open>None\<close> is the case the language leaves
  undefined (NaN, infinities, results outside \<open>int64_t\<close>).
\<close>

definition fp_trunc :: "nat \<Rightarrow> int \<Rightarrow> int" where
  "fp_trunc k v = sgn v * (\<bar>v\<bar> div 2 ^ k)"

definition f64_to_i64 :: "f64 \<Rightarrow> int option" where
  "f64_to_i64 w =
     (case f64_decode w of
        FFin v \<Rightarrow> (let t = fp_trunc 1074 v in if - (2 ^ 63) \<le> t \<and> t < 2 ^ 63 then Some t else None)
      | _ \<Rightarrow> None)"

lemma f64_to_i64_range: "f64_to_i64 w = Some t \<Longrightarrow> - (2 ^ 63) \<le> t \<and> t < 2 ^ 63"
  by (auto simp: f64_to_i64_def Let_def split: fp.splits if_splits)

section \<open>Decimal printing\<close>

definition round_half_even :: "nat \<Rightarrow> nat \<Rightarrow> nat" where
  "round_half_even a b =
     (let q = a div b; r = a mod b
      in if 2 * r < b then q else if b < 2 * r then Suc q else if even q then q else Suc q)"

fun pad_digits :: "nat \<Rightarrow> nat \<Rightarrow> string" where
  "pad_digits 0 n = []"
| "pad_digits (Suc p) n = pad_digits p (n div 10) @ [digit_char (n mod 10)]"

text \<open>\<open>printf("%.<p>f")\<close> on the exact binary value, rounding half to even.\<close>

definition format_fixed :: "nat \<Rightarrow> f64 \<Rightarrow> string" where
  "format_fixed p w =
     (if f64_sign w then ''-'' else '''') @
     (case f64_decode w of
        FNaN \<Rightarrow> ''nan''
      | FInf _ \<Rightarrow> ''inf''
      | FFin v \<Rightarrow>
          (let q = round_half_even (nat \<bar>v\<bar> * 10 ^ p) (2 ^ 1074)
           in show_nat (q div 10 ^ p) @ (if p = 0 then [] else ''.'' @ pad_digits p (q mod 10 ^ p))))"

text \<open>\<open>std::to_string(double)\<close> is \<open>printf("%f")\<close>.\<close>

definition to_string_f64 :: "f64 \<Rightarrow> string" where
  "to_string_f64 w = format_fixed 6 w"

lemma length_pad_digits [simp]: "length (pad_digits p n) = p"
  by (induction p n rule: pad_digits.induct) auto

lemma f64_decode_one: "f64_decode 0x3FF0000000000000 = FFin (2 ^ 1074)"
  by (simp add: f64_decode_def fp_decode_def)

lemma f64_decode_two: "f64_decode 0x4000000000000000 = FFin (2 ^ 1075)"
  by (simp add: f64_decode_def fp_decode_def)

lemma f64_decode_zero: "f64_decode 0 = FFin 0"
  by (simp add: f64_decode_def fp_decode_def)

lemma f64_decode_nan: "f64_decode 0x7FF8000000000000 = FNaN"
  by (simp add: f64_decode_def fp_decode_def)

end
