(* ===== verification/Std_Containers.thy ===== *)
theory Std_Containers
  imports Rdb_Prelude
begin

text \<open>
  The ordered containers of the C++ library that the components keep their state in:
  \<open>std::map\<close> with a linearly ordered key as a sorted association list, \<open>std::set\<close> with a
  user-defined \<open>operator<\<close> as a sorted list, and \<open>std::lexicographical_compare\<close>.

  Two interfaces are stated as locales. \<open>std_map\<close> is what a client of \<open>std::map\<close> relies on;
  it is interpreted on the sorted association lists below. \<open>strict_weak_order\<close> is what
  \<open>std::set\<close> requires of its comparator; the comparators of \<open>AssetValue\<close>, \<open>BigInteger\<close> and
  \<open>ValueObject\<close> are interpreted in \<open>Value_Object\<close>.
\<close>

section \<open>\<open>std::map\<close>\<close>

text \<open>\<open>emplace\<close>/\<open>insert\<close>: an existing key keeps its value.\<close>

fun om_emplace :: "'k::linorder \<Rightarrow> 'v \<Rightarrow> ('k \<times> 'v) list \<Rightarrow> ('k \<times> 'v) list" where
  "om_emplace k v [] = [(k, v)]"
| "om_emplace k v ((a, b) # m) =
     (if k < a then (k, v) # (a, b) # m else if k = a then (a, b) # m else (a, b) # om_emplace k v m)"

text \<open>\<open>insert_or_assign\<close>, \<open>operator[] =\<close>: an existing key is overwritten.\<close>

fun om_assign :: "'k::linorder \<Rightarrow> 'v \<Rightarrow> ('k \<times> 'v) list \<Rightarrow> ('k \<times> 'v) list" where
  "om_assign k v [] = [(k, v)]"
| "om_assign k v ((a, b) # m) =
     (if k < a then (k, v) # (a, b) # m else if k = a then (a, v) # m else (a, b) # om_assign k v m)"

fun om_erase :: "'k::linorder \<Rightarrow> ('k \<times> 'v) list \<Rightarrow> ('k \<times> 'v) list" where
  "om_erase k [] = []"
| "om_erase k ((a, b) # m) = (if k = a then m else (a, b) # om_erase k m)"

definition om_invar :: "('k::linorder \<times> 'v) list \<Rightarrow> bool" where
  "om_invar m = sorted_wrt (<) (map fst m)"

locale std_map =
  fixes empty :: 'm
    and find :: "'m \<Rightarrow> 'k \<Rightarrow> 'v option"
    and emplace :: "'k \<Rightarrow> 'v \<Rightarrow> 'm \<Rightarrow> 'm"
    and assign :: "'k \<Rightarrow> 'v \<Rightarrow> 'm \<Rightarrow> 'm"
    and erase :: "'k \<Rightarrow> 'm \<Rightarrow> 'm"
    and invar :: "'m \<Rightarrow> bool"
  assumes find_empty: "find empty k = None"
    and find_emplace: "invar m \<Longrightarrow>
      find (emplace k v m) j = (if j = k then (case find m k of None \<Rightarrow> Some v | Some w \<Rightarrow> Some w) else find m j)"
    and find_assign: "invar m \<Longrightarrow> find (assign k v m) j = (if j = k then Some v else find m j)"
    and find_erase: "invar m \<Longrightarrow> find (erase k m) j = (if j = k then None else find m j)"
    and invar_empty: "invar empty"
    and invar_emplace: "invar m \<Longrightarrow> invar (emplace k v m)"
    and invar_assign: "invar m \<Longrightarrow> invar (assign k v m)"
    and invar_erase: "invar m \<Longrightarrow> invar (erase k m)"
begin

text \<open>Emplacing a list of pairs in order: the first value given for a key is the one found.\<close>

lemma invar_emplace_all:
  "invar m \<Longrightarrow> invar (fold (\<lambda>(k, v). emplace k v) kvs m)"
  by (induction kvs arbitrary: m) (auto simp: invar_emplace)

lemma find_emplace_all:
  "invar m \<Longrightarrow> find (fold (\<lambda>(k, v). emplace k v) kvs m) j =
     (case find m j of Some w \<Rightarrow> Some w | None \<Rightarrow> map_of kvs j)"
proof (induction kvs arbitrary: m)
  case Nil
  then show ?case by (simp split: option.split)
next
  case (Cons kv kvs)
  obtain k v where kv: "kv = (k, v)" by fastforce
  from Cons.prems have "invar (emplace k v m)" by (rule invar_emplace)
  from Cons.IH [OF this] Cons.prems show ?case
    by (simp add: kv find_emplace split: option.split)
qed

lemma find_emplace_all_empty:
  "find (fold (\<lambda>(k, v). emplace k v) kvs empty) j = map_of kvs j"
  by (simp add: find_emplace_all invar_empty find_empty)

text \<open>Assigning a list of pairs in order: the last value given for a key is the one found.\<close>

lemma invar_assign_all:
  "invar m \<Longrightarrow> invar (fold (\<lambda>(k, v). assign k v) kvs m)"
  by (induction kvs arbitrary: m) (auto simp: invar_assign)

lemma find_assign_all:
  "invar m \<Longrightarrow> find (fold (\<lambda>(k, v). assign k v) kvs m) j =
     (case map_of (rev kvs) j of Some w \<Rightarrow> Some w | None \<Rightarrow> find m j)"
proof (induction kvs arbitrary: m)
  case (Cons kv kvs)
  obtain k v where kv: "kv = (k, v)" by fastforce
  from Cons.prems have "invar (assign k v m)" by (rule invar_assign)
  from Cons.IH [OF this] Cons.prems show ?case
    by (simp add: kv find_assign map_add_def split: option.split)
qed simp

end

lemma om_find_less: "om_invar m \<Longrightarrow> \<forall>a \<in> fst ` set m. k < a \<Longrightarrow> map_of m k = None"
  by (auto simp: map_of_eq_None_iff)

lemma om_invar_Nil [simp]: "om_invar []"
  by (simp add: om_invar_def)

lemma om_invar_Cons [simp]:
  "om_invar ((a, b) # m) \<longleftrightarrow> (\<forall>x \<in> fst ` set m. a < x) \<and> om_invar m"
  by (simp add: om_invar_def)

lemma om_emplace_keys [simp]: "fst ` set (om_emplace k v m) = insert k (fst ` set m)"
  by (induction k v m rule: om_emplace.induct) auto

lemma om_assign_keys [simp]: "fst ` set (om_assign k v m) = insert k (fst ` set m)"
  by (induction k v m rule: om_assign.induct) auto

lemma om_erase_set: "set (om_erase k m) \<subseteq> set m"
  by (induction k m rule: om_erase.induct) auto

lemma om_emplace_find: "om_invar m \<Longrightarrow>
  map_of (om_emplace k v m) j =
    (if j = k then (case map_of m k of None \<Rightarrow> Some v | Some w \<Rightarrow> Some w) else map_of m j)"
proof (induction k v m rule: om_emplace.induct)
  case (2 k v a b m)
  have "map_of m k = None" if "k < a"
    using 2 that by (intro om_find_less) (auto intro: less_trans [of k a])
  with 2 show ?case by (cases k a rule: linorder_cases) auto
qed simp

lemma om_assign_find: "map_of (om_assign k v m) j = (if j = k then Some v else map_of m j)"
  by (induction k v m rule: om_assign.induct) auto

lemma om_erase_find: "om_invar m \<Longrightarrow> map_of (om_erase k m) j = (if j = k then None else map_of m j)"
  by (induction k m rule: om_erase.induct) (auto simp: om_find_less)

lemma om_emplace_invar: "om_invar m \<Longrightarrow> om_invar (om_emplace k v m)"
proof (induction k v m rule: om_emplace.induct)
  case (2 k v a b m)
  then show ?case by (cases k a rule: linorder_cases) (auto intro: less_trans [of k a])
qed simp

lemma om_assign_invar: "om_invar m \<Longrightarrow> om_invar (om_assign k v m)"
proof (induction k v m rule: om_assign.induct)
  case (2 k v a b m)
  then show ?case by (cases k a rule: linorder_cases) (auto intro: less_trans [of k a])
qed simp

lemma om_erase_invar: "om_invar m \<Longrightarrow> om_invar (om_erase k m)"
proof (induction k m rule: om_erase.induct)
  case (2 k a b m)
  then show ?case using om_erase_set [of k m] by auto
qed simp

interpretation smap: std_map "[]" map_of om_emplace om_assign om_erase om_invar
  by unfold_locales
    (simp_all add: om_emplace_find om_assign_find om_erase_find om_emplace_invar om_assign_invar om_erase_invar)

section \<open>Strict weak orders and \<open>std::set\<close>\<close>

definition equivalent :: "('a \<Rightarrow> 'a \<Rightarrow> bool) \<Rightarrow> 'a \<Rightarrow> 'a \<Rightarrow> bool" where
  "equivalent lt x y \<longleftrightarrow> \<not> lt x y \<and> \<not> lt y x"

text \<open>
  \<open>set.insert(x)\<close>: at the lower bound of \<open>x\<close>, unless the element there is equivalent to \<open>x\<close>.
  \<open>set.find(x)\<close>: the element at the lower bound of \<open>x\<close> if it is equivalent.
\<close>

fun os_insert :: "('a \<Rightarrow> 'a \<Rightarrow> bool) \<Rightarrow> 'a \<Rightarrow> 'a list \<Rightarrow> 'a list" where
  "os_insert lt x [] = [x]"
| "os_insert lt x (a # s) =
     (if lt a x then a # os_insert lt x s else if lt x a then x # a # s else a # s)"

fun os_find :: "('a \<Rightarrow> 'a \<Rightarrow> bool) \<Rightarrow> 'a \<Rightarrow> 'a list \<Rightarrow> 'a option" where
  "os_find lt x [] = None"
| "os_find lt x (a # s) = (if lt a x then os_find lt x s else if lt x a then None else Some a)"

fun lex_less :: "('a \<Rightarrow> 'a \<Rightarrow> bool) \<Rightarrow> 'a list \<Rightarrow> 'a list \<Rightarrow> bool" where
  "lex_less lt xs [] = False"
| "lex_less lt [] (y # ys) = True"
| "lex_less lt (x # xs) (y # ys) =
     (if lt x y then True else if lt y x then False else lex_less lt xs ys)"

locale strict_weak_order =
  fixes carrier :: "'a \<Rightarrow> bool"
    and lt :: "'a \<Rightarrow> 'a \<Rightarrow> bool"
  assumes irrefl: "carrier x \<Longrightarrow> \<not> lt x x"
    and trans: "carrier x \<Longrightarrow> carrier y \<Longrightarrow> carrier z \<Longrightarrow> lt x y \<Longrightarrow> lt y z \<Longrightarrow> lt x z"
    and incomparable_trans: "carrier x \<Longrightarrow> carrier y \<Longrightarrow> carrier z \<Longrightarrow>
      equivalent lt x y \<Longrightarrow> equivalent lt y z \<Longrightarrow> equivalent lt x z"
begin

lemma asym: "carrier x \<Longrightarrow> carrier y \<Longrightarrow> lt x y \<Longrightarrow> \<not> lt y x"
  using irrefl trans by blast

lemma equivalent_refl: "carrier x \<Longrightarrow> equivalent lt x x"
  by (simp add: equivalent_def irrefl)

lemma equivalent_sym: "equivalent lt x y \<Longrightarrow> equivalent lt y x"
  by (simp add: equivalent_def)

text \<open>A comparison does not see the difference between equivalent elements.\<close>

lemma less_equivalent_right:
  assumes "carrier x" "carrier y" "carrier z" "lt x y" "equivalent lt y z"
  shows "lt x z"
proof (rule ccontr)
  assume n: "\<not> lt x z"
  show False
  proof (cases "lt z x")
    case True
    then have "lt z y" using assms trans by blast
    with assms show False by (simp add: equivalent_def)
  next
    case False
    with n have "equivalent lt x z" by (simp add: equivalent_def)
    then have "equivalent lt x y" using assms incomparable_trans equivalent_sym by blast
    with assms show False by (simp add: equivalent_def)
  qed
qed

lemma less_equivalent_left:
  assumes "carrier x" "carrier y" "carrier z" "equivalent lt x y" "lt y z"
  shows "lt x z"
proof (rule ccontr)
  assume n: "\<not> lt x z"
  show False
  proof (cases "lt z x")
    case True
    then have "lt y x" using assms trans by blast
    with assms show False by (simp add: equivalent_def)
  next
    case False
    with n have "equivalent lt x z" by (simp add: equivalent_def)
    then have "equivalent lt y z" using assms incomparable_trans equivalent_sym by blast
    with assms show False by (simp add: equivalent_def)
  qed
qed

lemma os_insert_carrier: "carrier x \<Longrightarrow> list_all carrier s \<Longrightarrow> list_all carrier (os_insert lt x s)"
  by (induction s) auto

lemma os_insert_set: "set (os_insert lt x s) \<subseteq> insert x (set s)" "set s \<subseteq> set (os_insert lt x s)"
  by (induction s) auto

lemma os_insert_sorted:
  "carrier x \<Longrightarrow> list_all carrier s \<Longrightarrow> sorted_wrt lt s \<Longrightarrow> sorted_wrt lt (os_insert lt x s)"
proof (induction s)
  case (Cons a s)
  then have C: "carrier a" "list_all carrier s" "\<forall>b \<in> set s. carrier b" by (auto simp: list_all_iff)
  show ?case
  proof (cases "lt a x")
    case True
    with Cons C os_insert_set(1) [of x s] show ?thesis by auto
  next
    case False
    with Cons C show ?thesis by (auto intro: trans)
  qed
qed simp

text \<open>A found element is a member equivalent to the key; a sorted set finds every such member.\<close>

lemma os_find_Some: "os_find lt x s = Some y \<Longrightarrow> y \<in> set s \<and> equivalent lt y x"
  by (induction s) (auto simp: equivalent_def split: if_splits)

lemma os_find_complete:
  "carrier x \<Longrightarrow> list_all carrier s \<Longrightarrow> sorted_wrt lt s \<Longrightarrow> y \<in> set s \<Longrightarrow> equivalent lt y x
     \<Longrightarrow> os_find lt x s = Some y"
proof (induction s)
  case (Cons a s)
  then have C: "carrier a" "list_all carrier s" "carrier y" by (auto simp: list_all_iff)
  show ?case
  proof (cases "y = a")
    case True
    with Cons show ?thesis by (auto simp: equivalent_def)
  next
    case False
    with Cons have "y \<in> set s" "lt a y" by auto
    moreover have "lt a x" using less_equivalent_right Cons.prems C \<open>lt a y\<close> by blast
    ultimately show ?thesis using Cons C by auto
  qed
qed simp

text \<open>Insert, then find: the element found is equivalent to the one inserted.\<close>

lemma os_find_insert:
  assumes "carrier x" "list_all carrier s" "sorted_wrt lt s"
  shows "\<exists>y. os_find lt x (os_insert lt x s) = Some y \<and> equivalent lt y x \<and>
    (y = x \<or> y \<in> set s)"
  using assms
proof (induction s)
  case Nil
  then show ?case by (simp add: irrefl equivalent_refl)
next
  case (Cons a s)
  then show ?case by (auto simp: irrefl equivalent_refl) (auto simp: equivalent_def)
qed

text \<open>Lexicographic comparison of sequences is again a strict weak order.\<close>

lemma lex_equivalent:
  "equivalent (lex_less lt) xs ys \<longleftrightarrow> list_all2 (equivalent lt) xs ys"
proof (induction xs arbitrary: ys)
  case Nil
  then show ?case by (cases ys) (auto simp: equivalent_def)
next
  case (Cons x xs)
  then show ?case by (cases ys) (auto simp: equivalent_def)
qed

lemma lex_trans:
  "list_all carrier xs \<Longrightarrow> list_all carrier ys \<Longrightarrow> list_all carrier zs \<Longrightarrow>
     lex_less lt xs ys \<Longrightarrow> lex_less lt ys zs \<Longrightarrow> lex_less lt xs zs"
proof (induction xs arbitrary: ys zs)
  case Nil
  then show ?case by (cases zs) auto
next
  case (Cons x xs)
  from Cons.prems obtain y ys' where y: "ys = y # ys'" by (cases ys) auto
  from Cons.prems y obtain z zs' where z: "zs = z # zs'" by (cases zs) auto
  have C: "carrier x" "carrier y" "carrier z" using Cons.prems y z by auto
  consider "lt x y" | "equivalent lt x y" "lex_less lt xs ys'"
    using Cons.prems(4) y by (auto simp: equivalent_def split: if_splits)
  then show ?case
  proof cases
    case 1
    have "lt y z \<or> equivalent lt y z"
      using Cons.prems(5) y z by (auto simp: equivalent_def split: if_splits)
    then have "lt x z" using 1 C trans less_equivalent_right by blast
    then show ?thesis by (simp add: z)
  next
    case 2
    consider "lt y z" | "equivalent lt y z" "lex_less lt ys' zs'"
      using Cons.prems(5) y z by (auto simp: equivalent_def split: if_splits)
    then show ?thesis
    proof cases
      case 1
      then have "lt x z" using 2 C less_equivalent_left by blast
      then show ?thesis by (simp add: z)
    next
      case b: 2
      have "equivalent lt x z" using 2 b C incomparable_trans by blast
      moreover have "lex_less lt xs zs'" using Cons.IH 2 b Cons.prems y z by auto
      ultimately show ?thesis by (simp add: z equivalent_def)
    qed
  qed
qed

lemma list_all2_equivalent_trans:
  "list_all carrier xs \<Longrightarrow> list_all carrier ys \<Longrightarrow> list_all carrier zs \<Longrightarrow>
     list_all2 (equivalent lt) xs ys \<Longrightarrow> list_all2 (equivalent lt) ys zs \<Longrightarrow>
     list_all2 (equivalent lt) xs zs"
proof (induction xs arbitrary: ys zs)
  case (Cons x xs)
  from Cons.prems(4) obtain y ys' where y: "ys = y # ys'" "equivalent lt x y" "list_all2 (equivalent lt) xs ys'"
    by (auto simp: list_all2_Cons1)
  from Cons.prems(5) y(1) obtain z zs' where z: "zs = z # zs'" "equivalent lt y z" "list_all2 (equivalent lt) ys' zs'"
    by (auto simp: list_all2_Cons1)
  have C: "carrier x" "carrier y" "carrier z" "list_all carrier xs" "list_all carrier ys'" "list_all carrier zs'"
    using Cons.prems(1-3) y(1) z(1) by simp_all
  show ?case
    using incomparable_trans [OF C(1-3) y(2) z(2)] Cons.IH [OF C(4-6) y(3) z(3)] by (simp add: z(1))
qed simp

lemma lex_irrefl: "list_all carrier xs \<Longrightarrow> \<not> lex_less lt xs xs"
  by (induction xs) (auto simp: irrefl)

lemma lex_strict_weak_order: "strict_weak_order (list_all carrier) (lex_less lt)"
proof
  show "\<And>x. list_all carrier x \<Longrightarrow> \<not> lex_less lt x x" by (rule lex_irrefl)
  show "\<And>x y z. list_all carrier x \<Longrightarrow> list_all carrier y \<Longrightarrow> list_all carrier z \<Longrightarrow>
    lex_less lt x y \<Longrightarrow> lex_less lt y z \<Longrightarrow> lex_less lt x z" by (rule lex_trans)
  show "\<And>x y z. list_all carrier x \<Longrightarrow> list_all carrier y \<Longrightarrow> list_all carrier z \<Longrightarrow>
    equivalent (lex_less lt) x y \<Longrightarrow> equivalent (lex_less lt) y z \<Longrightarrow> equivalent (lex_less lt) x z"
    unfolding lex_equivalent by (rule list_all2_equivalent_trans)
qed

end

text \<open>Every linear order is one, with equality as its equivalence.\<close>

lemma linorder_equivalent [simp]: "equivalent (<) (x :: 'a::linorder) y \<longleftrightarrow> x = y"
  by (auto simp: equivalent_def)

interpretation lin: strict_weak_order "\<lambda>_. True" "(<) :: 'a::linorder \<Rightarrow> 'a \<Rightarrow> bool"
  by unfold_locales auto

lemma lex_less_linorder: "lex_less (<) (xs :: 'a::linorder list) ys \<longleftrightarrow> xs < ys"
  by (induction "(<) :: 'a \<Rightarrow> 'a \<Rightarrow> bool" xs ys rule: lex_less.induct) auto

text \<open>Comparing through a projection, in reverse, or first by a tag keeps the contract.\<close>

lemma strict_weak_order_image:
  assumes "strict_weak_order D lt" and D: "\<And>x. C x \<Longrightarrow> D (f x)"
  shows "strict_weak_order C (\<lambda>x y. lt (f x) (f y))"
proof
  fix x y z
  assume C: "C x" "C y" "C z"
  show "\<not> lt (f x) (f x)"
    by (rule strict_weak_order.irrefl [OF assms(1) D [OF C(1)]])
  show "lt (f x) (f y) \<Longrightarrow> lt (f y) (f z) \<Longrightarrow> lt (f x) (f z)"
    by (rule strict_weak_order.trans [OF assms(1) D [OF C(1)] D [OF C(2)] D [OF C(3)]])
  show "equivalent (\<lambda>x y. lt (f x) (f y)) x y \<Longrightarrow> equivalent (\<lambda>x y. lt (f x) (f y)) y z
    \<Longrightarrow> equivalent (\<lambda>x y. lt (f x) (f y)) x z"
    using strict_weak_order.incomparable_trans [OF assms(1) D [OF C(1)] D [OF C(2)] D [OF C(3)]]
    by (simp add: equivalent_def)
qed

lemma strict_weak_order_cong:
  assumes "strict_weak_order C lt" and eq: "\<And>x y. C x \<Longrightarrow> C y \<Longrightarrow> lt' x y = lt x y"
  shows "strict_weak_order C lt'"
proof
  fix x y z
  assume C: "C x" "C y" "C z"
  show "\<not> lt' x x"
    using strict_weak_order.irrefl [OF assms(1) C(1)] by (simp add: eq C)
  show "lt' x y \<Longrightarrow> lt' y z \<Longrightarrow> lt' x z"
    using strict_weak_order.trans [OF assms(1) C] by (simp add: eq C)
  show "equivalent lt' x y \<Longrightarrow> equivalent lt' y z \<Longrightarrow> equivalent lt' x z"
    using strict_weak_order.incomparable_trans [OF assms(1) C] by (simp add: equivalent_def eq C)
qed

lemma strict_weak_order_proj:
  assumes "strict_weak_order D lt" and "\<And>x. C x \<Longrightarrow> D (f x)"
    and "\<And>x y. C x \<Longrightarrow> C y \<Longrightarrow> lt' x y = lt (f x) (f y)"
  shows "strict_weak_order C lt'"
  by (rule strict_weak_order_cong [OF strict_weak_order_image [OF assms(1), of C f]])
    (simp_all add: assms(2,3))

lemma strict_weak_order_reverse:
  assumes "strict_weak_order C lt"
  shows "strict_weak_order C (\<lambda>x y. lt y x)"
proof
  fix x y z
  assume C: "C x" "C y" "C z"
  show "\<not> lt x x"
    by (rule strict_weak_order.irrefl [OF assms C(1)])
  show "lt y x \<Longrightarrow> lt z y \<Longrightarrow> lt z x"
    by (rule strict_weak_order.trans [OF assms C(3) C(2) C(1)])
  show "equivalent (\<lambda>x y. lt y x) x y \<Longrightarrow> equivalent (\<lambda>x y. lt y x) y z
    \<Longrightarrow> equivalent (\<lambda>x y. lt y x) x z"
    using strict_weak_order.incomparable_trans [OF assms C] by (auto simp: equivalent_def)
qed

lemma strict_weak_order_tagged:
  fixes tag :: "'a \<Rightarrow> 'b::linorder"
  assumes "\<And>t. strict_weak_order (\<lambda>x. C x \<and> tag x = t) same"
  shows "strict_weak_order C (\<lambda>x y. if tag x \<noteq> tag y then tag x < tag y else same x y)"
    (is "strict_weak_order C ?lt")
proof
  fix x y z
  assume C: "C x" "C y" "C z"
  show "\<not> ?lt x x"
    using strict_weak_order.irrefl [OF assms [of "tag x"], of x] C(1) by simp
  show "?lt x z" if l: "?lt x y" "?lt y z"
  proof (cases "tag x = tag y \<and> tag y = tag z")
    case True
    with l have "same x y" "same y z" by simp_all
    have T: "C x \<and> tag x = tag x" "C y \<and> tag y = tag x" "C z \<and> tag z = tag x"
      using True C by simp_all
    have "same x z"
      by (rule strict_weak_order.trans [OF assms T \<open>same x y\<close> \<open>same y z\<close>])
    with True show ?thesis by simp
  next
    case False
    with l have "tag x < tag z" by (auto split: if_splits)
    then show ?thesis by auto
  qed
  show "equivalent ?lt x z" if e: "equivalent ?lt x y" "equivalent ?lt y z"
  proof -
    have t: "tag x = tag y" "tag y = tag z"
      using e by (auto simp: equivalent_def split: if_splits)
    with e have s: "equivalent same x y" "equivalent same y z" by (simp_all add: equivalent_def)
    have T: "C x \<and> tag x = tag x" "C y \<and> tag y = tag x" "C z \<and> tag z = tag x"
      using t C by simp_all
    have "equivalent same x z"
      by (rule strict_weak_order.incomparable_trans [OF assms T s])
    with t show ?thesis by (simp add: equivalent_def)
  qed
qed

end
