(* ===== verification/Value_Object.thy ===== *)
theory Value_Object
  imports Ieee_Double Std_Containers "HOL-Library.Product_Lexorder"
begin

text \<open>
  \<open>AssetValue\<close> (\<open>asset_value.h\<close>), \<open>BigInteger\<close> (\<open>big_integer.cpp\<close>) and \<open>ValueObject\<close>
  (\<open>value_object.h\<close>, \<open>value_object.cpp\<close>): the variant every value crosses the store in, its
  checked accessors \<open>Get*\<close>, its lenient conversion operators, and its \<open>operator<\<close>, which is
  the comparator of the \<open>std::set\<close> that deduplicates the values of a batch.

  An accessor with an out-parameter takes the caller's old value and returns the error code
  with the new one. A conversion that may truncate a double is \<^typ>\<open>int option\<close>: \<open>None\<close> where
  C++ leaves the cast undefined.
\<close>

section \<open>\<open>AssetValue\<close>\<close>

record asset =
  asset_version :: "32 word"
  asset_status :: "32 word"
  asset_expiresTime :: "64 word"
  asset_id :: string
  asset_name :: string
  asset_uri :: string
  asset_createTime :: string
  asset_modifyTime :: string
  asset_size :: string
  asset_hash :: string
  asset_path :: string
  asset_extension :: string

definition STATUS_UNKNOWN :: "32 word" where "STATUS_UNKNOWN = 0"
definition STATUS_INSERT :: "32 word" where "STATUS_INSERT = 2"
definition STATUS_ABNORMAL :: "32 word" where "STATUS_ABNORMAL = 5"
definition STATUS_DOWNLOADING :: "32 word" where "STATUS_DOWNLOADING = 6"

definition default_asset :: asset where
  "default_asset = \<lparr>asset_version = 0, asset_status = STATUS_UNKNOWN, asset_expiresTime = 0,
     asset_id = [], asset_name = [], asset_uri = [], asset_createTime = [], asset_modifyTime = [],
     asset_size = [], asset_hash = [], asset_path = [], asset_extension = []\<rparr>"

text \<open>\<open>AssetValue::operator<\<close>; \<open>version\<close> and \<open>expiresTime\<close> do not take part.\<close>

definition asset_less :: "asset \<Rightarrow> asset \<Rightarrow> bool" where
  "asset_less a b =
     (if asset_name a \<noteq> asset_name b then asset_name a < asset_name b
      else if asset_status a \<noteq> asset_status b then asset_status a < asset_status b
      else if asset_id a \<noteq> asset_id b then asset_id a < asset_id b
      else if asset_uri a \<noteq> asset_uri b then asset_uri a < asset_uri b
      else if asset_createTime a \<noteq> asset_createTime b then asset_createTime a < asset_createTime b
      else if asset_modifyTime a \<noteq> asset_modifyTime b then asset_modifyTime a < asset_modifyTime b
      else if asset_size a \<noteq> asset_size b then asset_size a < asset_size b
      else if asset_hash a \<noteq> asset_hash b then asset_hash a < asset_hash b
      else if asset_path a \<noteq> asset_path b then asset_path a < asset_path b
      else asset_extension a < asset_extension b)"

section \<open>\<open>BigInteger\<close>\<close>

record big_integer =
  big_sign :: int
  big_value :: "64 word list"

definition default_big :: big_integer where
  "default_big = \<lparr>big_sign = 0, big_value = []\<rparr>"

text \<open>\<open>BigInteger(int64_t)\<close>: the magnitude of the value is its single limb.\<close>

definition big_of_i64 :: "int \<Rightarrow> big_integer" where
  "big_of_i64 v =
     (if v < 0 then \<lparr>big_sign = 1, big_value = [word_of_int (- v)]\<rparr>
      else \<lparr>big_sign = 0, big_value = [word_of_int v]\<rparr>)"

definition big_eq :: "big_integer \<Rightarrow> big_integer \<Rightarrow> bool" where
  "big_eq a b = (if big_sign a \<noteq> big_sign b then False else big_value a = big_value b)"

definition big_less :: "big_integer \<Rightarrow> big_integer \<Rightarrow> bool" where
  "big_less a b =
     (if big_sign a \<noteq> big_sign b then big_sign a > big_sign b
      else if big_sign a = 0 then lex_less (<) (big_value a) (big_value b)
      else lex_less (<) (big_value b) (big_value a))"

section \<open>\<open>ValueObject\<close>\<close>

datatype value_object =
    VNull
  | VInt int
  | VDouble f64
  | VString string
  | VBool bool
  | VBlob "byte list"
  | VAsset asset
  | VAssets "asset list"
  | VVecs "f32 list"
  | VBigInt big_integer

text \<open>\<open>GetType\<close>: the index of the variant.\<close>

fun GetType :: "value_object \<Rightarrow> nat" where
  "GetType VNull = 0"
| "GetType (VInt _) = 1"
| "GetType (VDouble _) = 2"
| "GetType (VString _) = 3"
| "GetType (VBool _) = 4"
| "GetType (VBlob _) = 5"
| "GetType (VAsset _) = 6"
| "GetType (VAssets _) = 7"
| "GetType (VVecs _) = 8"
| "GetType (VBigInt _) = 9"

definition TYPE_MAX :: nat where [simp]: "TYPE_MAX = 10"

fun get_if_int :: "value_object \<Rightarrow> int option" where
  "get_if_int (VInt i) = Some i" | "get_if_int _ = None"
fun get_if_double :: "value_object \<Rightarrow> f64 option" where
  "get_if_double (VDouble d) = Some d" | "get_if_double _ = None"
fun get_if_string :: "value_object \<Rightarrow> string option" where
  "get_if_string (VString s) = Some s" | "get_if_string _ = None"
fun get_if_bool :: "value_object \<Rightarrow> bool option" where
  "get_if_bool (VBool b) = Some b" | "get_if_bool _ = None"
fun get_if_blob :: "value_object \<Rightarrow> byte list option" where
  "get_if_blob (VBlob b) = Some b" | "get_if_blob _ = None"
fun get_if_asset :: "value_object \<Rightarrow> asset option" where
  "get_if_asset (VAsset a) = Some a" | "get_if_asset _ = None"
fun get_if_assets :: "value_object \<Rightarrow> asset list option" where
  "get_if_assets (VAssets a) = Some a" | "get_if_assets _ = None"
fun get_if_vecs :: "value_object \<Rightarrow> f32 list option" where
  "get_if_vecs (VVecs v) = Some v" | "get_if_vecs _ = None"
fun get_if_bigint :: "value_object \<Rightarrow> big_integer option" where
  "get_if_bigint (VBigInt b) = Some b" | "get_if_bigint _ = None"

subsection \<open>Checked accessors\<close>

text \<open>The template \<open>Get<T>\<close>, with \<open>std::get_if<T>\<close> as its first argument.\<close>

definition vo_Get :: "(value_object \<Rightarrow> 'a option) \<Rightarrow> value_object \<Rightarrow> 'a \<Rightarrow> int \<times> 'a" where
  "vo_Get get_if v output =
     (case get_if v of None \<Rightarrow> (E_INVALID_OBJECT_TYPE, output) | Some x \<Rightarrow> (E_OK, x))"

definition vo_GetInt :: "value_object \<Rightarrow> int \<Rightarrow> int \<times> int" where
  "vo_GetInt v val = (let (ret, value) = vo_Get get_if_int v 0 in (ret, to_i32 value))"

definition vo_GetLong :: "value_object \<Rightarrow> int \<Rightarrow> int \<times> int" where
  "vo_GetLong v val = vo_Get get_if_int v val"

definition vo_GetDouble :: "value_object \<Rightarrow> f64 \<Rightarrow> int \<times> f64" where
  "vo_GetDouble v val = vo_Get get_if_double v val"

definition vo_GetBool :: "value_object \<Rightarrow> bool \<Rightarrow> int \<times> bool" where
  "vo_GetBool v val = vo_Get get_if_bool v val"

definition vo_GetString :: "value_object \<Rightarrow> string \<Rightarrow> int \<times> string" where
  "vo_GetString v val =
     (case get_if_string v of
        Some s \<Rightarrow> (E_OK, s)
      | None \<Rightarrow>
        (case get_if_double v of
           Some ftmp \<Rightarrow> (E_OK, to_string_f64 ftmp)
         | None \<Rightarrow>
           (case get_if_int v of
              Some itmp \<Rightarrow> (E_OK, to_string_int itmp)
            | None \<Rightarrow>
              (case get_if_bool v of
                 Some btmp \<Rightarrow> (E_OK, to_string_bool btmp)
               | None \<Rightarrow> (E_INVALID_OBJECT_TYPE, val)))))"

definition vo_GetBlob :: "value_object \<Rightarrow> byte list \<Rightarrow> int \<times> byte list" where
  "vo_GetBlob v val = vo_Get get_if_blob v val"

definition vo_GetAsset :: "value_object \<Rightarrow> asset \<Rightarrow> int \<times> asset" where
  "vo_GetAsset v val = vo_Get get_if_asset v val"

definition vo_GetAssets :: "value_object \<Rightarrow> asset list \<Rightarrow> int \<times> asset list" where
  "vo_GetAssets v val = vo_Get get_if_assets v val"

definition vo_GetVecs :: "value_object \<Rightarrow> f32 list \<Rightarrow> int \<times> f32 list" where
  "vo_GetVecs v val = vo_Get get_if_vecs v val"

subsection \<open>Conversion operators\<close>

definition digit_val :: "char \<Rightarrow> nat option" where
  "digit_val c =
     (let n = of_char c :: nat
      in if 48 \<le> n \<and> n \<le> 57 then Some (n - 48)
         else if 97 \<le> n \<and> n \<le> 122 then Some (n - 87)
         else if 65 \<le> n \<and> n \<le> 90 then Some (n - 55)
         else None)"

fun digits_val :: "nat \<Rightarrow> nat \<Rightarrow> string \<Rightarrow> nat" where
  "digits_val base acc [] = acc"
| "digits_val base acc (c # cs) =
     (case digit_val c of
        Some d \<Rightarrow> if d < base then digits_val base (acc * base + d) cs else acc
      | None \<Rightarrow> acc)"

text \<open>\<open>strtoll(s.c_str(), nullptr, 0)\<close>: base 16, 8 or 10 by prefix, saturating.\<close>

definition strtoll0 :: "string \<Rightarrow> int" where
  "strtoll0 s =
     (let s1 = dropWhile is_space (takeWhile (\<lambda>c. c \<noteq> CHR 0x00) s);
          neg = (case s1 of c # _ \<Rightarrow> c = CHR ''-'' | [] \<Rightarrow> False);
          s2 = (case s1 of c # cs \<Rightarrow> if c = CHR ''-'' \<or> c = CHR ''+'' then cs else s1 | [] \<Rightarrow> []);
          hex = (case s2 of
                   z # x # d # _ \<Rightarrow> z = CHR ''0'' \<and> (x = CHR ''x'' \<or> x = CHR ''X'') \<and>
                     (case digit_val d of Some n \<Rightarrow> n < 16 | None \<Rightarrow> False)
                 | _ \<Rightarrow> False);
          n = (if hex then digits_val 16 0 (drop 2 s2)
               else if starts_with ''0'' s2 then digits_val 8 0 s2
               else digits_val 10 0 s2);
          v = (if neg then - int n else int n)
      in max (- (2 ^ 63)) (min (2 ^ 63 - 1) v))"

fun operator_int64 :: "value_object \<Rightarrow> int option" where
  "operator_int64 (VInt i) = Some i"
| "operator_int64 (VDouble d) = f64_to_i64 d"
| "operator_int64 (VBool b) = Some (if b then 1 else 0)"
| "operator_int64 (VString s) = Some (if s = [] then 0 else strtoll0 s)"
| "operator_int64 _ = Some 0"

definition operator_int :: "value_object \<Rightarrow> int option" where
  "operator_int v = map_option to_i32 (operator_int64 v)"

fun operator_bool :: "value_object \<Rightarrow> bool option" where
  "operator_bool (VInt i) = Some (i \<noteq> 0)"
| "operator_bool (VDouble d) = map_option (\<lambda>t. t \<noteq> 0) (f64_to_i64 d)"
| "operator_bool (VBool b) = Some b"
| "operator_bool (VString s) = Some (s \<noteq> ''0'')"
| "operator_bool _ = Some False"

fun operator_blob :: "value_object \<Rightarrow> byte list" where
  "operator_blob (VBlob b) = b"
| "operator_blob (VString s) = map of_char s"
| "operator_blob _ = []"

definition operator_asset :: "value_object \<Rightarrow> asset" where
  "operator_asset v = (case get_if_asset v of None \<Rightarrow> default_asset | Some a \<Rightarrow> a)"

definition operator_assets :: "value_object \<Rightarrow> asset list" where
  "operator_assets v = (case get_if_assets v of None \<Rightarrow> [] | Some a \<Rightarrow> a)"

definition operator_vecs :: "value_object \<Rightarrow> f32 list" where
  "operator_vecs v = (case get_if_vecs v of None \<Rightarrow> [] | Some a \<Rightarrow> a)"

definition operator_bigint :: "value_object \<Rightarrow> big_integer" where
  "operator_bigint v = (case get_if_bigint v of None \<Rightarrow> default_big | Some a \<Rightarrow> a)"

text \<open>
  \<open>GetPrecision\<close> counts the decimals of a double in double arithmetic. Both subtractions of a
  truncated part are exact; the product by ten is rounded to 53 bits, half to even.
\<close>

fun ilog2 :: "nat \<Rightarrow> nat \<Rightarrow> nat" where
  "ilog2 0 n = 0"
| "ilog2 (Suc k) n = (if n < 2 ^ (2 ^ k) then ilog2 k n else 2 ^ k + ilog2 k (n div 2 ^ (2 ^ k)))"

definition fp_round53 :: "int \<Rightarrow> int" where
  "fp_round53 p =
     (if \<bar>p\<bar> < 2 ^ 53 then p
      else (let sh = ilog2 12 (nat \<bar>p\<bar>) - 52
            in sgn p * (int (round_half_even (nat \<bar>p\<bar>) (2 ^ sh)) * 2 ^ sh)))"

fun precision_loop :: "nat \<Rightarrow> nat \<Rightarrow> int \<Rightarrow> int \<Rightarrow> int" where
  "precision_loop 0 i val precision = precision"
| "precision_loop (Suc m) i val precision =
     (let val1 = fp_round53 (val * 10);
          t = fp_trunc 1074 val1
      in precision_loop m (Suc i) (val1 - t * 2 ^ 1074) (if t > 0 then int i + 1 else precision))"

definition GetPrecision :: "f64 \<Rightarrow> int option" where
  "GetPrecision w =
     (case f64_decode w of
        FFin v \<Rightarrow> (case f64_to_i64 w of
                     Some t \<Rightarrow> Some (precision_loop 17 0 (v - t * 2 ^ 1074) 0)
                   | None \<Rightarrow> None)
      | _ \<Rightarrow> None)"

fun operator_string :: "value_object \<Rightarrow> string option" where
  "operator_string (VInt i) = Some (to_string_int i)"
| "operator_string (VBool b) = Some (if b then ''1'' else ''0'')"
| "operator_string (VDouble d) = map_option (\<lambda>p. format_fixed (nat p) d) (GetPrecision d)"
| "operator_string (VString s) = Some s"
| "operator_string _ = Some []"

subsection \<open>Comparison\<close>

text \<open>The \<open>switch\<close> of \<open>operator<\<close>, entered with both types equal.\<close>

definition vo_less_same :: "value_object \<Rightarrow> value_object \<Rightarrow> bool" where
  "vo_less_same a b =
     (case a of
        VNull \<Rightarrow> False
      | VInt x \<Rightarrow> (case b of VInt y \<Rightarrow> x < y | _ \<Rightarrow> True)
      | VDouble x \<Rightarrow> (case b of VDouble y \<Rightarrow> f64_less x y | _ \<Rightarrow> True)
      | VString x \<Rightarrow> (case b of VString y \<Rightarrow> x < y | _ \<Rightarrow> True)
      | VBool x \<Rightarrow> (case b of VBool y \<Rightarrow> x < y | _ \<Rightarrow> True)
      | VBlob x \<Rightarrow> (case b of VBlob y \<Rightarrow> lex_less (<) x y | _ \<Rightarrow> True)
      | VAsset x \<Rightarrow> (case b of VAsset y \<Rightarrow> asset_less x y | _ \<Rightarrow> True)
      | VAssets x \<Rightarrow> (case b of VAssets y \<Rightarrow> lex_less asset_less x y | _ \<Rightarrow> True)
      | VVecs x \<Rightarrow> (case b of VVecs y \<Rightarrow> lex_less f32_less x y | _ \<Rightarrow> True)
      | VBigInt x \<Rightarrow> (case b of VBigInt y \<Rightarrow> big_less x y | _ \<Rightarrow> True))"

lemma vo_less_same_simps [simp]:
  "vo_less_same VNull b = False"
  "vo_less_same (VInt i) (VInt j) = (i < j)"
  "vo_less_same (VDouble d) (VDouble e) = f64_less d e"
  "vo_less_same (VString s) (VString t) = (s < t)"
  "vo_less_same (VBool p) (VBool q) = (p < q)"
  "vo_less_same (VBlob x) (VBlob y) = lex_less (<) x y"
  "vo_less_same (VAsset f) (VAsset g) = asset_less f g"
  "vo_less_same (VAssets fs) (VAssets gs) = lex_less asset_less fs gs"
  "vo_less_same (VVecs ds) (VVecs es) = lex_less f32_less ds es"
  "vo_less_same (VBigInt m) (VBigInt n) = big_less m n"
  by (simp_all add: vo_less_same_def)

definition vo_less :: "value_object \<Rightarrow> value_object \<Rightarrow> bool" where
  "vo_less a b = (if GetType a \<noteq> GetType b then GetType a < GetType b else vo_less_same a b)"

definition vo_eq :: "value_object \<Rightarrow> value_object \<Rightarrow> bool" where
  "vo_eq a b = (\<not> (vo_less b a \<or> vo_less a b))"

definition vo_neq :: "value_object \<Rightarrow> value_object \<Rightarrow> bool" where
  "vo_neq a b = (vo_less b a \<or> vo_less a b)"

section \<open>The comparators as strict weak orders\<close>

definition asset_key where
  "asset_key a = (asset_name a, asset_status a, asset_id a, asset_uri a, asset_createTime a,
     asset_modifyTime a, asset_size a, asset_hash a, asset_path a, asset_extension a)"

lemma pair_less_if:
  "((x :: 'a::linorder, z :: 'b::linorder) < (y, w)) = (if x \<noteq> y then x < y else z < w)"
  by (auto simp: less_prod_simp)

lemma asset_less_key: "asset_less a b \<longleftrightarrow> asset_key a < asset_key b"
  by (simp only: asset_less_def asset_key_def pair_less_if)

interpretation asset_order: strict_weak_order "\<lambda>_. True" asset_less
  unfolding asset_less_key
  by (rule strict_weak_order_image [OF lin.strict_weak_order_axioms]) simp

lemma asset_equivalent: "equivalent asset_less a b \<longleftrightarrow> asset_key a = asset_key b"
  by (auto simp: equivalent_def asset_less_key)

interpretation f64_order: strict_weak_order "\<lambda>w. \<not> f64_is_nan w" f64_less
proof
  fix x y z
  assume "\<not> f64_is_nan x" "\<not> f64_is_nan y" "\<not> f64_is_nan z"
  then show "\<not> f64_less x x"
    and "f64_less x y \<Longrightarrow> f64_less y z \<Longrightarrow> f64_less x z"
    and "equivalent f64_less x y \<Longrightarrow> equivalent f64_less y z \<Longrightarrow> equivalent f64_less x z"
    using fp_less_trans fp_less_total
    unfolding f64_less_def f64_is_nan_def equivalent_def by (fastforce | metis)+
qed

interpretation f32_order: strict_weak_order "\<lambda>w. \<not> f32_is_nan w" f32_less
proof
  fix x y z
  assume "\<not> f32_is_nan x" "\<not> f32_is_nan y" "\<not> f32_is_nan z"
  then show "\<not> f32_less x x"
    and "f32_less x y \<Longrightarrow> f32_less y z \<Longrightarrow> f32_less x z"
    and "equivalent f32_less x y \<Longrightarrow> equivalent f32_less y z \<Longrightarrow> equivalent f32_less x z"
    using fp_less_trans fp_less_total
    unfolding f32_less_def f32_is_nan_def equivalent_def by (fastforce | metis)+
qed

lemma big_less_tagged:
  "big_less = (\<lambda>a b. if - big_sign a \<noteq> - big_sign b then - big_sign a < - big_sign b
     else (if big_sign a = 0 then big_value a < big_value b else big_value b < big_value a))"
  by (intro ext) (simp add: big_less_def lex_less_linorder)

interpretation big_order: strict_weak_order "\<lambda>_. True" big_less
  unfolding big_less_tagged
proof (rule strict_weak_order_tagged)
  fix t :: int
  let ?same = "\<lambda>a b. if big_sign a = 0 then big_value a < big_value b else big_value b < big_value a"
  show "strict_weak_order (\<lambda>x. True \<and> - big_sign x = t) ?same"
  proof (cases "t = 0")
    case True
    then show ?thesis
      by (intro strict_weak_order_proj [OF lin.strict_weak_order_axioms, where f = big_value]) auto
  next
    case False
    then show ?thesis
      by (intro strict_weak_order_proj
        [OF strict_weak_order_reverse [OF lin.strict_weak_order_axioms], where f = big_value]) auto
  qed
qed

lemma big_equivalent: "equivalent big_less a b \<longleftrightarrow> a = b"
  by (cases a; cases b) (auto simp: equivalent_def big_less_def lex_less_linorder split: if_splits)

text \<open>\<open>vo_ok\<close>: no NaN among the floating-point values held.\<close>

fun vo_ok :: "value_object \<Rightarrow> bool" where
  "vo_ok (VDouble d) = (\<not> f64_is_nan d)"
| "vo_ok (VVecs v) = list_all (\<lambda>w. \<not> f32_is_nan w) v"
| "vo_ok _ = True"

lemma GetType_conv:
  "GetType v = 0 \<longleftrightarrow> v = VNull"
  "GetType v = Suc 0 \<longleftrightarrow> (\<exists>i. v = VInt i)"
  "GetType v = 2 \<longleftrightarrow> (\<exists>d. v = VDouble d)"
  "GetType v = 3 \<longleftrightarrow> (\<exists>s. v = VString s)"
  "GetType v = 4 \<longleftrightarrow> (\<exists>b. v = VBool b)"
  "GetType v = 5 \<longleftrightarrow> (\<exists>b. v = VBlob b)"
  "GetType v = 6 \<longleftrightarrow> (\<exists>a. v = VAsset a)"
  "GetType v = 7 \<longleftrightarrow> (\<exists>a. v = VAssets a)"
  "GetType v = 8 \<longleftrightarrow> (\<exists>f. v = VVecs f)"
  "GetType v = 9 \<longleftrightarrow> (\<exists>b. v = VBigInt b)"
  by (cases v; simp)+

lemma GetType_less_MAX: "GetType v < TYPE_MAX"
  by (cases v) simp_all

lemma vo_less_same_order: "strict_weak_order (\<lambda>x. vo_ok x \<and> GetType x = t) vo_less_same"
proof -
  have "t = 0 \<or> t = 1 \<or> t = 2 \<or> t = 3 \<or> t = 4 \<or> t = 5 \<or> t = 6 \<or> t = 7 \<or> t = 8 \<or> t = 9 \<or> t \<ge> 10"
    by arith
  then consider "t = 0" | "t = 1" | "t = 2" | "t = 3" | "t = 4" | "t = 5" | "t = 6" | "t = 7" | "t = 8"
    | "t = 9" | "t \<ge> 10" by blast
  then show ?thesis
  proof cases
    case 1
    then show ?thesis
      by (auto simp: GetType_conv strict_weak_order_def equivalent_def)
  next
    case 2
    then show ?thesis
      by (intro strict_weak_order_proj [OF lin.strict_weak_order_axioms, where f = "\<lambda>v. the (get_if_int v)"])
        (auto simp: GetType_conv)
  next
    case 3
    then show ?thesis
      by (intro strict_weak_order_proj [OF f64_order.strict_weak_order_axioms, where f = "\<lambda>v. the (get_if_double v)"])
        (auto simp: GetType_conv)
  next
    case 4
    then show ?thesis
      by (intro strict_weak_order_proj [OF lin.strict_weak_order_axioms, where f = "\<lambda>v. the (get_if_string v)"])
        (auto simp: GetType_conv)
  next
    case 5
    then show ?thesis
      by (intro strict_weak_order_proj [OF lin.strict_weak_order_axioms, where f = "\<lambda>v. the (get_if_bool v)"])
        (auto simp: GetType_conv)
  next
    case 6
    then show ?thesis
      by (intro strict_weak_order_proj [OF lin.lex_strict_weak_order, where f = "\<lambda>v. the (get_if_blob v)"])
        (auto simp: GetType_conv list_all_iff)
  next
    case 7
    then show ?thesis
      by (intro strict_weak_order_proj [OF asset_order.strict_weak_order_axioms, where f = "\<lambda>v. the (get_if_asset v)"])
        (auto simp: GetType_conv)
  next
    case 8
    then show ?thesis
      by (intro strict_weak_order_proj [OF asset_order.lex_strict_weak_order, where f = "\<lambda>v. the (get_if_assets v)"])
        (auto simp: GetType_conv list_all_iff)
  next
    case 9
    then show ?thesis
      by (intro strict_weak_order_proj [OF f32_order.lex_strict_weak_order, where f = "\<lambda>v. the (get_if_vecs v)"])
        (auto simp: GetType_conv)
  next
    case 10
    then show ?thesis
      by (intro strict_weak_order_proj [OF big_order.strict_weak_order_axioms, where f = "\<lambda>v. the (get_if_bigint v)"])
        (auto simp: GetType_conv)
  next
    case 11
    then have "\<not> GetType x = t" for x using GetType_less_MAX [of x] by simp
    then show ?thesis by (simp add: strict_weak_order_def)
  qed
qed

interpretation vo_order: strict_weak_order vo_ok vo_less
  using strict_weak_order_tagged [OF vo_less_same_order] unfolding vo_less_def .

lemma vo_eq_equivalent: "vo_eq a b \<longleftrightarrow> equivalent vo_less a b"
  by (auto simp: vo_eq_def equivalent_def)

section \<open>Decimal round trip\<close>

lemma digit_val_digit_char [simp]: "d < 10 \<Longrightarrow> digit_val (digit_char d) = Some d"
  by (simp add: digit_val_def digit_char_range Let_def)

lemma digits_val_append:
  "list_all (\<lambda>c. \<exists>d < base. digit_val c = Some d) s \<Longrightarrow>
     digits_val base acc (s @ t) = digits_val base (digits_val base acc s) t"
  by (induction s arbitrary: acc) auto

lemma show_nat_digit_val: "list_all (\<lambda>c. \<exists>d < 10. digit_val c = Some d) (show_nat n)"
  using show_nat_digits [of _ n] by (force simp: list_all_iff)

lemma digits_val_show_nat: "digits_val 10 0 (show_nat n) = n"
proof (induction n rule: show_nat.induct)
  case (1 n)
  show ?case
  proof (cases "n < 10")
    case True
    then show ?thesis by (subst show_nat.simps) simp
  next
    case False
    then show ?thesis
      using 1 digits_val_append [OF show_nat_digit_val, of 0 "n div 10"]
      by (subst show_nat.simps) simp
  qed
qed

lemma show_nat_head: "\<exists>d cs. show_nat n = digit_char d # cs \<and> d < 10 \<and> (d = 0 \<longrightarrow> n = 0)"
proof (induction n rule: show_nat.induct)
  case (1 n)
  show ?case
  proof (cases "n < 10")
    case True
    then show ?thesis by (subst show_nat.simps) auto
  next
    case False
    with 1 obtain d cs where "show_nat (n div 10) = digit_char d # cs" "d < 10" "d = 0 \<longrightarrow> n div 10 = 0"
      by blast
    with False show ?thesis by (subst show_nat.simps) auto
  qed
qed

lemma digit_char_facts:
  assumes "d < 10"
  shows "digit_char d \<noteq> CHR ''-''" "digit_char d \<noteq> CHR ''+''" "\<not> is_space (digit_char d)"
    "digit_char d \<noteq> CHR 0x00" "digit_char d = CHR ''0'' \<longleftrightarrow> d = 0"
    "digit_char d \<noteq> CHR ''x''" "digit_char d \<noteq> CHR ''X''"
proof -
  have c: "(of_char (digit_char d) :: nat) = 48 + d" using assms by (rule digit_char_range)
  have "digit_char d = e \<longleftrightarrow> 48 + d = of_char e" for e
    using c of_char_eq_iff [of "digit_char d" e, where ?'a = nat] by metis
  then show "digit_char d \<noteq> CHR ''-''" "digit_char d \<noteq> CHR ''+''" "digit_char d \<noteq> CHR 0x00"
    "digit_char d = CHR ''0'' \<longleftrightarrow> d = 0" "digit_char d \<noteq> CHR ''x''" "digit_char d \<noteq> CHR ''X''"
    using assms by simp_all
  show "\<not> is_space (digit_char d)"
    using assms c by (simp add: is_space_def Let_def)
qed

lemma show_nat_plain: "takeWhile (\<lambda>c. c \<noteq> CHR 0x00) (show_nat n) = show_nat n"
proof -
  have "c \<noteq> CHR 0x00" if c: "c \<in> set (show_nat n)" for c
  proof -
    obtain d where d: "d < 10" "c = digit_char d" using show_nat_digits [OF c] by (elim exE conjE)
    show ?thesis unfolding d(2) by (rule digit_char_facts(4) [OF d(1)])
  qed
  then show ?thesis unfolding takeWhile_eq_all_conv by (rule ballI)
qed

lemma strtoll0_digits:
  "(if starts_with ''0'' (show_nat n) then digits_val 8 0 (show_nat n) else digits_val 10 0 (show_nat n)) = n"
proof -
  obtain d cs where s: "show_nat n = digit_char d # cs" "d < 10" "d = 0 \<longrightarrow> n = 0"
    using show_nat_head by blast
  show ?thesis
  proof (cases "d = 0")
    case True
    with s have "n = 0" by simp
    then show ?thesis by (simp add: show_nat.simps)
  next
    case False
    then show ?thesis using s digit_char_facts(5) [OF s(2)] digits_val_show_nat [of n] by auto
  qed
qed

lemma show_nat_not_hex: "show_nat n = z # x # r \<Longrightarrow> x \<noteq> CHR ''x'' \<and> x \<noteq> CHR ''X''"
proof -
  assume "show_nat n = z # x # r"
  then have "x \<in> set (show_nat n)" by simp
  then obtain d where d: "d < 10" "x = digit_char d" by (blast dest: show_nat_digits)
  show ?thesis unfolding d(2) by (intro conjI digit_char_facts(6,7) d(1))
qed

lemma strtoll0_to_string:
  assumes "- (2 ^ 63) \<le> i" "i < 2 ^ 63"
  shows "strtoll0 (to_string_int i) = i"
proof -
  let ?n = "nat \<bar>i\<bar>"
  obtain d cs where s: "show_nat ?n = digit_char d # cs" "d < 10" using show_nat_head by blast
  note f = digit_char_facts [OF s(2)]
  define s1 where "s1 = to_string_int i"
  have str: "dropWhile is_space (takeWhile (\<lambda>c. c \<noteq> CHR 0x00) (to_string_int i)) = s1"
  proof (cases "i < 0")
    case True
    then show ?thesis
      using show_nat_plain [of ?n] by (simp add: to_string_int_def s1_def is_space_def)
  next
    case False
    then show ?thesis
      using show_nat_plain [of ?n] s f(3) by (simp add: to_string_int_def s1_def)
  qed
  have neg: "(case s1 of c # _ \<Rightarrow> c = CHR ''-'' | [] \<Rightarrow> False) = (i < 0)"
    using s f by (auto simp: s1_def to_string_int_def)
  have s2: "(case s1 of c # cs \<Rightarrow> if c = CHR ''-'' \<or> c = CHR ''+'' then cs else s1 | [] \<Rightarrow> []) = show_nat ?n"
    using s f by (auto simp: s1_def to_string_int_def)
  have hex: "(case show_nat ?n of
      z # x # d # _ \<Rightarrow> z = CHR ''0'' \<and> (x = CHR ''x'' \<or> x = CHR ''X'') \<and>
        (case digit_val d of Some n \<Rightarrow> n < 16 | None \<Rightarrow> False)
    | _ \<Rightarrow> False) = False"
    using show_nat_not_hex [of ?n] by (auto split: list.splits)
  show ?thesis
    unfolding strtoll0_def Let_def str neg s2 hex if_False strtoll0_digits
    using assms by auto
qed

section \<open>Properties\<close>

text \<open>
  C9: away from NaN, \<open>operator<\<close> of \<open>ValueObject\<close> is a strict weak order, across and within
  all ten alternatives of the variant, and \<open>operator==\<close> is its equivalence; this is what
  \<open>std::set<ValueObject>\<close> requires of its comparator.
\<close>

theorem value_order:
  assumes "vo_ok a" "vo_ok b" "vo_ok c"
  shows "\<not> vo_less a a
    \<and> (vo_less a b \<longrightarrow> vo_less b c \<longrightarrow> vo_less a c)
    \<and> (vo_eq a b \<longrightarrow> vo_eq b c \<longrightarrow> vo_eq a c)
    \<and> (vo_less a b \<longrightarrow> vo_eq b c \<longrightarrow> vo_less a c)"
  using vo_order.irrefl [OF assms(1)] vo_order.trans [OF assms] vo_order.incomparable_trans [OF assms]
    vo_order.less_equivalent_right [OF assms]
  unfolding vo_eq_equivalent by blast

theorem value_order_witness:
  "vo_less (VInt 1) (VString ''b'') \<and> \<not> vo_less (VInt 1) (VInt 1)"
  using value_order [of "VInt 1" "VString ''a''" "VString ''b''"]
  by (simp add: vo_less_def)

text \<open>
  With a NaN among them the comparison is no strict weak order: NaN is equivalent to every
  double, so the equivalence is not transitive.
\<close>

lemma value_order_nan:
  "\<exists>a b c. vo_eq a b \<and> vo_eq b c \<and> vo_less a c \<and> a = VDouble 0 \<and> c = VDouble 0x3FF0000000000000"
proof -
  let ?a = "VDouble 0" and ?b = "VDouble 0x7FF8000000000000" and ?c = "VDouble 0x3FF0000000000000"
  have "vo_eq ?a ?b" "vo_eq ?b ?c" "vo_less ?a ?c"
    by (simp_all add: vo_eq_def vo_less_def f64_less_def f64_decode_zero f64_decode_one f64_decode_nan)
  then show ?thesis by blast
qed

text \<open>
  A 64-bit integer printed by \<open>std::to_string\<close> and read back through the conversion of a
  string value to \<open>int64_t\<close> is itself.
\<close>

lemma int64_string_roundtrip:
  assumes "- (2 ^ 63) \<le> i" "i < 2 ^ 63"
  shows "(case operator_string (VInt i) of Some s \<Rightarrow> operator_int64 (VString s) | None \<Rightarrow> None) = Some i"
  using strtoll0_to_string [OF assms] by simp

text \<open>
  The conversion of a negative double to a string drops its fraction: \<open>GetPrecision\<close>
  counts only positive decimals, so it is 0 on every negative value in the range of \<open>int64_t\<close>.
\<close>

lemma negative_double_precision:
  assumes "f64_decode w = FFin v" "v \<le> 0" "f64_to_i64 w = Some t"
  shows "operator_string (VDouble w) = Some (format_fixed 0 w)"
proof -
  have trunc: "fp_trunc k x \<le> 0 \<and> x - fp_trunc k x * 2 ^ k \<le> 0" if "x \<le> 0" for x :: int and k
  proof (cases "x = 0")
    case False
    with that have "fp_trunc k x = - ((- x) div 2 ^ k)" by (simp add: fp_trunc_def)
    moreover have "0 \<le> (- x) mod 2 ^ k" by simp
    then have "(- x) div 2 ^ k * 2 ^ k \<le> - x"
      using div_mult_mod_eq [of "- x" "2 ^ k"] by linarith
    moreover have "0 \<le> (- x) div 2 ^ k" using that by (simp add: pos_imp_zdiv_nonneg_iff)
    ultimately show ?thesis by (metis add.inverse_inverse diff_le_0_iff_le minus_mult_minus mult_minus_left neg_le_0_iff_le neg_le_iff_le)
  qed (simp add: fp_trunc_def)
  have round: "fp_round53 x \<le> 0" if "x \<le> 0" for x
    using that by (auto simp: fp_round53_def Let_def sgn_if)
  have loop: "precision_loop m i x 0 = 0" if "x \<le> 0" for m i x
    using that
  proof (induction m arbitrary: i x)
    case (Suc m)
    have "fp_round53 (x * 10) \<le> 0" using round Suc.prems by simp
    with Suc.IH trunc [OF this, of 1074] show ?case by (simp add: Let_def not_less [symmetric])
  qed simp
  have "v - t * 2 ^ 1074 \<le> 0"
    using assms trunc [OF assms(2), of 1074] by (auto simp: f64_to_i64_def Let_def split: if_splits)
  then show ?thesis using assms loop by (simp add: GetPrecision_def)
qed

end
