(* ===== verification/String_Utils.thy ===== *)
theory String_Utils
  imports Rdb_Prelude
begin

text \<open>
  \<open>StringUtils\<close> (\<open>string_utils.cpp\<close>): quoting, rendering of a function call, splitting at a
  delimiter and the path helpers. \<open>Split\<close> is a partial function: \<open>None\<close> is a loop that never
  ends, which is what an empty delimiter gives.
\<close>

definition SurroundWithQuote :: "string \<Rightarrow> string \<Rightarrow> string" where
  "SurroundWithQuote v quote = (if v = [] then v else quote @ v @ quote)"

fun SurroundWithFunction_loop :: "string \<Rightarrow> string \<Rightarrow> bool \<Rightarrow> string list \<Rightarrow> string" where
  "SurroundWithFunction_loop separator builder isFirst [] = builder"
| "SurroundWithFunction_loop separator builder isFirst (txt # array) =
     (if \<not> isFirst
      then SurroundWithFunction_loop separator ((builder @ '' '' @ separator @ '' '') @ txt) isFirst array
      else SurroundWithFunction_loop separator (builder @ txt) False array)"

definition SurroundWithFunction :: "string \<Rightarrow> string \<Rightarrow> string list \<Rightarrow> string" where
  "SurroundWithFunction f separator array =
     SurroundWithFunction_loop separator (f @ ''('') True array @ '')''"

partial_function (option) Split_loop ::
  "string \<Rightarrow> string \<Rightarrow> nat \<Rightarrow> string list \<Rightarrow> string list option" where
  "Split_loop str delim pos res =
     (if pos < length str
      then (case str_find_from delim str pos of
              None \<Rightarrow> Some (res @ [drop pos str])
            | Some found \<Rightarrow>
                Split_loop str delim (found + length delim) (res @ [take (found - pos) (drop pos str)]))
      else Some res)"

definition Split :: "string \<Rightarrow> string \<Rightarrow> string list option" where
  "Split str delim = Split_loop str delim 0 []"

text \<open>\<open>rfind("/") + 1\<close>; without a slash \<open>npos + 1\<close> wraps to 0.\<close>

definition after_slash :: "string \<Rightarrow> nat" where
  "after_slash s = (case str_find_last_of ''/'' s of Some k \<Rightarrow> k + 1 | None \<Rightarrow> 0)"

definition ExtractFilePath :: "string \<Rightarrow> string" where
  "ExtractFilePath fileFullName = take (after_slash fileFullName) fileFullName"

definition ExtractFileName :: "string \<Rightarrow> string" where
  "ExtractFileName fileFullName =
     take (length fileFullName) (drop (after_slash fileFullName) fileFullName)"

definition TruncateAfterFirstParen :: "string \<Rightarrow> string" where
  "TruncateAfterFirstParen str = (case str_find ''('' str of Some pos \<Rightarrow> take pos str | None \<Rightarrow> str)"

definition GetParentPath :: "string \<Rightarrow> string" where
  "GetParentPath path =
     (case str_find_last_of (''/'' @ [CHR 0x5C]) path of
        None \<Rightarrow> []
      | Some pos \<Rightarrow> if pos = 0 then ''/'' else take pos path)"

section \<open>Rendering\<close>

lemma SurroundWithFunction_loop_False:
  "SurroundWithFunction_loop sep b False xs = b @ concat (map (\<lambda>x. '' '' @ sep @ '' '' @ x) xs)"
  by (induction xs arbitrary: b) auto

lemma SurroundWithFunction_join:
  "SurroundWithFunction f sep xs = f @ ''('' @ join_with ('' '' @ sep @ '' '') xs @ '')''"
proof -
  have "join_with s (x # ys) = x @ concat (map (\<lambda>y. s @ y) ys)" for s x ys
    by (induction ys arbitrary: x) auto
  then show ?thesis
    by (cases xs) (auto simp: SurroundWithFunction_def SurroundWithFunction_loop_False)
qed

lemma SurroundWithFunction_nonempty [simp]: "SurroundWithFunction f sep xs \<noteq> []"
  by (simp add: SurroundWithFunction_def)

lemma qmarks_SurroundWithFunction:
  "qmarks f = 0 \<Longrightarrow> qmarks (SurroundWithFunction f '','' (replicate n ''?'')) = n"
  by (simp add: SurroundWithFunction_join count_join_with map_replicate_const sum_list_replicate)

section \<open>Splitting\<close>

lemma Split_loop_empty_delim:
  "Split_loop str delim pos res = Some y \<Longrightarrow> delim = [] \<longrightarrow> length str \<le> pos"
proof (rule Split_loop.raw_induct [where P = "\<lambda>str delim pos res y. delim = [] \<longrightarrow> length str \<le> pos"])
  fix f str delim pos res y
  assume IH: "\<And>str delim pos res y. f str delim pos res = Some y \<Longrightarrow> delim = [] \<longrightarrow> length str \<le> pos"
    and body: "(if pos < length str
      then (case str_find_from delim str pos of
              None \<Rightarrow> Some (res @ [drop pos str])
            | Some found \<Rightarrow> f str delim (found + length delim) (res @ [take (found - pos) (drop pos str)]))
      else Some res) = Some (y :: string list)"
  have "str_find [] s = Some 0" for s by (cases s) auto
  then show "delim = [] \<longrightarrow> length str \<le> pos"
    using IH body by (fastforce simp: str_find_from_def split: if_splits)
qed

lemma str_find_first:
  "str_find pat s = Some k \<Longrightarrow> pat \<noteq> [] \<Longrightarrow> str_find pat (take k s) = None"
proof (induction s arbitrary: k)
  case (Cons c cs)
  show ?case
  proof (cases "starts_with pat (c # cs)")
    case False
    with Cons.prems obtain k' where k': "k = Suc k'" "str_find pat cs = Some k'" by auto
    have "\<not> starts_with pat (c # take k' cs)"
      using False append_take_drop_id [of k' cs] unfolding starts_with_iff
      by (metis append_Cons append_assoc)
    with k' Cons show ?thesis by simp
  qed (use Cons.prems in simp)
qed simp

lemma Split_loop_parts:
  assumes "delim \<noteq> []" and "pos \<le> length str"
  shows "\<exists>parts. Split_loop str delim pos res = Some (res @ parts)
     \<and> (join_with delim parts = drop pos str \<or> parts \<noteq> [] \<and> join_with delim parts @ delim = drop pos str)
     \<and> (\<forall>p \<in> set parts. str_find delim p = None)"
  using assms(2)
proof (induction "length str - pos" arbitrary: pos res rule: less_induct)
  case less
  show ?case
  proof (cases "pos < length str")
    case False
    then show ?thesis
      by (intro exI [of _ "[]"]) (simp add: Split_loop.simps)
  next
    case True
    show ?thesis
    proof (cases "str_find delim (drop pos str)")
      case None
      with True show ?thesis
        by (intro exI [of _ "[drop pos str]"]) (simp add: Split_loop.simps str_find_from_def)
    next
      case (Some k)
      let ?p = "take k (drop pos str)" and ?q = "pos + k + length delim"
      have k: "k + length delim \<le> length (drop pos str)"
        "drop pos str = ?p @ delim @ drop (k + length delim) (drop pos str)"
        using str_find_Some [OF Some] by auto
      have D: "drop pos str = ?p @ delim @ drop ?q str"
        using k(2) by (simp only: drop_drop add.commute add.left_commute)
      have q: "?q \<le> length str" "length str - ?q < length str - pos"
        using k(1) True assms(1) by (auto simp flip: length_greater_0_conv)
      obtain parts where parts: "Split_loop str delim ?q (res @ [?p]) = Some ((res @ [?p]) @ parts)"
        "join_with delim parts = drop ?q str \<or> parts \<noteq> [] \<and> join_with delim parts @ delim = drop ?q str"
        "\<forall>p \<in> set parts. str_find delim p = None"
        using less.hyps [OF q(2) q(1)] by blast
      have "Split_loop str delim pos res = Some (res @ ?p # parts)"
        using True Some parts(1) by (subst Split_loop.simps) (simp add: str_find_from_def add.assoc)
      moreover have "join_with delim (?p # parts) = drop pos str
          \<or> join_with delim (?p # parts) @ delim = drop pos str"
        using parts(2) by (subst (2 4) D) (cases parts; auto)
      ultimately show ?thesis
        using parts(3) str_find_first [OF Some assms(1)] by (intro exI [of _ "?p # parts"]) simp
    qed
  qed
qed

section \<open>Properties\<close>

text \<open>
  Splitting at a nonempty delimiter always returns; no part contains the delimiter, and
  joining the parts with it gives the input back, up to one trailing delimiter.
\<close>

lemma Split_parts:
  assumes "delim \<noteq> []"
  shows "\<exists>parts. Split str delim = Some parts
     \<and> (join_with delim parts = str \<or> parts \<noteq> [] \<and> join_with delim parts @ delim = str)
     \<and> list_all (\<lambda>p. str_find delim p = None) parts"
  using Split_loop_parts [OF assms, of 0 str "[]"] by (simp add: Split_def list_all_iff)

text \<open>
  An empty delimiter never advances the position, so the loop of \<open>Split\<close> does not end on
  any nonempty string.
\<close>

lemma Split_empty_delimiter: "Split str [] = None \<longleftrightarrow> str \<noteq> []"
proof (cases "Split_loop str [] 0 []")
  case None
  then show ?thesis by (auto simp: Split_def Split_loop.simps)
next
  case (Some parts)
  with Split_loop_empty_delim [OF Some] show ?thesis by (simp add: Split_def)
qed

text \<open>
  \<open>ExtractFilePath\<close> and \<open>ExtractFileName\<close> cut a full name in two: together they are the
  name, the file name holds no slash and a nonempty path ends in one.
\<close>

lemma Extract_path_name:
  "ExtractFilePath s @ ExtractFileName s = s \<and> CHR ''/'' \<notin> set (ExtractFileName s)
     \<and> (ExtractFilePath s = [] \<or> last (ExtractFilePath s) = CHR ''/'')"
proof (cases "str_find_last_of ''/'' s")
  case None
  have "CHR ''/'' \<notin> set s" using None by (induction s) (auto split: option.splits if_splits)
  with None show ?thesis by (simp add: ExtractFilePath_def ExtractFileName_def after_slash_def)
next
  case (Some k)
  note k = str_find_last_of_Some [OF Some]
  have "CHR ''/'' \<notin> set (drop (Suc k) s)"
    using k by (auto simp: in_set_conv_nth)
  moreover have "last (take (Suc k) s) = s ! k" using k by (simp add: take_Suc_conv_app_nth)
  ultimately show ?thesis
    using Some k by (auto simp: ExtractFilePath_def ExtractFileName_def after_slash_def)
qed

end
