(* ===== verification/Abs_Predicates.thy ===== *)
theory Abs_Predicates
  imports Value_Object String_Utils
begin

text \<open>
  \<open>AbsPredicates\<close> (\<open>abs_predicates.h\<close>, \<open>abs_predicates.cpp\<close>): the builder of a query's
  conditions. The class is the record \<open>abs_predicates\<close>, extended by the derived classes; every
  builder method is a function from the object to the object. A method that returns early
  returns the object unchanged.
\<close>

record abs_predicates =
  whereClause :: string
  bindArgs :: "value_object list"
  ap_order :: string
  ap_group :: string
  ap_index :: string
  havingClause :: string
  ap_limit :: int
  ap_offset :: int
  ap_distinct :: bool
  isNeedAnd :: bool
  isSorted :: bool
  hasSpecificField :: bool

definition INIT_LIMIT_VALUE :: int where "INIT_LIMIT_VALUE = INT_MIN"
definition INIT_OFFSET_VALUE :: int where "INIT_OFFSET_VALUE = INT_MIN"

abbreviation LOG_ORIGIN_FIELD :: string where "LOG_ORIGIN_FIELD \<equiv> ''#_flag''"
abbreviation ORIGIN_FIELD :: string where "ORIGIN_FIELD \<equiv> ''#_origin''"
abbreviation ORIGIN_ORIDEVICE :: string where "ORIGIN_ORIDEVICE \<equiv> ''#_ori_device''"

text \<open>\<open>Initial\<close> resets ten of the twelve members: not \<open>havingClause\<close>, not \<open>hasSpecificField\<close>.\<close>

definition Initial :: "'a abs_predicates_scheme \<Rightarrow> 'a abs_predicates_scheme" where
  "Initial p = p\<lparr>ap_distinct := False, isNeedAnd := False, isSorted := False, bindArgs := [],
     whereClause := [], ap_order := [], ap_group := [], ap_index := [],
     ap_limit := INIT_LIMIT_VALUE, ap_offset := INIT_OFFSET_VALUE\<rparr>"

definition AbsPredicates_new :: abs_predicates where
  "AbsPredicates_new = Initial \<lparr>whereClause = [], bindArgs = [], ap_order = [], ap_group = [],
     ap_index = [], havingClause = [], ap_limit = 0, ap_offset = 0, ap_distinct = False,
     isNeedAnd = False, isSorted = False, hasSpecificField = False\<rparr>"

definition AbsPredicates_Clear :: "'a abs_predicates_scheme \<Rightarrow> 'a abs_predicates_scheme" where
  "AbsPredicates_Clear p = Initial p"

section \<open>Private helpers\<close>

definition CheckParameter :: "string \<Rightarrow> value_object list \<Rightarrow> bool" where
  "CheckParameter field args =
     (if field = [] then False else list_all (\<lambda>arg. get_if_string arg \<noteq> Some []) args)"

definition IsSpecificField :: "string \<Rightarrow> bool" where
  "IsSpecificField field = (str_find ''#_'' field \<noteq> None)"

definition RemoveQuotes :: "string \<Rightarrow> string" where
  "RemoveQuotes source =
     (if source = [] then source
      else removeAll (CHR 0x60) (removeAll (CHR 0x22) (removeAll (CHR 0x27) source)))"

definition CheckIsNeedAnd :: "'a abs_predicates_scheme \<Rightarrow> 'a abs_predicates_scheme" where
  "CheckIsNeedAnd p =
     (if isNeedAnd p then p\<lparr>whereClause := whereClause p @ '' AND ''\<rparr> else p\<lparr>isNeedAnd := True\<rparr>)"

definition add_where :: "string \<Rightarrow> 'a abs_predicates_scheme \<Rightarrow> 'a abs_predicates_scheme" where
  "add_where s p = p\<lparr>whereClause := whereClause p @ s\<rparr>"

definition push_args :: "value_object list \<Rightarrow> 'a abs_predicates_scheme \<Rightarrow> 'a abs_predicates_scheme" where
  "push_args vs p = p\<lparr>bindArgs := bindArgs p @ vs\<rparr>"

text \<open>\<open>hasSpecificField = hasSpecificField || IsSpecificField(field)\<close>.\<close>

definition mark_field :: "string \<Rightarrow> 'a abs_predicates_scheme \<Rightarrow> 'a abs_predicates_scheme" where
  "mark_field field p = p\<lparr>hasSpecificField := hasSpecificField p \<or> IsSpecificField field\<rparr>"

definition AppendWhereClauseWithInOrNotIn ::
  "string \<Rightarrow> string \<Rightarrow> string list \<Rightarrow> 'a abs_predicates_scheme \<Rightarrow> 'a abs_predicates_scheme" where
  "AppendWhereClauseWithInOrNotIn methodName field replaceValues p =
     add_where (field @ SurroundWithFunction methodName '','' replaceValues) p"

section \<open>Conditions\<close>

text \<open>
  \<open>FLAG[static_cast<int>(location)]\<close> behind its range check: \<open>Inl ()\<close> is the early return,
  \<open>Inr None\<close> the undefined conversion of a NaN, which passes both comparisons.
\<close>

definition FLAG :: "string list" where
  "FLAG = [''0x02'', ''0x0'', ''0x0'']"

definition origin_flag :: "f64 \<Rightarrow> unit + string option" where
  "origin_flag location =
     (if f64_less location 0 \<or> f64_less 0x4000000000000000 location then Inl ()
      else Inr (map_option (\<lambda>t. FLAG ! nat t) (f64_to_i64 location)))"

definition EqualTo ::
  "string \<Rightarrow> value_object \<Rightarrow> 'a abs_predicates_scheme \<Rightarrow> 'a abs_predicates_scheme option" where
  "EqualTo field v p =
     (if \<not> CheckParameter field [] then Some p
      else
        (let p1 = mark_field field p
         in if field = ORIGIN_FIELD
            then (case origin_flag (snd (vo_GetDouble v 0)) of
                    Inl _ \<Rightarrow> Some p1
                  | Inr None \<Rightarrow> None
                  | Inr (Some flagVal) \<Rightarrow>
                      Some (add_where (''('' @ LOG_ORIGIN_FIELD @ '' & 0x02 = '' @ flagVal @ '')'')
                        (CheckIsNeedAnd p1)))
            else
              (let p2 = CheckIsNeedAnd p1
               in if field = ORIGIN_ORIDEVICE
                  then (if snd (vo_GetString v []) = []
                        then Some (add_where (''(LENGTH('' @ field @ '') = 0)'') p2)
                        else Some (add_where (''(LENGTH('' @ field @ '') > 0 )'') p2))
                  else Some (push_args [v] (add_where (field @ '' = ? '') p2)))))"

definition NotEqualTo :: "string \<Rightarrow> value_object \<Rightarrow> 'a abs_predicates_scheme \<Rightarrow> 'a abs_predicates_scheme" where
  "NotEqualTo field v p =
     (if \<not> CheckParameter field [] then p
      else
        (let p1 = CheckIsNeedAnd (mark_field field p)
         in if field = ORIGIN_ORIDEVICE
            then (if snd (vo_GetString v []) = []
                  then add_where (''(LENGTH('' @ field @ '') > 0 )'') p1
                  else add_where (''(LENGTH('' @ field @ '') = 0)'') p1)
            else push_args [v] (add_where (field @ '' <> ? '') p1)))"

definition BeginWrap :: "'a abs_predicates_scheme \<Rightarrow> 'a abs_predicates_scheme" where
  "BeginWrap p =
     (let p1 = (if isNeedAnd p then (add_where ''AND '' p)\<lparr>isNeedAnd := False\<rparr> else p)
      in add_where '' ( '' p1)"

definition EndWrap :: "'a abs_predicates_scheme \<Rightarrow> 'a abs_predicates_scheme" where
  "EndWrap p = (if \<not> isNeedAnd p then p else add_where '' ) '' p)"

definition Or_op :: "'a abs_predicates_scheme \<Rightarrow> 'a abs_predicates_scheme" where
  "Or_op p = (if \<not> isNeedAnd p then p else (add_where '' OR '' p)\<lparr>isNeedAnd := False\<rparr>)"

definition And_op :: "'a abs_predicates_scheme \<Rightarrow> 'a abs_predicates_scheme" where
  "And_op p = p"

definition Contains :: "string \<Rightarrow> string \<Rightarrow> 'a abs_predicates_scheme \<Rightarrow> 'a abs_predicates_scheme" where
  "Contains field v p =
     (if \<not> CheckParameter field [VString v] then p
      else push_args [VString (''%'' @ v @ ''%'')] (add_where (field @ '' LIKE ? '') (CheckIsNeedAnd p)))"

definition NotContains :: "string \<Rightarrow> string \<Rightarrow> 'a abs_predicates_scheme \<Rightarrow> 'a abs_predicates_scheme" where
  "NotContains field v p =
     (if \<not> CheckParameter field [VString v] then p
      else push_args [VString (''%'' @ v @ ''%'')] (add_where (field @ '' NOT LIKE ? '') (CheckIsNeedAnd p)))"

definition BeginsWith :: "string \<Rightarrow> string \<Rightarrow> 'a abs_predicates_scheme \<Rightarrow> 'a abs_predicates_scheme" where
  "BeginsWith field v p =
     (if \<not> CheckParameter field [VString v] then p
      else push_args [VString (v @ ''%'')] (add_where (field @ '' LIKE ? '') (CheckIsNeedAnd p)))"

definition EndsWith :: "string \<Rightarrow> string \<Rightarrow> 'a abs_predicates_scheme \<Rightarrow> 'a abs_predicates_scheme" where
  "EndsWith field v p =
     (if \<not> CheckParameter field [VString v] then p
      else push_args [VString (''%'' @ v)] (add_where (field @ '' LIKE ? '') (CheckIsNeedAnd p)))"

definition IsNull :: "string \<Rightarrow> 'a abs_predicates_scheme \<Rightarrow> 'a abs_predicates_scheme" where
  "IsNull field p =
     (if \<not> CheckParameter field [] then p else add_where (field @ '' IS NULL '') (CheckIsNeedAnd p))"

definition IsNotNull :: "string \<Rightarrow> 'a abs_predicates_scheme \<Rightarrow> 'a abs_predicates_scheme" where
  "IsNotNull field p =
     (if \<not> CheckParameter field [] then p else add_where (field @ '' IS NOT NULL '') (CheckIsNeedAnd p))"

definition Like :: "string \<Rightarrow> string \<Rightarrow> 'a abs_predicates_scheme \<Rightarrow> 'a abs_predicates_scheme" where
  "Like field v p =
     (if \<not> CheckParameter field [VString v] then p
      else push_args [VString v] (add_where (field @ '' LIKE ? '') (CheckIsNeedAnd p)))"

definition NotLike :: "string \<Rightarrow> string \<Rightarrow> 'a abs_predicates_scheme \<Rightarrow> 'a abs_predicates_scheme" where
  "NotLike field v p =
     (if \<not> CheckParameter field [VString v] then p
      else push_args [VString v] (add_where (field @ '' NOT LIKE ? '') (CheckIsNeedAnd p)))"

definition Glob :: "string \<Rightarrow> string \<Rightarrow> 'a abs_predicates_scheme \<Rightarrow> 'a abs_predicates_scheme" where
  "Glob field v p =
     (if \<not> CheckParameter field [VString v] then p
      else push_args [VString v] (add_where (field @ '' GLOB ? '') (CheckIsNeedAnd p)))"

definition NotGlob :: "string \<Rightarrow> string \<Rightarrow> 'a abs_predicates_scheme \<Rightarrow> 'a abs_predicates_scheme" where
  "NotGlob field v p =
     (if \<not> CheckParameter field [VString v] then p
      else push_args [VString v] (add_where (field @ '' NOT GLOB ? '') (CheckIsNeedAnd p)))"

definition Between ::
  "string \<Rightarrow> value_object \<Rightarrow> value_object \<Rightarrow> 'a abs_predicates_scheme \<Rightarrow> 'a abs_predicates_scheme" where
  "Between field low high p =
     (if \<not> CheckParameter field [low, high] then p
      else push_args [low, high]
        (add_where (field @ '' BETWEEN ? AND ? '') (CheckIsNeedAnd (mark_field field p))))"

definition NotBetween ::
  "string \<Rightarrow> value_object \<Rightarrow> value_object \<Rightarrow> 'a abs_predicates_scheme \<Rightarrow> 'a abs_predicates_scheme" where
  "NotBetween field low high p =
     (if \<not> CheckParameter field [low, high] then p
      else push_args [low, high]
        (add_where (field @ '' NOT BETWEEN ? AND ? '') (CheckIsNeedAnd (mark_field field p))))"

definition GreaterThan :: "string \<Rightarrow> value_object \<Rightarrow> 'a abs_predicates_scheme \<Rightarrow> 'a abs_predicates_scheme" where
  "GreaterThan field v p =
     (if \<not> CheckParameter field [v] then p
      else push_args [v] (add_where (field @ '' > ? '') (CheckIsNeedAnd (mark_field field p))))"

definition LessThan :: "string \<Rightarrow> value_object \<Rightarrow> 'a abs_predicates_scheme \<Rightarrow> 'a abs_predicates_scheme" where
  "LessThan field v p =
     (if \<not> CheckParameter field [v] then p
      else push_args [v] (add_where (field @ '' < ? '') (CheckIsNeedAnd (mark_field field p))))"

definition GreaterThanOrEqualTo ::
  "string \<Rightarrow> value_object \<Rightarrow> 'a abs_predicates_scheme \<Rightarrow> 'a abs_predicates_scheme" where
  "GreaterThanOrEqualTo field v p =
     (if \<not> CheckParameter field [v] then p
      else push_args [v] (add_where (field @ '' >= ? '') (CheckIsNeedAnd (mark_field field p))))"

definition LessThanOrEqualTo ::
  "string \<Rightarrow> value_object \<Rightarrow> 'a abs_predicates_scheme \<Rightarrow> 'a abs_predicates_scheme" where
  "LessThanOrEqualTo field v p =
     (if \<not> CheckParameter field [v] then p
      else push_args [v] (add_where (field @ '' <= ? '') (CheckIsNeedAnd (mark_field field p))))"

section \<open>Ordering, grouping, limits\<close>

definition OrderByAsc :: "string \<Rightarrow> 'a abs_predicates_scheme \<Rightarrow> 'a abs_predicates_scheme" where
  "OrderByAsc field p =
     (if \<not> CheckParameter field [] then p
      else
        (let p1 = mark_field field p;
             p2 = (if isSorted p1 then p1\<lparr>ap_order := ap_order p1 @ '',''\<rparr> else p1)
         in p2\<lparr>ap_order := ap_order p2 @ field @ '' ASC '', isSorted := True\<rparr>))"

definition OrderByDesc :: "string \<Rightarrow> 'a abs_predicates_scheme \<Rightarrow> 'a abs_predicates_scheme" where
  "OrderByDesc field p =
     (if \<not> CheckParameter field [] then p
      else
        (let p1 = mark_field field p;
             p2 = (if isSorted p1 then p1\<lparr>ap_order := ap_order p1 @ '',''\<rparr> else p1)
         in p2\<lparr>ap_order := ap_order p2 @ field @ '' DESC '', isSorted := True\<rparr>))"

definition Distinct :: "'a abs_predicates_scheme \<Rightarrow> 'a abs_predicates_scheme" where
  "Distinct p = p\<lparr>ap_distinct := True\<rparr>"

definition Limit :: "int \<Rightarrow> 'a abs_predicates_scheme \<Rightarrow> 'a abs_predicates_scheme" where
  "Limit limit p = p\<lparr>ap_limit := if limit \<le> 0 then - 1 else limit\<rparr>"

definition Offset :: "int \<Rightarrow> 'a abs_predicates_scheme \<Rightarrow> 'a abs_predicates_scheme" where
  "Offset offset p = p\<lparr>ap_offset := if offset < 0 then - 1 else offset\<rparr>"

definition Limit2 :: "int \<Rightarrow> int \<Rightarrow> 'a abs_predicates_scheme \<Rightarrow> 'a abs_predicates_scheme" where
  "Limit2 offset limit p = Offset offset (Limit limit p)"

text \<open>
  The loop of \<open>GroupBy\<close>: \<open>Inl\<close> is the early return on an empty field, which keeps what the
  loop has appended so far.
\<close>

fun GroupBy_loop :: "string list \<Rightarrow> string \<Rightarrow> string + string" where
  "GroupBy_loop [] grp = Inr grp"
| "GroupBy_loop (field # flds) grp =
     (if \<not> CheckParameter field [] then Inl grp else GroupBy_loop flds (grp @ field @ '',''))"

definition str_erase1 :: "nat \<Rightarrow> string \<Rightarrow> string" where
  "str_erase1 pos s = take pos s @ drop (pos + 1) s"

definition GroupBy :: "string list \<Rightarrow> 'a abs_predicates_scheme \<Rightarrow> 'a abs_predicates_scheme" where
  "GroupBy flds p =
     (if flds = [] then p
      else (case GroupBy_loop flds (ap_group p) of
              Inl grp \<Rightarrow> p\<lparr>ap_group := grp\<rparr>
            | Inr grp \<Rightarrow> p\<lparr>ap_group :=
                (case str_find_last_of '','' grp of None \<Rightarrow> grp | Some pos \<Rightarrow> str_erase1 pos grp)\<rparr>))"

definition IndexedBy :: "string \<Rightarrow> 'a abs_predicates_scheme \<Rightarrow> 'a abs_predicates_scheme" where
  "IndexedBy indexName p =
     (if \<not> CheckParameter indexName [] then p else p\<lparr>ap_index := RemoveQuotes indexName\<rparr>)"

text \<open>
  The overloads of \<open>In\<close> and \<open>NotIn\<close> on strings call the virtual overload on value objects,
  which a derived class may override: it is their first argument.
\<close>

definition In_strings ::
  "(string \<Rightarrow> value_object list \<Rightarrow> 'p \<Rightarrow> 'p) \<Rightarrow> string \<Rightarrow> string list \<Rightarrow> 'p \<Rightarrow> 'p" where
  "In_strings virtual_In field vs p = virtual_In field (map VString vs) p"

definition In_values ::
  "string \<Rightarrow> value_object list \<Rightarrow> 'a abs_predicates_scheme \<Rightarrow> 'a abs_predicates_scheme" where
  "In_values field vs p =
     (if \<not> CheckParameter field [] then p
      else AppendWhereClauseWithInOrNotIn '' IN '' field (replicate (length vs) ''?'')
        (push_args vs (CheckIsNeedAnd p)))"

definition NotIn_strings ::
  "(string \<Rightarrow> value_object list \<Rightarrow> 'p \<Rightarrow> 'p) \<Rightarrow> string \<Rightarrow> string list \<Rightarrow> 'p \<Rightarrow> 'p" where
  "NotIn_strings virtual_NotIn field vs p = virtual_NotIn field (map VString vs) p"

definition NotIn_values ::
  "string \<Rightarrow> value_object list \<Rightarrow> 'a abs_predicates_scheme \<Rightarrow> 'a abs_predicates_scheme" where
  "NotIn_values field vs p =
     (if \<not> CheckParameter field [] then p
      else AppendWhereClauseWithInOrNotIn '' NOT IN '' field (replicate (length vs) ''?'')
        (push_args vs (CheckIsNeedAnd p)))"

definition Having ::
  "string \<Rightarrow> value_object list \<Rightarrow> 'a abs_predicates_scheme \<Rightarrow> 'a abs_predicates_scheme" where
  "Having conditions vs p =
     (if \<not> CheckParameter conditions [] then p
      else push_args vs (p\<lparr>havingClause := conditions\<rparr>))"

section \<open>Setters and getters\<close>

definition SetWhereClause :: "string \<Rightarrow> 'a abs_predicates_scheme \<Rightarrow> 'a abs_predicates_scheme" where
  "SetWhereClause clause p = (if clause = [] then p else p\<lparr>whereClause := clause\<rparr>)"

definition GetWhereArgs :: "'a abs_predicates_scheme \<Rightarrow> string list" where
  "GetWhereArgs p = map (\<lambda>arg. snd (vo_GetString arg [])) (bindArgs p)"

definition SetWhereArgs :: "string list \<Rightarrow> 'a abs_predicates_scheme \<Rightarrow> 'a abs_predicates_scheme" where
  "SetWhereArgs whereArgs p = p\<lparr>bindArgs := map VString whereArgs\<rparr>"

definition SetBindArgs :: "value_object list \<Rightarrow> 'a abs_predicates_scheme \<Rightarrow> 'a abs_predicates_scheme" where
  "SetBindArgs args p = p\<lparr>bindArgs := args\<rparr>"

definition SetOrder :: "string \<Rightarrow> 'a abs_predicates_scheme \<Rightarrow> 'a abs_predicates_scheme" where
  "SetOrder ord p = (if ord = [] then p else p\<lparr>ap_order := ord\<rparr>)"

section \<open>A builder call as data\<close>

datatype (plugins only: code size) ap_call =
    C_EqualTo string value_object
  | C_NotEqualTo string value_object
  | C_BeginWrap
  | C_EndWrap
  | C_Or
  | C_And
  | C_Contains string string
  | C_NotContains string string
  | C_BeginsWith string string
  | C_EndsWith string string
  | C_IsNull string
  | C_IsNotNull string
  | C_Like string string
  | C_NotLike string string
  | C_Glob string string
  | C_NotGlob string string
  | C_Between string value_object value_object
  | C_NotBetween string value_object value_object
  | C_GreaterThan string value_object
  | C_LessThan string value_object
  | C_GreaterThanOrEqualTo string value_object
  | C_LessThanOrEqualTo string value_object
  | C_OrderByAsc string
  | C_OrderByDesc string
  | C_Distinct
  | C_Limit int
  | C_Offset int
  | C_Limit2 int int
  | C_GroupBy "string list"
  | C_IndexedBy string
  | C_In string "value_object list"
  | C_In_strings string "string list"
  | C_NotIn string "value_object list"
  | C_NotIn_strings string "string list"

primrec ap_exec :: "ap_call \<Rightarrow> 'a abs_predicates_scheme \<Rightarrow> 'a abs_predicates_scheme option" where
  "ap_exec (C_EqualTo f v) p = EqualTo f v p"
| "ap_exec (C_NotEqualTo f v) p = Some (NotEqualTo f v p)"
| "ap_exec C_BeginWrap p = Some (BeginWrap p)"
| "ap_exec C_EndWrap p = Some (EndWrap p)"
| "ap_exec C_Or p = Some (Or_op p)"
| "ap_exec C_And p = Some (And_op p)"
| "ap_exec (C_Contains f v) p = Some (Contains f v p)"
| "ap_exec (C_NotContains f v) p = Some (NotContains f v p)"
| "ap_exec (C_BeginsWith f v) p = Some (BeginsWith f v p)"
| "ap_exec (C_EndsWith f v) p = Some (EndsWith f v p)"
| "ap_exec (C_IsNull f) p = Some (IsNull f p)"
| "ap_exec (C_IsNotNull f) p = Some (IsNotNull f p)"
| "ap_exec (C_Like f v) p = Some (Like f v p)"
| "ap_exec (C_NotLike f v) p = Some (NotLike f v p)"
| "ap_exec (C_Glob f v) p = Some (Glob f v p)"
| "ap_exec (C_NotGlob f v) p = Some (NotGlob f v p)"
| "ap_exec (C_Between f l h) p = Some (Between f l h p)"
| "ap_exec (C_NotBetween f l h) p = Some (NotBetween f l h p)"
| "ap_exec (C_GreaterThan f v) p = Some (GreaterThan f v p)"
| "ap_exec (C_LessThan f v) p = Some (LessThan f v p)"
| "ap_exec (C_GreaterThanOrEqualTo f v) p = Some (GreaterThanOrEqualTo f v p)"
| "ap_exec (C_LessThanOrEqualTo f v) p = Some (LessThanOrEqualTo f v p)"
| "ap_exec (C_OrderByAsc f) p = Some (OrderByAsc f p)"
| "ap_exec (C_OrderByDesc f) p = Some (OrderByDesc f p)"
| "ap_exec C_Distinct p = Some (Distinct p)"
| "ap_exec (C_Limit n) p = Some (Limit n p)"
| "ap_exec (C_Offset n) p = Some (Offset n p)"
| "ap_exec (C_Limit2 m n) p = Some (Limit2 m n p)"
| "ap_exec (C_GroupBy fs) p = Some (GroupBy fs p)"
| "ap_exec (C_IndexedBy i) p = Some (IndexedBy i p)"
| "ap_exec (C_In f vs) p = Some (In_values f vs p)"
| "ap_exec (C_In_strings f vs) p = Some (In_strings In_values f vs p)"
| "ap_exec (C_NotIn f vs) p = Some (NotIn_values f vs p)"
| "ap_exec (C_NotIn_strings f vs) p = Some (NotIn_strings NotIn_values f vs p)"

primrec ap_run :: "ap_call list \<Rightarrow> 'a abs_predicates_scheme \<Rightarrow> 'a abs_predicates_scheme option" where
  "ap_run [] p = Some p"
| "ap_run (c # cs) p = (case ap_exec c p of None \<Rightarrow> None | Some q \<Rightarrow> ap_run cs q)"

section \<open>The where clause as a token sequence\<close>

text \<open>
  What the where clause is meant to be: a boolean expression over conditions, with the
  parameters of every condition beside it. \<open>TAnd\<close> carries which of the two spellings of the
  connective the code used.
\<close>

datatype token = TCond string "value_object list" | TAnd bool | TOr | TOpen | TClose

primrec tok_text :: "token \<Rightarrow> string" where
  "tok_text (TCond s vs) = s"
| "tok_text (TAnd b) = (if b then '' AND '' else ''AND '')"
| "tok_text TOr = '' OR ''"
| "tok_text TOpen = '' ( ''"
| "tok_text TClose = '' ) ''"

primrec tok_args :: "token \<Rightarrow> value_object list" where
  "tok_args (TCond s vs) = vs"
| "tok_args (TAnd b) = []"
| "tok_args TOr = []"
| "tok_args TOpen = []"
| "tok_args TClose = []"

primrec tok_matched :: "token \<Rightarrow> bool" where
  "tok_matched (TCond s vs) = (s \<noteq> [] \<and> qmarks s = length vs)"
| "tok_matched (TAnd b) = True"
| "tok_matched TOr = True"
| "tok_matched TOpen = True"
| "tok_matched TClose = True"

inductive sql_expr :: "token list \<Rightarrow> bool" where
  cond: "sql_expr [TCond s vs]"
| wrap: "sql_expr e \<Longrightarrow> sql_expr (TOpen # e @ [TClose])"
| conj: "sql_expr e \<Longrightarrow> sql_expr f \<Longrightarrow> sql_expr (e @ TAnd b # f)"
| disj: "sql_expr e \<Longrightarrow> sql_expr f \<Longrightarrow> sql_expr (e @ TOr # f)"

text \<open>
  A clause under construction: \<open>open_expr need d ts\<close> has \<open>d\<close> parentheses open, and \<open>need\<close>
  says whether it ends in an operand.
\<close>

inductive open_expr :: "bool \<Rightarrow> nat \<Rightarrow> token list \<Rightarrow> bool" where
  start: "open_expr False 0 []"
| operand: "open_expr False d ts \<Longrightarrow> sql_expr e \<Longrightarrow> open_expr True d (ts @ e)"
| conn_and: "open_expr True d ts \<Longrightarrow> open_expr False d (ts @ [TAnd b])"
| conn_or: "open_expr True d ts \<Longrightarrow> open_expr False d (ts @ [TOr])"
| paren: "open_expr False d ts \<Longrightarrow> open_expr False (Suc d) (ts @ [TOpen])"

definition pending :: "bool \<Rightarrow> token list \<Rightarrow> bool" where
  "pending need pre =
     (if need then sql_expr pre
      else pre = [] \<or> (\<exists>e c. sql_expr e \<and> pre = e @ [c] \<and> (c = TOr \<or> (\<exists>b. c = TAnd b))))"

lemma pending_operand: "pending False pre \<Longrightarrow> sql_expr e \<Longrightarrow> pending True (pre @ e)"
  by (auto simp: pending_def intro: sql_expr.conj sql_expr.disj)

lemma pending_conn:
  "pending True pre \<Longrightarrow> pending False (pre @ [TAnd b])" "pending True pre \<Longrightarrow> pending False (pre @ [TOr])"
  by (auto simp: pending_def)

lemma decompose_extend:
  assumes "\<exists>ts0 pre. ts = ts0 @ TOpen # pre \<and> open_expr False d ts0 \<and> pending n pre"
    and "\<And>pre. pending n pre \<Longrightarrow> pending n' (pre @ e)"
  shows "\<exists>ts0 pre. ts @ e = ts0 @ TOpen # pre \<and> open_expr False d ts0 \<and> pending n' pre"
  using assms by (metis append_assoc append_Cons)

lemma open_expr_decompose:
  "open_expr need d ts \<Longrightarrow>
     case d of 0 \<Rightarrow> pending need ts
     | Suc d' \<Rightarrow> \<exists>ts0 pre. ts = ts0 @ TOpen # pre \<and> open_expr False d' ts0 \<and> pending need pre"
proof (induction rule: open_expr.induct)
  case start
  then show ?case by (simp add: pending_def)
next
  case (operand d ts e)
  then show ?case by (cases d) (auto intro: pending_operand decompose_extend)
next
  case (conn_and d ts b)
  then show ?case by (cases d) (auto intro: pending_conn decompose_extend)
next
  case (conn_or d ts)
  then show ?case by (cases d) (auto intro: pending_conn decompose_extend)
next
  case (paren d ts)
  then have "ts @ [TOpen] = ts @ TOpen # [] \<and> open_expr False d ts \<and> pending False []"
    by (simp add: pending_def)
  then show ?case by (simp only: nat.case) blast
qed

lemma open_expr_close:
  assumes "open_expr True (Suc d) ts"
  shows "open_expr True d (ts @ [TClose])"
proof -
  obtain ts0 pre where "ts = ts0 @ TOpen # pre" "open_expr False d ts0" "sql_expr pre"
    using open_expr_decompose [OF assms] by (auto simp: pending_def)
  then show ?thesis
    using open_expr.operand [OF _ sql_expr.wrap] by simp
qed

lemma open_expr_done: "open_expr True 0 ts \<Longrightarrow> sql_expr ts"
  using open_expr_decompose [of True 0 ts] by (simp add: pending_def)

section \<open>What a call does to the where clause\<close>

primrec call_field :: "ap_call \<Rightarrow> string" where
  "call_field (C_EqualTo f v) = f"
| "call_field (C_NotEqualTo f v) = f"
| "call_field C_BeginWrap = []"
| "call_field C_EndWrap = []"
| "call_field C_Or = []"
| "call_field C_And = []"
| "call_field (C_Contains f v) = f"
| "call_field (C_NotContains f v) = f"
| "call_field (C_BeginsWith f v) = f"
| "call_field (C_EndsWith f v) = f"
| "call_field (C_IsNull f) = f"
| "call_field (C_IsNotNull f) = f"
| "call_field (C_Like f v) = f"
| "call_field (C_NotLike f v) = f"
| "call_field (C_Glob f v) = f"
| "call_field (C_NotGlob f v) = f"
| "call_field (C_Between f l h) = f"
| "call_field (C_NotBetween f l h) = f"
| "call_field (C_GreaterThan f v) = f"
| "call_field (C_LessThan f v) = f"
| "call_field (C_GreaterThanOrEqualTo f v) = f"
| "call_field (C_LessThanOrEqualTo f v) = f"
| "call_field (C_OrderByAsc f) = []"
| "call_field (C_OrderByDesc f) = []"
| "call_field C_Distinct = []"
| "call_field (C_Limit n) = []"
| "call_field (C_Offset n) = []"
| "call_field (C_Limit2 m n) = []"
| "call_field (C_GroupBy fs) = []"
| "call_field (C_IndexedBy i) = []"
| "call_field (C_In f vs) = f"
| "call_field (C_In_strings f vs) = f"
| "call_field (C_NotIn f vs) = f"
| "call_field (C_NotIn_strings f vs) = f"

definition same_where :: "'a abs_predicates_scheme \<Rightarrow> 'a abs_predicates_scheme \<Rightarrow> bool" where
  "same_where p q \<longleftrightarrow>
     whereClause q = whereClause p \<and> bindArgs q = bindArgs p \<and> isNeedAnd q = isNeedAnd p"

definition cond_added ::
  "string \<Rightarrow> value_object list \<Rightarrow> 'a abs_predicates_scheme \<Rightarrow> 'a abs_predicates_scheme \<Rightarrow> bool" where
  "cond_added txt args p q \<longleftrightarrow>
     whereClause q = whereClause p @ (if isNeedAnd p then '' AND '' else []) @ txt \<and>
     bindArgs q = bindArgs p @ args \<and> isNeedAnd q"

lemmas builder_defs = EqualTo_def NotEqualTo_def Contains_def NotContains_def BeginsWith_def
  EndsWith_def IsNull_def IsNotNull_def Like_def NotLike_def Glob_def NotGlob_def Between_def
  NotBetween_def GreaterThan_def LessThan_def GreaterThanOrEqualTo_def LessThanOrEqualTo_def
  OrderByAsc_def OrderByDesc_def Distinct_def Limit_def Offset_def Limit2_def GroupBy_def
  IndexedBy_def In_strings_def NotIn_strings_def And_op_def

lemmas builder_steps = CheckIsNeedAnd_def add_where_def push_args_def mark_field_def
  AppendWhereClauseWithInOrNotIn_def same_where_def cond_added_def

lemma step_selectors [simp]:
  "whereClause (push_args vs p) = whereClause p" "bindArgs (push_args vs p) = bindArgs p @ vs"
  "isNeedAnd (push_args vs p) = isNeedAnd p"
  "whereClause (add_where s p) = whereClause p @ s" "bindArgs (add_where s p) = bindArgs p"
  "isNeedAnd (add_where s p) = isNeedAnd p"
  "whereClause (CheckIsNeedAnd p) = whereClause p @ (if isNeedAnd p then '' AND '' else [])"
  "bindArgs (CheckIsNeedAnd p) = bindArgs p" "isNeedAnd (CheckIsNeedAnd p)"
  "whereClause (mark_field f p) = whereClause p" "bindArgs (mark_field f p) = bindArgs p"
  "isNeedAnd (mark_field f p) = isNeedAnd p"
  by (simp_all add: push_args_def add_where_def CheckIsNeedAnd_def mark_field_def)

lemma step_order_frames [simp]:
  "ap_order (push_args vs p) = ap_order p" "isSorted (push_args vs p) = isSorted p"
  "ap_order (add_where s p) = ap_order p" "isSorted (add_where s p) = isSorted p"
  "ap_order (CheckIsNeedAnd p) = ap_order p" "isSorted (CheckIsNeedAnd p) = isSorted p"
  "ap_order (mark_field f p) = ap_order p" "isSorted (mark_field f p) = isSorted p"
  by (simp_all add: push_args_def add_where_def CheckIsNeedAnd_def mark_field_def)

text \<open>The shapes a condition takes in the code, with and without parameters.\<close>

definition where_effect :: "'a abs_predicates_scheme \<Rightarrow> 'a abs_predicates_scheme \<Rightarrow> bool" where
  "where_effect p q \<longleftrightarrow>
     same_where p q \<or> (\<exists>txt args. txt \<noteq> [] \<and> qmarks txt = length args \<and> cond_added txt args p q)"

lemma where_effect_frame [simp]:
  "whereClause q = whereClause p \<Longrightarrow> bindArgs q = bindArgs p \<Longrightarrow> isNeedAnd q = isNeedAnd p \<Longrightarrow> where_effect p q"
  by (simp add: where_effect_def same_where_def)

lemma where_effect_mark [simp]: "where_effect p (mark_field f p)"
  by simp

lemma where_effect_refl [simp]: "where_effect p p"
  by (simp add: where_effect_def same_where_def)

lemma where_effect_cond:
  assumes "txt \<noteq> []" "qmarks txt = length args" "cond_added txt args p q"
  shows "where_effect p q"
  using assms by (auto simp: where_effect_def)

lemma where_effect_steps [simp]:
  assumes "txt \<noteq> []" "qmarks txt = length args"
  shows "where_effect p (push_args args (add_where txt (CheckIsNeedAnd p)))"
    "where_effect p (push_args args (add_where txt (CheckIsNeedAnd (mark_field f p))))"
    "where_effect p (add_where txt (push_args args (CheckIsNeedAnd p)))"
  by (rule where_effect_cond [OF assms]; simp add: cond_added_def)+

lemma where_effect_plain [simp]:
  assumes "txt \<noteq> []" "qmarks txt = 0"
  shows "where_effect p (add_where txt (CheckIsNeedAnd p))"
    "where_effect p (add_where txt (CheckIsNeedAnd (mark_field f p)))"
  using assms by (auto intro!: where_effect_cond [where args = "[]"] simp: cond_added_def)

lemma fp_trunc_le_two:
  assumes "0 \<le> v" "v \<le> 2 ^ 1075"
  shows "0 \<le> fp_trunc 1074 v \<and> fp_trunc 1074 v \<le> 2"
proof -
  have "v div 2 ^ 1074 \<le> 2 ^ 1075 div (2 ^ 1074 :: int)"
    by (rule zdiv_mono1 [OF assms(2)]) simp
  moreover have "(2 ^ 1075 div 2 ^ 1074 :: int) = 2" by simp
  moreover have "0 \<le> v div 2 ^ 1074" using assms(1) by (simp add: pos_imp_zdiv_nonneg_iff)
  moreover have "fp_trunc 1074 v = v div 2 ^ 1074"
    using assms(1) by (cases "v = 0") (simp_all add: fp_trunc_def)
  ultimately show ?thesis by linarith
qed

lemma origin_location_cast:
  assumes "\<not> f64_less d 0" and "\<not> f64_less 0x4000000000000000 d" and "\<not> f64_is_nan d"
  shows "\<exists>t. f64_to_i64 d = Some t \<and> 0 \<le> t \<and> t \<le> 2"
proof (cases "f64_decode d")
  case FNaN
  with assms(3) show ?thesis by (simp add: f64_is_nan_def)
next
  case (FInf s)
  with assms(1,2) show ?thesis
    by (cases s) (simp_all add: f64_less_def f64_decode_zero f64_decode_two)
next
  case (FFin v)
  with assms(1,2) have "0 \<le> v" "v \<le> 2 ^ 1075"
    by (simp_all only: f64_less_def f64_decode_zero f64_decode_two fp_less.simps not_less)
  from fp_trunc_le_two [OF this] FFin show ?thesis
    by (auto simp: f64_to_i64_def Let_def)
qed

lemma origin_flag_cases:
  "origin_flag d = Inl () \<or> (origin_flag d = Inr None \<and> f64_is_nan d)
     \<or> origin_flag d = Inr (Some ''0x02'') \<or> origin_flag d = Inr (Some ''0x0'')"
proof (cases "f64_less d 0 \<or> f64_less 0x4000000000000000 d")
  case True
  then show ?thesis by (simp add: origin_flag_def)
next
  case False
  show ?thesis
  proof (cases "f64_is_nan d")
    case True
    then show ?thesis
      using False by (simp add: origin_flag_def f64_is_nan_def f64_to_i64_def)
  next
    case nan: False
    then obtain t where t: "f64_to_i64 d = Some t" "0 \<le> t" "t \<le> 2"
      using origin_location_cast False by blast
    then have "t = 0 \<or> t = 1 \<or> t = 2" by arith
    then show ?thesis
      using False t(1) by (auto simp: origin_flag_def FLAG_def)
  qed
qed

lemma EqualTo_where:
  assumes "EqualTo f v p = Some q" "qmarks f = 0"
  shows "where_effect p q"
proof (cases "f = ORIGIN_FIELD \<and> CheckParameter f []")
  case True
  then show ?thesis
    using assms origin_flag_cases [of "snd (vo_GetDouble v 0)"]
    by (auto simp: EqualTo_def Let_def)
next
  case False
  then show ?thesis
    using assms by (auto simp: EqualTo_def Let_def split: if_splits)
qed

lemma ap_exec_where:
  assumes "ap_exec c p = Some q" "qmarks (call_field c) = 0"
    and "c \<noteq> C_BeginWrap" "c \<noteq> C_EndWrap" "c \<noteq> C_Or"
  shows "where_effect p q"
proof (cases c)
  case (C_EqualTo f v)
  with assms show ?thesis by (auto dest: EqualTo_where)
next
  case (C_NotEqualTo f v)
  with assms show ?thesis by (auto simp: NotEqualTo_def Let_def)
next
  case (C_OrderByAsc f)
  with assms show ?thesis by (auto simp: OrderByAsc_def Let_def)
next
  case (C_OrderByDesc f)
  with assms show ?thesis by (auto simp: OrderByDesc_def Let_def)
next
  case (C_GroupBy fs)
  with assms show ?thesis by (auto simp: GroupBy_def split: sum.split)
qed (use assms in \<open>auto simp: builder_defs In_values_def NotIn_values_def AppendWhereClauseWithInOrNotIn_def
   qmarks_SurroundWithFunction\<close>)

lemma wrap_effects:
  "whereClause (BeginWrap p) = whereClause p @ (if isNeedAnd p then ''AND '' else []) @ '' ( ''"
  "bindArgs (BeginWrap p) = bindArgs p" "\<not> isNeedAnd (BeginWrap p)"
  "isNeedAnd p \<Longrightarrow> whereClause (EndWrap p) = whereClause p @ '' ) ''"
  "\<not> isNeedAnd p \<Longrightarrow> EndWrap p = p"
  "bindArgs (EndWrap p) = bindArgs p" "isNeedAnd (EndWrap p) = isNeedAnd p"
  "isNeedAnd p \<Longrightarrow> whereClause (Or_op p) = whereClause p @ '' OR ''"
  "\<not> isNeedAnd p \<Longrightarrow> Or_op p = p"
  "bindArgs (Or_op p) = bindArgs p" "\<not> isNeedAnd (Or_op p)"
  by (simp_all add: BeginWrap_def EndWrap_def Or_op_def add_where_def Let_def)

text \<open>
  The nesting depth of the wraps along a run: an \<open>EndWrap\<close> counts when the code accepts it.
  \<open>None\<close>: a parenthesis is closed that is not open.
\<close>

primrec wrap_depth :: "ap_call list \<Rightarrow> 'a abs_predicates_scheme \<Rightarrow> nat \<Rightarrow> nat option" where
  "wrap_depth [] p d = Some d"
| "wrap_depth (c # cs) p d =
     (case ap_exec c p of
        None \<Rightarrow> None
      | Some q \<Rightarrow>
          if c = C_BeginWrap then wrap_depth cs q (Suc d)
          else if c = C_EndWrap \<and> isNeedAnd p
          then (if d = 0 then None else wrap_depth cs q (d - 1))
          else wrap_depth cs q d)"

definition represents :: "token list \<Rightarrow> 'a abs_predicates_scheme \<Rightarrow> bool" where
  "represents ts p \<longleftrightarrow>
     concat (map tok_text ts) = whereClause p \<and> concat (map tok_args ts) = bindArgs p \<and>
     list_all tok_matched ts"

lemma represents_cond:
  assumes "represents ts p" "cond_added txt args p q" "txt \<noteq> []" "qmarks txt = length args"
    and "open_expr (isNeedAnd p) d ts"
  shows "\<exists>ts'. represents ts' q \<and> open_expr (isNeedAnd q) d ts'"
proof -
  define pre where "pre = (if isNeedAnd p then ts @ [TAnd True] else ts)"
  have "open_expr False d pre"
    unfolding pre_def using assms(5) by (auto intro!: open_expr.conn_and)
  then have "open_expr True d (pre @ [TCond txt args])"
    by (rule open_expr.operand [OF _ sql_expr.cond])
  moreover have "represents (pre @ [TCond txt args]) q"
    using assms(1-4) by (auto simp: represents_def cond_added_def pre_def)
  moreover have "isNeedAnd q" using assms(2) by (simp add: cond_added_def)
  ultimately show ?thesis by auto
qed

lemma represents_same: "represents ts p \<Longrightarrow> same_where p q \<Longrightarrow> represents ts q"
  by (simp add: represents_def same_where_def)

lemma represents_begin:
  assumes "represents ts p" "open_expr (isNeedAnd p) d ts"
  shows "\<exists>ts'. represents ts' (BeginWrap p) \<and> open_expr (isNeedAnd (BeginWrap p)) (Suc d) ts'"
proof (cases "isNeedAnd p")
  case True
  have "open_expr False (Suc d) ((ts @ [TAnd False]) @ [TOpen])"
    using assms(2) True by (intro open_expr.paren open_expr.conn_and) simp
  moreover have "represents ((ts @ [TAnd False]) @ [TOpen]) (BeginWrap p)"
    using assms(1) True by (simp add: represents_def wrap_effects)
  ultimately show ?thesis using wrap_effects(3) by metis
next
  case False
  have "open_expr False (Suc d) (ts @ [TOpen])"
    using assms(2) False by (auto intro: open_expr.paren)
  moreover have "represents (ts @ [TOpen]) (BeginWrap p)"
    using assms(1) False by (simp add: represents_def wrap_effects)
  ultimately show ?thesis using wrap_effects(3) by metis
qed

lemma ap_exec_represents:
  assumes rep: "represents ts p" "open_expr (isNeedAnd p) d ts"
    and ex: "ap_exec c p = Some q" "qmarks (call_field c) = 0"
    and depth: "d' = (if c = C_BeginWrap then Suc d
       else if c = C_EndWrap \<and> isNeedAnd p then d - 1 else d)"
    and close: "c = C_EndWrap \<and> isNeedAnd p \<longrightarrow> d \<noteq> 0"
  shows "\<exists>ts'. represents ts' q \<and> open_expr (isNeedAnd q) d' ts'"
proof -
  consider "c = C_BeginWrap" | "c = C_EndWrap" "isNeedAnd p" | "c = C_Or" "isNeedAnd p"
    | "c = C_EndWrap \<or> c = C_Or" "\<not> isNeedAnd p"
    | "c \<noteq> C_BeginWrap" "c \<noteq> C_EndWrap" "c \<noteq> C_Or" by blast
  then show ?thesis
  proof cases
    case 1
    then show ?thesis using represents_begin [OF rep] ex depth by auto
  next
    case 2
    then obtain d0 where "d = Suc d0" "d' = d0" using close depth by (cases d) auto
    moreover have "represents (ts @ [TClose]) q"
      using 2 rep(1) ex by (auto simp: represents_def wrap_effects)
    ultimately show ?thesis
      using 2 rep(2) ex open_expr_close [of d0 ts] by (auto simp: wrap_effects)
  next
    case 3
    then have "open_expr False d (ts @ [TOr])" using rep(2) open_expr.conn_or [of d ts] by simp
    moreover have "represents (ts @ [TOr]) q"
      using 3 rep(1) ex by (auto simp: represents_def wrap_effects)
    ultimately show ?thesis using 3 ex depth by (auto simp: wrap_effects)
  next
    case 4
    then have "q = p" "d' = d" using ex depth by (auto simp: wrap_effects)
    then show ?thesis using rep by blast
  next
    case 5
    then have d': "d' = d" using depth by simp
    from ap_exec_where [OF ex 5] show ?thesis
      unfolding where_effect_def
    proof (elim disjE exE conjE)
      assume "same_where p q"
      then show ?thesis using rep represents_same d' by (auto simp: same_where_def)
    qed (use represents_cond rep d' in blast)
  qed
qed

lemma ap_run_represents:
  assumes "represents ts p" "open_expr (isNeedAnd p) d ts"
    and "list_all (\<lambda>c. qmarks (call_field c) = 0) cs"
    and "ap_run cs p = Some q" "wrap_depth cs p d = Some e"
  shows "\<exists>ts'. represents ts' q \<and> open_expr (isNeedAnd q) e ts'"
  using assms
proof (induction cs arbitrary: ts p d)
  case Nil
  then show ?case by auto
next
  case (Cons c cs)
  from Cons.prems(4) obtain r where r: "ap_exec c p = Some r" "ap_run cs r = Some q"
    by (auto split: option.splits)
  define d' where "d' = (if c = C_BeginWrap then Suc d
    else if c = C_EndWrap \<and> isNeedAnd p then d - 1 else d)"
  have close: "c = C_EndWrap \<and> isNeedAnd p \<longrightarrow> d \<noteq> 0" and wd: "wrap_depth cs r d' = Some e"
    using Cons.prems(5) r(1) by (auto simp: d'_def split: if_splits)
  from Cons.prems(3) have "qmarks (call_field c) = 0" by simp
  from ap_exec_represents [OF Cons.prems(1,2) r(1) this d'_def close]
  obtain ts1 where "represents ts1 r" "open_expr (isNeedAnd r) d' ts1" by blast
  from Cons.IH [OF this _ r(2) wd] Cons.prems(3) show ?case by simp
qed

lemma AbsPredicates_new_represents: "represents [] AbsPredicates_new"
  "open_expr (isNeedAnd AbsPredicates_new) 0 []"
  by (simp_all add: represents_def AbsPredicates_new_def Initial_def open_expr.start)

lemma ap_exec_balance:
  assumes "ap_exec c p = Some q" "qmarks (call_field c) = 0"
  shows "qmarks (whereClause q) + length (bindArgs p) = qmarks (whereClause p) + length (bindArgs q)"
proof (cases "c = C_BeginWrap \<or> c = C_EndWrap \<or> c = C_Or")
  case True
  then show ?thesis
    using assms by (auto simp: BeginWrap_def EndWrap_def Or_op_def add_where_def Let_def)
next
  case False
  then show ?thesis
    using ap_exec_where [OF assms] by (auto simp: where_effect_def same_where_def cond_added_def)
qed

lemma ap_run_balance:
  "ap_run cs p = Some q \<Longrightarrow> list_all (\<lambda>c. qmarks (call_field c) = 0) cs \<Longrightarrow>
     qmarks (whereClause q) + length (bindArgs p) = qmarks (whereClause p) + length (bindArgs q)"
proof (induction cs arbitrary: p)
  case (Cons c cs)
  from Cons.prems(1) obtain r where r: "ap_exec c p = Some r" "ap_run cs r = Some q"
    by (auto split: option.splits)
  with ap_exec_balance [OF r(1)] Cons.IH [OF r(2)] Cons.prems(2) show ?case by simp
qed simp

text \<open>The items of the order clause that a call contributes.\<close>

fun order_item :: "ap_call \<Rightarrow> string list" where
  "order_item (C_OrderByAsc f) = (if f = [] then [] else [f @ '' ASC ''])"
| "order_item (C_OrderByDesc f) = (if f = [] then [] else [f @ '' DESC ''])"
| "order_item _ = []"

definition order_is :: "string list \<Rightarrow> 'a abs_predicates_scheme \<Rightarrow> bool" where
  "order_is its p \<longleftrightarrow> ap_order p = join_with '','' its \<and> isSorted p = (its \<noteq> [])"

lemma op_order_frames [simp]:
  "ap_order (NotEqualTo f v p) = ap_order p" "isSorted (NotEqualTo f v p) = isSorted p"
  "ap_order (BeginWrap p) = ap_order p" "isSorted (BeginWrap p) = isSorted p"
  "ap_order (EndWrap p) = ap_order p" "isSorted (EndWrap p) = isSorted p"
  "ap_order (Or_op p) = ap_order p" "isSorted (Or_op p) = isSorted p"
  "ap_order (And_op p) = ap_order p" "isSorted (And_op p) = isSorted p"
  "ap_order (Contains f s p) = ap_order p" "isSorted (Contains f s p) = isSorted p"
  "ap_order (NotContains f s p) = ap_order p" "isSorted (NotContains f s p) = isSorted p"
  "ap_order (BeginsWith f s p) = ap_order p" "isSorted (BeginsWith f s p) = isSorted p"
  "ap_order (EndsWith f s p) = ap_order p" "isSorted (EndsWith f s p) = isSorted p"
  "ap_order (IsNull f p) = ap_order p" "isSorted (IsNull f p) = isSorted p"
  "ap_order (IsNotNull f p) = ap_order p" "isSorted (IsNotNull f p) = isSorted p"
  "ap_order (Like f s p) = ap_order p" "isSorted (Like f s p) = isSorted p"
  "ap_order (NotLike f s p) = ap_order p" "isSorted (NotLike f s p) = isSorted p"
  "ap_order (Glob f s p) = ap_order p" "isSorted (Glob f s p) = isSorted p"
  "ap_order (NotGlob f s p) = ap_order p" "isSorted (NotGlob f s p) = isSorted p"
  "ap_order (Between f l h p) = ap_order p" "isSorted (Between f l h p) = isSorted p"
  "ap_order (NotBetween f l h p) = ap_order p" "isSorted (NotBetween f l h p) = isSorted p"
  "ap_order (GreaterThan f v p) = ap_order p" "isSorted (GreaterThan f v p) = isSorted p"
  "ap_order (LessThan f v p) = ap_order p" "isSorted (LessThan f v p) = isSorted p"
  "ap_order (GreaterThanOrEqualTo f v p) = ap_order p" "isSorted (GreaterThanOrEqualTo f v p) = isSorted p"
  "ap_order (LessThanOrEqualTo f v p) = ap_order p" "isSorted (LessThanOrEqualTo f v p) = isSorted p"
  "ap_order (Distinct p) = ap_order p" "isSorted (Distinct p) = isSorted p"
  "ap_order (Limit n p) = ap_order p" "isSorted (Limit n p) = isSorted p"
  "ap_order (Offset n p) = ap_order p" "isSorted (Offset n p) = isSorted p"
  "ap_order (Limit2 m n p) = ap_order p" "isSorted (Limit2 m n p) = isSorted p"
  "ap_order (GroupBy fs p) = ap_order p" "isSorted (GroupBy fs p) = isSorted p"
  "ap_order (IndexedBy f p) = ap_order p" "isSorted (IndexedBy f p) = isSorted p"
  "ap_order (In_values f vs p) = ap_order p" "isSorted (In_values f vs p) = isSorted p"
  "ap_order (NotIn_values f vs p) = ap_order p" "isSorted (NotIn_values f vs p) = isSorted p"
  by (simp_all add: builder_defs Let_def In_values_def NotIn_values_def
    AppendWhereClauseWithInOrNotIn_def BeginWrap_def EndWrap_def Or_op_def split: sum.split)

lemma EqualTo_order_frame:
  "EqualTo f v p = Some q \<Longrightarrow> ap_order q = ap_order p \<and> isSorted q = isSorted p"
  by (auto simp: EqualTo_def Let_def split: if_splits sum.splits option.splits)

lemma ap_exec_order_frame:
  assumes "ap_exec c p = Some q" "\<And>f. c \<noteq> C_OrderByAsc f" "\<And>f. c \<noteq> C_OrderByDesc f"
  shows "ap_order q = ap_order p \<and> isSorted q = isSorted p"
  using assms by (cases c) (auto simp: In_strings_def NotIn_strings_def dest: EqualTo_order_frame)

lemma OrderBy_effect:
  "OrderByAsc [] p = p" "OrderByDesc [] p = p"
  "f \<noteq> [] \<Longrightarrow> order_is its p \<Longrightarrow> order_is (its @ [f @ '' ASC '']) (OrderByAsc f p)"
  "f \<noteq> [] \<Longrightarrow> order_is its p \<Longrightarrow> order_is (its @ [f @ '' DESC '']) (OrderByDesc f p)"
  by (simp_all add: order_is_def OrderByAsc_def OrderByDesc_def CheckParameter_def Let_def join_with_snoc)

lemma ap_exec_order:
  assumes "ap_exec c p = Some q" "order_is its p"
  shows "order_is (its @ order_item c) q"
proof (cases "(\<exists>f. c = C_OrderByAsc f) \<or> (\<exists>f. c = C_OrderByDesc f)")
  case True
  then show ?thesis
    using assms by (auto simp: OrderBy_effect)
next
  case False
  then have "order_item c = []" by (cases c) simp_all
  with False show ?thesis
    using ap_exec_order_frame [OF assms(1)] assms(2) by (simp add: order_is_def)
qed

lemma ap_run_order:
  "ap_run cs p = Some q \<Longrightarrow> order_is its p \<Longrightarrow> order_is (its @ concat (map order_item cs)) q"
proof (induction cs arbitrary: p its)
  case (Cons c cs)
  from Cons.prems(1) obtain r where r: "ap_exec c p = Some r" "ap_run cs r = Some q"
    by (auto split: option.splits)
  from Cons.IH [OF r(2) ap_exec_order [OF r(1) Cons.prems(2)]] show ?case by simp
qed simp

lemma GroupBy_loop_all:
  "list_all (\<lambda>f. f \<noteq> []) fs \<Longrightarrow> GroupBy_loop fs g = Inr (g @ concat (map (\<lambda>f. f @ '','') fs))"
  by (induction fs arbitrary: g) (auto simp: CheckParameter_def)

lemma concat_comma_join: "fs \<noteq> [] \<Longrightarrow> concat (map (\<lambda>f. f @ sep) fs) = join_with sep fs @ sep"
  by (induction sep fs rule: join_with.induct) auto

lemma find_last_of_snoc: "str_find_last_of [c] (s @ [c]) = Some (length s)"
  by (induction s) auto

lemma GroupBy_appends:
  assumes "fs \<noteq> []" "list_all (\<lambda>f. f \<noteq> []) fs"
  shows "ap_group (GroupBy fs p) = ap_group p @ join_with '','' fs"
  using assms find_last_of_snoc [of "CHR '',''" "ap_group p @ join_with '','' fs"]
  by (simp add: GroupBy_def GroupBy_loop_all concat_comma_join str_erase1_def)

section \<open>Properties\<close>



text \<open>
  The number of placeholders of the where clause is the number of bound parameters, after
  any sequence of builder calls, balanced or not, with field names free of \<open>?\<close>.
\<close>

lemma bind_args_match_placeholders:
  assumes "list_all (\<lambda>c. qmarks (call_field c) = 0) cs" and "ap_run cs AbsPredicates_new = Some p"
  shows "qmarks (whereClause p) = length (bindArgs p)"
  using ap_run_balance [OF assms(2,1)] by (simp add: AbsPredicates_new_def Initial_def)

text \<open>
  The order clause of any sequence of builder calls is the comma-separated list of its
  accepted \<open>OrderByAsc\<close> and \<open>OrderByDesc\<close> items, the first call first.
\<close>

lemma order_clause_items:
  assumes "ap_run cs AbsPredicates_new = Some p"
  shows "ap_order p = join_with '','' (concat (map order_item cs))
     \<and> isSorted p = (concat (map order_item cs) \<noteq> [])"
  using ap_run_order [OF assms, of "[]"]
  by (simp add: order_is_def AbsPredicates_new_def Initial_def)

text \<open>
  \<open>EqualTo\<close> is defined on every input except a NaN compared with the origin field, where
  both range checks pass and the conversion that indexes \<open>FLAG\<close> is undefined.
\<close>

lemma EqualTo_undefined_iff:
  "EqualTo f v p = None \<longleftrightarrow> f = ORIGIN_FIELD \<and> (\<exists>d. v = VDouble d \<and> f64_is_nan d)"
proof (cases "f = ORIGIN_FIELD")
  case True
  show ?thesis
  proof (cases v)
    case (VDouble d)
    then show ?thesis
      using True origin_flag_cases [of d]
      by (auto simp: EqualTo_def CheckParameter_def Let_def vo_GetDouble_def vo_Get_def
        origin_flag_def f64_is_nan_def f64_less_def f64_to_i64_def)
  qed (use True in \<open>simp_all add: EqualTo_def CheckParameter_def Let_def vo_GetDouble_def vo_Get_def
      origin_flag_def f64_less_def f64_decode_zero f64_decode_two f64_to_i64_def fp_trunc_def\<close>)
qed (simp add: EqualTo_def Let_def)

text \<open>
  \<open>GroupBy\<close> appends its columns, separated by commas, to the group clause; nothing
  separates them from the columns of an earlier call, so two calls give the columns of the
  first directly followed by those of the second.
\<close>

lemma GroupBy_twice:
  assumes "fs \<noteq> []" "list_all (\<lambda>f. f \<noteq> []) fs" and "gs \<noteq> []" "list_all (\<lambda>f. f \<noteq> []) gs"
  shows "ap_group (GroupBy gs (GroupBy fs AbsPredicates_new)) = join_with '','' fs @ join_with '','' gs"
  using assms by (simp add: GroupBy_appends AbsPredicates_new_def Initial_def)

text \<open>
  \<open>Clear\<close> brings a predicates object back to the state of a new one exactly when it has no
  having clause and no reserved field was named: these two members survive.
\<close>

lemma Clear_resets_iff:
  "AbsPredicates_Clear p = AbsPredicates_new \<longleftrightarrow> havingClause p = [] \<and> \<not> hasSpecificField p"
  by (cases p) (simp add: AbsPredicates_Clear_def AbsPredicates_new_def Initial_def)

end
