(* ===== verification/Rdb_Predicates.thy ===== *)
theory Rdb_Predicates
  imports Abs_Predicates
begin

text \<open>
  \<open>AbsRdbPredicates\<close> and \<open>RdbPredicates\<close> (\<open>abs_rdb_predicates.cpp\<close>, \<open>rdb_predicates.cpp\<close>): the
  predicates of a table. Each builder method first records the operation in a memo that is sent
  to other devices (\<open>PredicatesMemo\<close> of \<open>rdb_types.h\<close>) and then calls the method of the base
  class; \<open>RdbPredicates\<close> adds joins.

  The record extends the one of the base class, so the base class methods apply to it. A
  \<open>DInt None\<close> in the memo is the unspecified result of converting a double out of range.
\<close>

section \<open>\<open>PredicatesMemo\<close>\<close>

datatype (plugins only: code size) RdbPredicateOperator =
    EQUAL_TO | NOT_EQUAL_TO | AND_OPERATOR | OR_OPERATOR | ORDER_BY | LIMIT | BEGIN_GROUP | END_GROUP
  | IN_OPERATOR | NOT_IN | CONTAIN | BEGIN_WITH | END_WITH | IS_NULL | IS_NOT_NULL | LIKE | GLOB
  | BETWEEN | NOT_BETWEEN | GREATER_THAN | GREATER_THAN_OR_EQUAL | LESS_THAN | LESS_THAN_OR_EQUAL
  | DISTINCT | INDEXED_BY | NOT_CONTAINS | NOT_LIKE | ASSETS_ONLY | NOT_GLOB | OPERATOR_MAX

datatype DataValue = DInt "int option" | DStr string

record RdbPredicateOperation =
  operator :: RdbPredicateOperator
  op_field :: string
  op_values :: "DataValue list"

record PredicatesMemo =
  memo_tables :: "string list"
  memo_devices :: "string list"
  memo_operations :: "RdbPredicateOperation list"

definition AddOperation ::
  "RdbPredicateOperator \<Rightarrow> string \<Rightarrow> DataValue list \<Rightarrow> PredicatesMemo \<Rightarrow> PredicatesMemo" where
  "AddOperation opr field vs memo =
     memo\<lparr>memo_operations := memo_operations memo @ [\<lparr>operator = opr, op_field = field, op_values = vs\<rparr>]\<rparr>"

section \<open>\<open>AbsRdbPredicates\<close>\<close>

record abs_rdb_predicates = abs_predicates +
  joinTypes :: "string list"
  joinTableNames :: "string list"
  joinConditions :: "string list"
  joinCount :: int
  tableName :: string
  predicates_memo :: PredicatesMemo

definition add_op ::
  "RdbPredicateOperator \<Rightarrow> string \<Rightarrow> DataValue list \<Rightarrow> abs_rdb_predicates \<Rightarrow> abs_rdb_predicates" where
  "add_op opr field vs p = p\<lparr>predicates_memo := AddOperation opr field vs (predicates_memo p)\<rparr>"

definition InitialParam :: "abs_rdb_predicates \<Rightarrow> abs_rdb_predicates" where
  "InitialParam p = p\<lparr>joinTypes := [], joinTableNames := [], joinConditions := [], joinCount := 0\<rparr>"

text \<open>A new object of the class: the base part, empty joins, an empty memo.\<close>

definition new_rdb :: abs_rdb_predicates where
  "new_rdb = abs_predicates.extend AbsPredicates_new
     (abs_rdb_predicates.fields [] [] [] 0 [] \<lparr>memo_tables = [], memo_devices = [], memo_operations = []\<rparr>)"

definition AbsRdbPredicates_table :: "string \<Rightarrow> abs_rdb_predicates" where
  "AbsRdbPredicates_table tbl =
     (if tbl = [] then new_rdb\<lparr>tableName := []\<rparr>
      else new_rdb\<lparr>tableName := tbl,
        predicates_memo := (predicates_memo new_rdb)\<lparr>memo_tables := [tbl]\<rparr>\<rparr>)"

definition AbsRdbPredicates_tables :: "string list \<Rightarrow> abs_rdb_predicates" where
  "AbsRdbPredicates_tables tables =
     (case tables of
        [] \<Rightarrow> new_rdb\<lparr>tableName := []\<rparr>
      | tbl # _ \<Rightarrow> new_rdb\<lparr>tableName := tbl,
          predicates_memo := (predicates_memo new_rdb)\<lparr>memo_tables := tables\<rparr>\<rparr>)"

definition AbsRdbPredicates_Clear :: "abs_rdb_predicates \<Rightarrow> abs_rdb_predicates" where
  "AbsRdbPredicates_Clear p = InitialParam (AbsPredicates_Clear p)"

definition SetJoinTypes :: "string list \<Rightarrow> abs_rdb_predicates \<Rightarrow> abs_rdb_predicates" where
  "SetJoinTypes ts p = p\<lparr>joinTypes := ts\<rparr>"
definition SetJoinTableNames :: "string list \<Rightarrow> abs_rdb_predicates \<Rightarrow> abs_rdb_predicates" where
  "SetJoinTableNames ts p = p\<lparr>joinTableNames := ts\<rparr>"
definition SetJoinConditions :: "string list \<Rightarrow> abs_rdb_predicates \<Rightarrow> abs_rdb_predicates" where
  "SetJoinConditions cs p = p\<lparr>joinConditions := cs\<rparr>"
definition SetJoinCount :: "int \<Rightarrow> abs_rdb_predicates \<Rightarrow> abs_rdb_predicates" where
  "SetJoinCount n p = p\<lparr>joinCount := n\<rparr>"

text \<open>
  The four comparisons record a double, truncated to \<open>int64_t\<close>, or an integer, and nothing for
  any other alternative.
\<close>

definition memo_number ::
  "RdbPredicateOperator \<Rightarrow> string \<Rightarrow> value_object \<Rightarrow> abs_rdb_predicates \<Rightarrow> abs_rdb_predicates" where
  "memo_number opr field v p =
     (case get_if_double v of
        Some d \<Rightarrow> add_op opr field [DInt (f64_to_i64 d)] p
      | None \<Rightarrow> (case get_if_int v of
                   Some i \<Rightarrow> add_op opr field [DInt (Some i)] p
                 | None \<Rightarrow> p))"

definition Rdb_GreaterThan :: "string \<Rightarrow> value_object \<Rightarrow> abs_rdb_predicates \<Rightarrow> abs_rdb_predicates" where
  "Rdb_GreaterThan field v p = GreaterThan field v (memo_number GREATER_THAN field v p)"
definition Rdb_LessThan :: "string \<Rightarrow> value_object \<Rightarrow> abs_rdb_predicates \<Rightarrow> abs_rdb_predicates" where
  "Rdb_LessThan field v p = LessThan field v (memo_number LESS_THAN field v p)"
definition Rdb_LessThanOrEqualTo :: "string \<Rightarrow> value_object \<Rightarrow> abs_rdb_predicates \<Rightarrow> abs_rdb_predicates" where
  "Rdb_LessThanOrEqualTo field v p = LessThanOrEqualTo field v (memo_number LESS_THAN_OR_EQUAL field v p)"
definition Rdb_GreaterThanOrEqualTo :: "string \<Rightarrow> value_object \<Rightarrow> abs_rdb_predicates \<Rightarrow> abs_rdb_predicates" where
  "Rdb_GreaterThanOrEqualTo field v p =
     GreaterThanOrEqualTo field v (memo_number GREATER_THAN_OR_EQUAL field v p)"

definition ToString :: "abs_rdb_predicates \<Rightarrow> string" where
  "ToString p =
     (let args = concat (map (\<lambda>item. item @ '', '') (GetWhereArgs p))
      in ''TableName = '' @ tableName p @ '', {WhereClause:'' @ whereClause p @ '', bindArgs:{'' @ args @ ''}''
         @ '', order:'' @ ap_order p @ '', group:'' @ ap_group p @ '', index:'' @ ap_index p
         @ '', limit:'' @ to_string_int (ap_limit p) @ '', offset:'' @ to_string_int (ap_offset p)
         @ '', distinct:'' @ to_string_bool (ap_distinct p) @ '', isNeedAnd:'' @ to_string_bool (isNeedAnd p)
         @ '', isSorted:'' @ to_string_bool (isSorted p) @ ''}'')"

definition InDevices :: "string list \<Rightarrow> abs_rdb_predicates \<Rightarrow> abs_rdb_predicates" where
  "InDevices devices p = p\<lparr>predicates_memo := (predicates_memo p)\<lparr>memo_devices := devices\<rparr>\<rparr>"

definition InAllDevices :: "abs_rdb_predicates \<Rightarrow> abs_rdb_predicates" where
  "InAllDevices p = p\<lparr>predicates_memo := (predicates_memo p)\<lparr>memo_devices := []\<rparr>\<rparr>"

text \<open>\<open>GetDistributedPredicates\<close> is \<open>const\<close> but changes the mutable memo.\<close>

definition GetDistributedPredicates :: "abs_rdb_predicates \<Rightarrow> PredicatesMemo \<times> abs_rdb_predicates" where
  "GetDistributedPredicates p =
     (let limit = ap_limit p;
          q = (if limit \<ge> 0
               then add_op LIMIT (to_string_int limit) [DStr (to_string_int (ap_offset p))] p else p)
      in (predicates_memo q, q))"

definition Rdb_EqualTo ::
  "string \<Rightarrow> value_object \<Rightarrow> abs_rdb_predicates \<Rightarrow> abs_rdb_predicates option" where
  "Rdb_EqualTo field v p =
     EqualTo field v
       (case v of
          VString s \<Rightarrow> add_op EQUAL_TO field [DStr s] p
        | VDouble d \<Rightarrow> add_op EQUAL_TO field [DInt (f64_to_i64 d)] p
        | VInt i \<Rightarrow> add_op EQUAL_TO field [DInt (Some i)] p
        | VAsset a \<Rightarrow> add_op ASSETS_ONLY field [DStr (asset_name a)] p
        | VAssets as \<Rightarrow> add_op ASSETS_ONLY field (map (\<lambda>a. DStr (asset_name a)) as) p
        | _ \<Rightarrow> p)"

definition Rdb_NotEqualTo :: "string \<Rightarrow> value_object \<Rightarrow> abs_rdb_predicates \<Rightarrow> abs_rdb_predicates" where
  "Rdb_NotEqualTo field v p =
     NotEqualTo field v
       (case v of
          VString s \<Rightarrow> add_op NOT_EQUAL_TO field [DStr s] p
        | VDouble d \<Rightarrow> add_op NOT_EQUAL_TO field [DInt (f64_to_i64 d)] p
        | VInt i \<Rightarrow> add_op NOT_EQUAL_TO field [DInt (Some i)] p
        | _ \<Rightarrow> p)"

definition Rdb_And :: "abs_rdb_predicates \<Rightarrow> abs_rdb_predicates" where
  "Rdb_And p = And_op (add_op AND_OPERATOR [] [DStr []] p)"
definition Rdb_Or :: "abs_rdb_predicates \<Rightarrow> abs_rdb_predicates" where
  "Rdb_Or p = Or_op (add_op OR_OPERATOR [] [DStr []] p)"
definition Rdb_OrderByAsc :: "string \<Rightarrow> abs_rdb_predicates \<Rightarrow> abs_rdb_predicates" where
  "Rdb_OrderByAsc field p = OrderByAsc field (add_op ORDER_BY field [DStr ''true''] p)"
definition Rdb_OrderByDesc :: "string \<Rightarrow> abs_rdb_predicates \<Rightarrow> abs_rdb_predicates" where
  "Rdb_OrderByDesc field p = OrderByDesc field (add_op ORDER_BY field [DStr ''false''] p)"
definition Rdb_BeginWrap :: "abs_rdb_predicates \<Rightarrow> abs_rdb_predicates" where
  "Rdb_BeginWrap p = BeginWrap (add_op BEGIN_GROUP [] [DStr []] p)"
definition Rdb_EndWrap :: "abs_rdb_predicates \<Rightarrow> abs_rdb_predicates" where
  "Rdb_EndWrap p = EndWrap (add_op END_GROUP [] [DStr []] p)"

text \<open>
  The loop of \<open>In\<close> and \<open>NotIn\<close>: strings and integers are collected apart; \<open>None\<close> is the early
  return on a value of another type.
\<close>

fun In_collect ::
  "value_object list \<Rightarrow> string list \<Rightarrow> int option list \<Rightarrow> bool \<Rightarrow> (string list \<times> int option list \<times> bool) option" where
  "In_collect [] vals_string vals_int isString = Some (vals_string, vals_int, isString)"
| "In_collect (v # vs) vals_string vals_int isString =
     (case get_if_string v of
        Some s \<Rightarrow> In_collect vs (vals_string @ [s]) vals_int True
      | None \<Rightarrow> (case get_if_double v of
          Some d \<Rightarrow> In_collect vs vals_string (vals_int @ [f64_to_i64 d]) isString
        | None \<Rightarrow> (case get_if_int v of
            Some i \<Rightarrow> In_collect vs vals_string (vals_int @ [Some i]) isString
          | None \<Rightarrow> None)))"

definition Rdb_In_values ::
  "string \<Rightarrow> value_object list \<Rightarrow> abs_rdb_predicates \<Rightarrow> abs_rdb_predicates" where
  "Rdb_In_values field vs p =
     (case In_collect vs [] [] False of
        None \<Rightarrow> In_values field vs p
      | Some (vals_string, vals_int, isString) \<Rightarrow>
          In_values field vs
            (if isString then add_op IN_OPERATOR field (map DStr vals_string) p
             else add_op IN_OPERATOR field (map DInt vals_int) p))"

definition Rdb_In_strings :: "string \<Rightarrow> string list \<Rightarrow> abs_rdb_predicates \<Rightarrow> abs_rdb_predicates" where
  "Rdb_In_strings field vs p =
     In_strings Rdb_In_values field vs (add_op IN_OPERATOR field (map DStr vs) p)"

definition Rdb_Contains :: "string \<Rightarrow> string \<Rightarrow> abs_rdb_predicates \<Rightarrow> abs_rdb_predicates" where
  "Rdb_Contains field v p = Contains field v (add_op CONTAIN field [DStr v] p)"
definition Rdb_NotContains :: "string \<Rightarrow> string \<Rightarrow> abs_rdb_predicates \<Rightarrow> abs_rdb_predicates" where
  "Rdb_NotContains field v p = NotContains field v (add_op NOT_CONTAINS field [DStr v] p)"
definition Rdb_BeginsWith :: "string \<Rightarrow> string \<Rightarrow> abs_rdb_predicates \<Rightarrow> abs_rdb_predicates" where
  "Rdb_BeginsWith field v p = BeginsWith field v (add_op BEGIN_WITH field [DStr v] p)"
definition Rdb_EndsWith :: "string \<Rightarrow> string \<Rightarrow> abs_rdb_predicates \<Rightarrow> abs_rdb_predicates" where
  "Rdb_EndsWith field v p = EndsWith field v (add_op END_WITH field [DStr v] p)"
definition Rdb_IsNull :: "string \<Rightarrow> abs_rdb_predicates \<Rightarrow> abs_rdb_predicates" where
  "Rdb_IsNull field p = IsNull field (add_op IS_NULL field [DStr []] p)"
definition Rdb_IsNotNull :: "string \<Rightarrow> abs_rdb_predicates \<Rightarrow> abs_rdb_predicates" where
  "Rdb_IsNotNull field p = IsNotNull field (add_op IS_NOT_NULL field [DStr []] p)"
definition Rdb_Like :: "string \<Rightarrow> string \<Rightarrow> abs_rdb_predicates \<Rightarrow> abs_rdb_predicates" where
  "Rdb_Like field v p = Like field v (add_op LIKE field [DStr v] p)"
definition Rdb_NotLike :: "string \<Rightarrow> string \<Rightarrow> abs_rdb_predicates \<Rightarrow> abs_rdb_predicates" where
  "Rdb_NotLike field v p = NotLike field v (add_op NOT_LIKE field [DStr v] p)"
definition Rdb_Glob :: "string \<Rightarrow> string \<Rightarrow> abs_rdb_predicates \<Rightarrow> abs_rdb_predicates" where
  "Rdb_Glob field v p = Glob field v (add_op GLOB field [DStr v] p)"
definition Rdb_NotGlob :: "string \<Rightarrow> string \<Rightarrow> abs_rdb_predicates \<Rightarrow> abs_rdb_predicates" where
  "Rdb_NotGlob field v p = NotGlob field v (add_op NOT_GLOB field [DStr v] p)"
definition Rdb_Distinct :: "abs_rdb_predicates \<Rightarrow> abs_rdb_predicates" where
  "Rdb_Distinct p = Distinct (add_op DISTINCT [] [DStr []] p)"
definition Rdb_IndexedBy :: "string \<Rightarrow> abs_rdb_predicates \<Rightarrow> abs_rdb_predicates" where
  "Rdb_IndexedBy indexName p = IndexedBy indexName (add_op INDEXED_BY indexName [DStr []] p)"

text \<open>\<open>NotIn\<close> on values collects like \<open>In\<close> but records nothing.\<close>

definition Rdb_NotIn_values ::
  "string \<Rightarrow> value_object list \<Rightarrow> abs_rdb_predicates \<Rightarrow> abs_rdb_predicates" where
  "Rdb_NotIn_values field vs p =
     (case In_collect vs [] [] False of
        None \<Rightarrow> NotIn_values field vs p
      | Some _ \<Rightarrow> NotIn_values field vs p)"

definition Rdb_NotIn_strings :: "string \<Rightarrow> string list \<Rightarrow> abs_rdb_predicates \<Rightarrow> abs_rdb_predicates" where
  "Rdb_NotIn_strings field vs p =
     NotIn_strings Rdb_NotIn_values field vs (add_op NOT_IN field (map DStr vs) p)"

section \<open>\<open>RdbPredicates\<close>: joins\<close>

datatype JoinType = INNER | LEFT | CROSS

primrec GetGrammar :: "JoinType \<Rightarrow> string" where
  "GetGrammar INNER = ''INNER JOIN''"
| "GetGrammar LEFT = ''LEFT OUTER JOIN''"
| "GetGrammar CROSS = ''CROSS JOIN''"

definition RdbPredicates_new :: "string \<Rightarrow> abs_rdb_predicates" where
  "RdbPredicates_new tbl = InitialParam (AbsRdbPredicates_table tbl)"

definition Join :: "JoinType \<Rightarrow> string \<Rightarrow> abs_rdb_predicates \<Rightarrow> abs_rdb_predicates" where
  "Join join tbl p =
     (if tbl = [] then p
      else p\<lparr>joinTypes := joinTypes p @ [GetGrammar join], joinTableNames := joinTableNames p @ [tbl],
        joinCount := joinCount p + 1\<rparr>)"

definition CrossJoin :: "string \<Rightarrow> abs_rdb_predicates \<Rightarrow> abs_rdb_predicates" where
  "CrossJoin tbl p = Join CROSS tbl p"
definition InnerJoin :: "string \<Rightarrow> abs_rdb_predicates \<Rightarrow> abs_rdb_predicates" where
  "InnerJoin tbl p = Join INNER tbl p"
definition LeftOuterJoin :: "string \<Rightarrow> abs_rdb_predicates \<Rightarrow> abs_rdb_predicates" where
  "LeftOuterJoin tbl p = Join LEFT tbl p"

text \<open>The loop \<open>while (joinCount > 1)\<close> shared by \<open>Using\<close> and \<open>On\<close>.\<close>

function pad_conditions :: "int \<Rightarrow> string list \<Rightarrow> int \<times> string list" where
  "pad_conditions count conds =
     (if count > 1 then pad_conditions (count - 1) (conds @ [[]]) else (count, conds))"
  by auto
termination by (relation "measure (\<lambda>(count, conds). nat count)") auto

declare pad_conditions.simps [simp del]

definition add_condition :: "string \<Rightarrow> abs_rdb_predicates \<Rightarrow> abs_rdb_predicates" where
  "add_condition cond p =
     (let (count, conds) = pad_conditions (joinCount p) (joinConditions p)
      in p\<lparr>joinCount := count - 1, joinConditions := conds @ [cond]\<rparr>)"

definition Using :: "string list \<Rightarrow> abs_rdb_predicates \<Rightarrow> abs_rdb_predicates" where
  "Using flds p =
     (if flds = [] then p
      else if joinCount p \<le> 0 then p
      else add_condition (SurroundWithFunction ''USING'' '','' flds) p)"

definition On_clauses :: "string list \<Rightarrow> abs_rdb_predicates \<Rightarrow> abs_rdb_predicates" where
  "On_clauses clauses p =
     (if clauses = [] then p
      else if joinCount p \<le> 0 then p
      else add_condition (SurroundWithFunction ''ON'' ''AND'' clauses) p)"

text \<open>\<open>None\<close> is an index out of the range of one of the three vectors.\<close>

definition vec_at :: "'a list \<Rightarrow> nat \<Rightarrow> 'a option" where
  "vec_at xs i = (if i < length xs then Some (xs ! i) else None)"

fun ProcessJoins_loop :: "nat \<Rightarrow> nat \<Rightarrow> string \<Rightarrow> abs_rdb_predicates \<Rightarrow> string option" where
  "ProcessJoins_loop 0 i builder p = Some builder"
| "ProcessJoins_loop (Suc m) i builder p =
     (case (vec_at (joinTypes p) i, vec_at (joinTableNames p) i, vec_at (joinConditions p) i) of
        (Some jt, Some jn, Some jc) \<Rightarrow>
          (let b1 = (if i \<noteq> 0 then builder @ '' '' else builder);
               b2 = b1 @ jt @ '' '' @ jn;
               b3 = (if jc \<noteq> [] then b2 @ '' '' @ jc else b2)
           in ProcessJoins_loop m (Suc i) b3 p)
      | _ \<Rightarrow> None)"

definition ProcessJoins :: "abs_rdb_predicates \<Rightarrow> string option" where
  "ProcessJoins p = ProcessJoins_loop (length (joinTableNames p)) 0 [] p"

definition GetJoinClause :: "abs_rdb_predicates \<Rightarrow> string option" where
  "GetJoinClause p = (if joinTableNames p = [] then Some [] else ProcessJoins p)"

section \<open>Builder calls on the derived class\<close>

primrec rdb_exec :: "ap_call \<Rightarrow> abs_rdb_predicates \<Rightarrow> abs_rdb_predicates option" where
  "rdb_exec (C_EqualTo f v) p = Rdb_EqualTo f v p"
| "rdb_exec (C_NotEqualTo f v) p = Some (Rdb_NotEqualTo f v p)"
| "rdb_exec C_BeginWrap p = Some (Rdb_BeginWrap p)"
| "rdb_exec C_EndWrap p = Some (Rdb_EndWrap p)"
| "rdb_exec C_Or p = Some (Rdb_Or p)"
| "rdb_exec C_And p = Some (Rdb_And p)"
| "rdb_exec (C_Contains f v) p = Some (Rdb_Contains f v p)"
| "rdb_exec (C_NotContains f v) p = Some (Rdb_NotContains f v p)"
| "rdb_exec (C_BeginsWith f v) p = Some (Rdb_BeginsWith f v p)"
| "rdb_exec (C_EndsWith f v) p = Some (Rdb_EndsWith f v p)"
| "rdb_exec (C_IsNull f) p = Some (Rdb_IsNull f p)"
| "rdb_exec (C_IsNotNull f) p = Some (Rdb_IsNotNull f p)"
| "rdb_exec (C_Like f v) p = Some (Rdb_Like f v p)"
| "rdb_exec (C_NotLike f v) p = Some (Rdb_NotLike f v p)"
| "rdb_exec (C_Glob f v) p = Some (Rdb_Glob f v p)"
| "rdb_exec (C_NotGlob f v) p = Some (Rdb_NotGlob f v p)"
| "rdb_exec (C_Between f l h) p = Some (Between f l h p)"
| "rdb_exec (C_NotBetween f l h) p = Some (NotBetween f l h p)"
| "rdb_exec (C_GreaterThan f v) p = Some (Rdb_GreaterThan f v p)"
| "rdb_exec (C_LessThan f v) p = Some (Rdb_LessThan f v p)"
| "rdb_exec (C_GreaterThanOrEqualTo f v) p = Some (Rdb_GreaterThanOrEqualTo f v p)"
| "rdb_exec (C_LessThanOrEqualTo f v) p = Some (Rdb_LessThanOrEqualTo f v p)"
| "rdb_exec (C_OrderByAsc f) p = Some (Rdb_OrderByAsc f p)"
| "rdb_exec (C_OrderByDesc f) p = Some (Rdb_OrderByDesc f p)"
| "rdb_exec C_Distinct p = Some (Rdb_Distinct p)"
| "rdb_exec (C_Limit n) p = Some (Limit n p)"
| "rdb_exec (C_Offset n) p = Some (Offset n p)"
| "rdb_exec (C_Limit2 m n) p = Some (Limit2 m n p)"
| "rdb_exec (C_GroupBy fs) p = Some (GroupBy fs p)"
| "rdb_exec (C_IndexedBy i) p = Some (Rdb_IndexedBy i p)"
| "rdb_exec (C_In f vs) p = Some (Rdb_In_values f vs p)"
| "rdb_exec (C_In_strings f vs) p = Some (Rdb_In_strings f vs p)"
| "rdb_exec (C_NotIn f vs) p = Some (Rdb_NotIn_values f vs p)"
| "rdb_exec (C_NotIn_strings f vs) p = Some (Rdb_NotIn_strings f vs p)"

primrec rdb_run :: "ap_call list \<Rightarrow> abs_rdb_predicates \<Rightarrow> abs_rdb_predicates option" where
  "rdb_run [] p = Some p"
| "rdb_run (c # cs) p = (case rdb_exec c p of None \<Rightarrow> None | Some q \<Rightarrow> rdb_run cs q)"

datatype join_call = J_Join JoinType string | J_Using "string list" | J_On "string list"

primrec join_exec :: "join_call \<Rightarrow> abs_rdb_predicates \<Rightarrow> abs_rdb_predicates" where
  "join_exec (J_Join t tbl) p = (case t of CROSS \<Rightarrow> CrossJoin tbl p | INNER \<Rightarrow> InnerJoin tbl p
     | LEFT \<Rightarrow> LeftOuterJoin tbl p)"
| "join_exec (J_Using flds) p = Using flds p"
| "join_exec (J_On clauses) p = On_clauses clauses p"

section \<open>The base part of a derived object\<close>

abbreviation base :: "'a abs_predicates_scheme \<Rightarrow> abs_predicates" where
  "base p \<equiv> abs_predicates.truncate p"

lemma base_selectors [simp]:
  "whereClause (base p) = whereClause p" "bindArgs (base p) = bindArgs p"
  "isNeedAnd (base p) = isNeedAnd p" "isSorted (base p) = isSorted p"
  "ap_group (base p) = ap_group p" "ap_order (base p) = ap_order p"
  "hasSpecificField (base p) = hasSpecificField p"
  by (simp_all add: abs_predicates.truncate_def)

lemma base_updates:
  "base (p\<lparr>whereClause := s\<rparr>) = (base p)\<lparr>whereClause := s\<rparr>"
  "base (p\<lparr>bindArgs := vs\<rparr>) = (base p)\<lparr>bindArgs := vs\<rparr>"
  "base (p\<lparr>isNeedAnd := b\<rparr>) = (base p)\<lparr>isNeedAnd := b\<rparr>"
  "base (p\<lparr>isSorted := b\<rparr>) = (base p)\<lparr>isSorted := b\<rparr>"
  "base (p\<lparr>ap_order := s\<rparr>) = (base p)\<lparr>ap_order := s\<rparr>"
  "base (p\<lparr>ap_group := s\<rparr>) = (base p)\<lparr>ap_group := s\<rparr>"
  "base (p\<lparr>ap_index := s\<rparr>) = (base p)\<lparr>ap_index := s\<rparr>"
  "base (p\<lparr>ap_limit := i\<rparr>) = (base p)\<lparr>ap_limit := i\<rparr>"
  "base (p\<lparr>ap_offset := i\<rparr>) = (base p)\<lparr>ap_offset := i\<rparr>"
  "base (p\<lparr>ap_distinct := b\<rparr>) = (base p)\<lparr>ap_distinct := b\<rparr>"
  "base (p\<lparr>hasSpecificField := b\<rparr>) = (base p)\<lparr>hasSpecificField := b\<rparr>"
  by (simp_all add: abs_predicates.truncate_def)

lemma base_steps [simp]:
  "base (CheckIsNeedAnd p) = CheckIsNeedAnd (base p)"
  "base (add_where s p) = add_where s (base p)"
  "base (push_args vs p) = push_args vs (base p)"
  "base (mark_field f p) = mark_field f (base p)"
  by (simp_all add: CheckIsNeedAnd_def add_where_def push_args_def mark_field_def base_updates)

lemma base_add_op [simp]: "base (add_op opr f vs p) = base p"
  by (simp add: add_op_def abs_predicates.truncate_def)

lemma base_memo_number [simp]: "base (memo_number opr f v p) = base p"
  by (simp add: memo_number_def split: option.split)

lemma base_exec: "map_option abs_predicates.truncate (ap_exec c p) = ap_exec c (base p)"
proof (cases c)
  case (C_EqualTo f v)
  then show ?thesis
    by (simp add: EqualTo_def Let_def split: sum.split option.split)
qed (simp_all add: builder_defs base_updates BeginWrap_def EndWrap_def Or_op_def In_values_def
  NotIn_values_def AppendWhereClauseWithInOrNotIn_def Let_def split: sum.split)

lemma rdb_exec_base: "\<exists>p'. rdb_exec c p = ap_exec c p' \<and> base p' = base p"
proof (cases c)
  case (C_EqualTo f v)
  then show ?thesis
    by (cases v) (auto simp: Rdb_EqualTo_def)
next
  case (C_NotEqualTo f v)
  then show ?thesis
    by (cases v) (auto simp: Rdb_NotEqualTo_def)
next
  case (C_In f vs)
  then show ?thesis
    by (cases "In_collect vs [] [] False") (auto simp: Rdb_In_values_def)
next
  case (C_In_strings f vs)
  then show ?thesis
    by (cases "In_collect (map VString vs) [] [] False")
      (auto simp: Rdb_In_strings_def In_strings_def Rdb_In_values_def)
next
  case (C_NotIn f vs)
  then show ?thesis
    by (cases "In_collect vs [] [] False") (auto simp: Rdb_NotIn_values_def)
next
  case (C_NotIn_strings f vs)
  then show ?thesis
    by (cases "In_collect (map VString vs) [] [] False")
      (auto simp: Rdb_NotIn_strings_def NotIn_strings_def Rdb_NotIn_values_def)
qed (auto simp: Rdb_BeginWrap_def Rdb_EndWrap_def Rdb_Or_def Rdb_And_def Rdb_Contains_def
  Rdb_NotContains_def Rdb_BeginsWith_def Rdb_EndsWith_def Rdb_IsNull_def Rdb_IsNotNull_def Rdb_Like_def
  Rdb_NotLike_def Rdb_Glob_def Rdb_NotGlob_def Rdb_GreaterThan_def Rdb_LessThan_def
  Rdb_GreaterThanOrEqualTo_def Rdb_LessThanOrEqualTo_def Rdb_OrderByAsc_def Rdb_OrderByDesc_def
  Rdb_Distinct_def Rdb_IndexedBy_def)

lemma rdb_exec_refines: "map_option abs_predicates.truncate (rdb_exec c p) = ap_exec c (base p)"
  using rdb_exec_base [of c p] base_exec by metis

lemma rdb_run_refines: "map_option abs_predicates.truncate (rdb_run cs p) = ap_run cs (base p)"
proof (induction cs arbitrary: p)
  case (Cons c cs)
  have "map_option abs_predicates.truncate (rdb_exec c p) = ap_exec c (base p)"
    by (rule rdb_exec_refines)
  then show ?case
    using Cons [of "the (rdb_exec c p)"] by (cases "rdb_exec c p"; cases "ap_exec c (base p)") auto
qed simp

lemma base_new: "base (RdbPredicates_new tbl) = AbsPredicates_new"
  by (simp add: RdbPredicates_new_def InitialParam_def AbsRdbPredicates_table_def new_rdb_def
    abs_predicates.truncate_def abs_predicates.extend_def AbsPredicates_new_def Initial_def)

section \<open>Joins: the three vectors\<close>

definition join_inv :: "abs_rdb_predicates \<Rightarrow> bool" where
  "join_inv p \<longleftrightarrow>
     length (joinTypes p) = length (joinTableNames p) \<and> joinCount p \<ge> 0 \<and>
     int (length (joinConditions p)) + joinCount p = int (length (joinTableNames p))"

lemma pad_conditions_eq:
  "0 < count \<Longrightarrow> pad_conditions count conds = (1, conds @ replicate (nat count - 1) [])"
proof (induction count conds rule: pad_conditions.induct)
  case (1 count conds)
  show ?case
  proof (cases "count > 1")
    case True
    define k where "k = nat (count - 2)"
    have k: "nat count - 1 = Suc k" "nat (count - 1) - 1 = k" using True by (auto simp: k_def)
    have "pad_conditions (count - 1) (conds @ [[]]) = (1, (conds @ [[]]) @ replicate k [])"
      using 1 True k(2) by simp
    then show ?thesis
      unfolding k(1) using True by (subst pad_conditions.simps) simp
  next
    case False
    with 1 have "count = 1" by simp
    then show ?thesis by (subst pad_conditions.simps) simp
  qed
qed

lemma add_condition_eq:
  "0 < joinCount p \<Longrightarrow> add_condition cond p = p\<lparr>joinCount := 0,
     joinConditions := joinConditions p @ replicate (nat (joinCount p) - 1) [] @ [cond]\<rparr>"
  by (simp add: add_condition_def pad_conditions_eq)

lemma join_exec_inv: "join_inv p \<Longrightarrow> join_inv (join_exec c p)"
  by (cases c) (auto simp: join_inv_def CrossJoin_def InnerJoin_def LeftOuterJoin_def Join_def
    Using_def On_clauses_def add_condition_eq split: JoinType.split)

lemma join_run_inv: "join_inv p \<Longrightarrow> join_inv (fold join_exec cs p)"
  by (induction cs arbitrary: p) (auto intro: join_exec_inv)

lemma join_inv_new: "join_inv (RdbPredicates_new tbl)"
  by (simp add: join_inv_def RdbPredicates_new_def InitialParam_def)

lemma ProcessJoins_loop_defined:
  assumes "length (joinTypes p) = length (joinTableNames p)" "i + m = length (joinTableNames p)"
  shows "ProcessJoins_loop m i b p \<noteq> None \<longleftrightarrow> m = 0 \<or> i + m \<le> length (joinConditions p)"
  using assms
proof (induction m arbitrary: i b)
  case (Suc m)
  then show ?case
    by (cases "i < length (joinConditions p)") (auto simp: vec_at_def Let_def)
qed simp

lemma In_collect_strings:
  "In_collect (map VString vs) ss is b = Some (ss @ vs, is, b \<or> vs \<noteq> [])"
  by (induction vs arbitrary: ss b) auto

section \<open>Properties\<close>


text \<open>
  C24: after any sequence of joins, \<open>Using\<close> and \<open>On\<close> on new predicates, the join clause can be
  rendered exactly when no join is left without a condition after it; otherwise
  \<open>ProcessJoins\<close> reads \<open>joinConditions\<close> past its end.
\<close>

theorem join_clause_defined_iff:
  "GetJoinClause (fold join_exec cs (RdbPredicates_new tbl)) \<noteq> None \<longleftrightarrow>
     joinCount (fold join_exec cs (RdbPredicates_new tbl)) = 0"
proof -
  let ?p = "fold join_exec cs (RdbPredicates_new tbl)"
  have inv: "join_inv ?p" by (rule join_run_inv [OF join_inv_new])
  then show ?thesis
    using ProcessJoins_loop_defined [of ?p 0 "length (joinTableNames ?p)" "[]"]
    by (auto simp: GetJoinClause_def ProcessJoins_def join_inv_def)
qed

text \<open>
  \<open>In\<close> on strings records the operation twice: once itself and once through the virtual
  call of the base class.
\<close>

lemma In_strings_recorded_twice:
  "memo_operations (predicates_memo (Rdb_In_strings field vs p)) =
     memo_operations (predicates_memo p) @
       replicate 2 \<lparr>operator = IN_OPERATOR, op_field = field, op_values = map DStr vs\<rparr>"
proof -
  have "predicates_memo (In_values f ws q) = predicates_memo q" for f ws and q :: abs_rdb_predicates
    by (simp add: In_values_def builder_steps)
  then show ?thesis
    by (cases vs) (simp_all add: Rdb_In_strings_def In_strings_def Rdb_In_values_def add_op_def
      AddOperation_def numeral_2_eq_2 In_collect_strings)
qed

text \<open>
  The memo of a query with a limit grows each time it is read: after \<open>n\<close> reads it holds
  \<open>n\<close> copies of the limit operation.
\<close>

lemma distributed_predicates_accumulate:
  assumes "ap_limit p \<ge> 0"
  shows "memo_operations (predicates_memo (((\<lambda>q. snd (GetDistributedPredicates q)) ^^ n) p)) =
     memo_operations (predicates_memo p) @ replicate n \<lparr>operator = LIMIT,
       op_field = to_string_int (ap_limit p), op_values = [DStr (to_string_int (ap_offset p))]\<rparr>"
proof -
  let ?step = "\<lambda>q. snd (GetDistributedPredicates q)"
  have frame: "ap_limit ((?step ^^ n) p) = ap_limit p \<and> ap_offset ((?step ^^ n) p) = ap_offset p" for n
    by (induction n) (simp_all add: GetDistributedPredicates_def add_op_def Let_def)
  show ?thesis
  proof (induction n)
    case (Suc n)
    then show ?case
      using frame [of n] assms
      by (simp add: GetDistributedPredicates_def add_op_def AddOperation_def Let_def replicate_append_same)
  qed simp
qed

end
