(* ===== verification/Values_Buckets.thy ===== *)
theory Values_Buckets
  imports Value_Object
begin

text \<open>
  \<open>ValuesBucket\<close> (\<open>values_bucket.cpp\<close>), a row as a \<open>std::map\<close> from column to value, and
  \<open>ValuesBuckets\<close> (\<open>values_buckets.cpp\<close>), a batch of rows that shares equal values: the values
  live in one \<open>std::set\<close> and a row refers to its nodes. The set is a store of nodes, addressed
  by number, and the sorted list of the addresses in it; a row maps a column to an address.
  Scanning the sorted list finds what the search in the tree finds as long as the set is
  sorted by \<open>operator<\<close>.
\<close>

section \<open>\<open>ValuesBucket\<close>\<close>

type_synonym values_bucket = "(string \<times> value_object) list"

definition PutString :: "string \<Rightarrow> string \<Rightarrow> values_bucket \<Rightarrow> values_bucket" where
  "PutString columnName v m = om_emplace columnName (VString v) m"
definition PutInt :: "string \<Rightarrow> int \<Rightarrow> values_bucket \<Rightarrow> values_bucket" where
  "PutInt columnName v m = om_emplace columnName (VInt v) m"
definition PutLong :: "string \<Rightarrow> int \<Rightarrow> values_bucket \<Rightarrow> values_bucket" where
  "PutLong columnName v m = om_emplace columnName (VInt v) m"
definition PutDouble :: "string \<Rightarrow> f64 \<Rightarrow> values_bucket \<Rightarrow> values_bucket" where
  "PutDouble columnName v m = om_emplace columnName (VDouble v) m"
definition PutBool :: "string \<Rightarrow> bool \<Rightarrow> values_bucket \<Rightarrow> values_bucket" where
  "PutBool columnName v m = om_emplace columnName (VBool v) m"
definition PutBlob :: "string \<Rightarrow> byte list \<Rightarrow> values_bucket \<Rightarrow> values_bucket" where
  "PutBlob columnName v m = om_emplace columnName (VBlob v) m"
definition PutNull :: "string \<Rightarrow> values_bucket \<Rightarrow> values_bucket" where
  "PutNull columnName m = om_emplace columnName VNull m"
definition Put :: "string \<Rightarrow> value_object \<Rightarrow> values_bucket \<Rightarrow> values_bucket" where
  "Put columnName v m = om_assign columnName v m"
definition Delete :: "string \<Rightarrow> values_bucket \<Rightarrow> values_bucket" where
  "Delete columnName m = om_erase columnName m"
definition ValuesBucket_Clear :: "values_bucket \<Rightarrow> values_bucket" where
  "ValuesBucket_Clear m = []"
definition Size :: "values_bucket \<Rightarrow> int" where
  "Size m = to_i32 (int (length m))"
definition IsEmpty :: "values_bucket \<Rightarrow> bool" where
  "IsEmpty m = (m = [])"
definition HasColumn :: "string \<Rightarrow> values_bucket \<Rightarrow> bool" where
  "HasColumn columnName m = (case map_of m columnName of None \<Rightarrow> False | Some _ \<Rightarrow> True)"
definition GetObject :: "string \<Rightarrow> values_bucket \<Rightarrow> value_object \<Rightarrow> bool \<times> value_object" where
  "GetObject columnName m v = (case map_of m columnName of None \<Rightarrow> (False, v) | Some w \<Rightarrow> (True, w))"

datatype bucket_call =
    B_PutString string string | B_PutInt string int | B_PutLong string int | B_PutDouble string f64
  | B_PutBool string bool | B_PutBlob string "byte list" | B_PutNull string
  | B_Put string value_object | B_Delete string | B_Clear

primrec bucket_exec :: "bucket_call \<Rightarrow> values_bucket \<Rightarrow> values_bucket" where
  "bucket_exec (B_PutString c v) m = PutString c v m"
| "bucket_exec (B_PutInt c v) m = PutInt c v m"
| "bucket_exec (B_PutLong c v) m = PutLong c v m"
| "bucket_exec (B_PutDouble c v) m = PutDouble c v m"
| "bucket_exec (B_PutBool c v) m = PutBool c v m"
| "bucket_exec (B_PutBlob c v) m = PutBlob c v m"
| "bucket_exec (B_PutNull c) m = PutNull c m"
| "bucket_exec (B_Put c v) m = Put c v m"
| "bucket_exec (B_Delete c) m = Delete c m"
| "bucket_exec B_Clear m = ValuesBucket_Clear m"

text \<open>
  The contract: a partial map. The typed methods leave a column that is already set alone;
  \<open>Put\<close> overwrites it.
\<close>

definition spec_insert :: "string \<Rightarrow> value_object \<Rightarrow> (string \<rightharpoonup> value_object) \<Rightarrow> (string \<rightharpoonup> value_object)" where
  "spec_insert c v s = (case s c of None \<Rightarrow> s(c \<mapsto> v) | Some _ \<Rightarrow> s)"

primrec bucket_spec :: "bucket_call \<Rightarrow> (string \<rightharpoonup> value_object) \<Rightarrow> (string \<rightharpoonup> value_object)" where
  "bucket_spec (B_PutString c v) s = spec_insert c (VString v) s"
| "bucket_spec (B_PutInt c v) s = spec_insert c (VInt v) s"
| "bucket_spec (B_PutLong c v) s = spec_insert c (VInt v) s"
| "bucket_spec (B_PutDouble c v) s = spec_insert c (VDouble v) s"
| "bucket_spec (B_PutBool c v) s = spec_insert c (VBool v) s"
| "bucket_spec (B_PutBlob c v) s = spec_insert c (VBlob v) s"
| "bucket_spec (B_PutNull c) s = spec_insert c VNull s"
| "bucket_spec (B_Put c v) s = s(c \<mapsto> v)"
| "bucket_spec (B_Delete c) s = s(c := None)"
| "bucket_spec B_Clear s = Map.empty"

section \<open>\<open>ValuesBuckets\<close>\<close>

record values_buckets =
  vbs_fields :: "string list"
  vbs_heap :: "value_object list"
  vbs_values :: "nat list"
  vbs_rows :: "(string \<times> nat) list list"

definition ValuesBuckets_new :: values_buckets where
  "ValuesBuckets_new = \<lparr>vbs_fields = [], vbs_heap = [], vbs_values = [], vbs_rows = []\<rparr>"

definition addr_less :: "value_object list \<Rightarrow> nat \<Rightarrow> nat \<Rightarrow> bool" where
  "addr_less heap a b = vo_less (heap ! a) (heap ! b)"

text \<open>\<open>values_->insert(value)\<close>: the address of the node, new or already there.\<close>

definition set_insert :: "value_object \<Rightarrow> value_object list \<Rightarrow> nat list \<Rightarrow> nat \<times> value_object list \<times> nat list" where
  "set_insert v heap addrs =
     (let h = heap @ [v]; n = length heap
      in case os_find (addr_less h) n addrs of
           Some a \<Rightarrow> (a, heap, addrs)
         | None \<Rightarrow> (n, h, os_insert (addr_less h) n addrs))"

fun Put_loop ::
  "values_bucket \<Rightarrow> string list \<Rightarrow> value_object list \<Rightarrow> nat list \<Rightarrow> (string \<times> nat) list
     \<Rightarrow> string list \<times> value_object list \<times> nat list \<times> (string \<times> nat) list" where
  "Put_loop [] fs heap addrs row = (fs, heap, addrs, row)"
| "Put_loop ((field, v) # kvs) fs heap addrs row =
     (let fs' = os_insert (<) field fs;
          (a, heap', addrs') = set_insert v heap addrs
      in Put_loop kvs fs' heap' addrs' (om_emplace field a row))"

definition ValuesBuckets_Put :: "values_bucket \<Rightarrow> values_buckets \<Rightarrow> values_buckets" where
  "ValuesBuckets_Put bucket b =
     (let (fs, heap, addrs, row) = Put_loop bucket (vbs_fields b) (vbs_heap b) (vbs_values b) []
      in b\<lparr>vbs_fields := fs, vbs_heap := heap, vbs_values := addrs, vbs_rows := vbs_rows b @ [row]\<rparr>)"

definition ValuesBuckets_of :: "values_bucket list \<Rightarrow> values_buckets" where
  "ValuesBuckets_of rows = fold ValuesBuckets_Put rows ValuesBuckets_new"

definition RowSize :: "values_buckets \<Rightarrow> nat" where
  "RowSize b = length (vbs_rows b)"

definition ValuesBuckets_Clear :: "values_buckets \<Rightarrow> values_buckets" where
  "ValuesBuckets_Clear b = b\<lparr>vbs_rows := [], vbs_fields := [], vbs_values := []\<rparr>"

text \<open>\<open>None\<close> is the reference to the local \<open>empty\<close>, which is dead when the caller gets it.\<close>

definition ValuesBuckets_Get :: "nat \<Rightarrow> string \<Rightarrow> values_buckets \<Rightarrow> int \<times> nat option" where
  "ValuesBuckets_Get row field b =
     (if row \<ge> length (vbs_rows b) then (E_INVALID_ARGS, None)
      else (case map_of (vbs_rows b ! row) field of
              None \<Rightarrow> (E_INVALID_ARGS, None)
            | Some a \<Rightarrow> (E_OK, Some a)))"

section \<open>The row as a map\<close>

lemma om_emplace_spec: "om_invar m \<Longrightarrow> map_of (om_emplace c v m) = spec_insert c v (map_of m)"
  by (rule ext) (auto simp: smap.find_emplace spec_insert_def split: option.split)

lemmas bucket_defs = PutString_def PutInt_def PutLong_def PutDouble_def PutBool_def PutBlob_def
  PutNull_def Put_def Delete_def ValuesBucket_Clear_def

lemma bucket_exec_refines:
  "om_invar m \<Longrightarrow> om_invar (bucket_exec c m) \<and> map_of (bucket_exec c m) = bucket_spec c (map_of m)"
  by (cases c) (auto simp: bucket_defs om_emplace_spec smap.invar_emplace smap.invar_assign
    smap.invar_erase smap.find_assign smap.find_erase fun_eq_iff)

lemma bucket_run_refines:
  "om_invar m \<Longrightarrow> om_invar (fold bucket_exec cs m) \<and>
     map_of (fold bucket_exec cs m) = fold bucket_spec cs (map_of m)"
  by (induction cs arbitrary: m) (auto simp: bucket_exec_refines)

section \<open>The shared set of values\<close>

definition store_inv :: "value_object list \<Rightarrow> nat list \<Rightarrow> bool" where
  "store_inv heap addrs \<longleftrightarrow>
     list_all vo_ok heap \<and> list_all (\<lambda>a. a < length heap) addrs \<and> sorted_wrt (addr_less heap) addrs"

lemma addr_order:
  assumes "list_all vo_ok heap"
  shows "strict_weak_order (\<lambda>a. a < length heap) (addr_less heap)"
  using assms
  by (intro strict_weak_order_proj [OF vo_order.strict_weak_order_axioms, where f = "nth heap"])
    (auto simp: addr_less_def list_all_length)

lemma addr_less_append: "a < length heap \<Longrightarrow> b < length heap \<Longrightarrow> addr_less (heap @ ext) a b = addr_less heap a b"
  by (simp add: addr_less_def nth_append)

lemma store_inv_append:
  assumes "store_inv heap addrs" "list_all vo_ok ext"
  shows "store_inv (heap @ ext) addrs"
proof -
  have "sorted_wrt (addr_less (heap @ ext)) addrs"
    using assms(1) unfolding store_inv_def list_all_iff
    by (auto intro: sorted_wrt_mono_rel [of addrs "addr_less heap"] simp: addr_less_append)
  then show ?thesis
    using assms by (auto simp: store_inv_def list_all_iff)
qed

lemma os_insert_fresh: "os_find lt x s = None \<Longrightarrow> x \<in> set (os_insert lt x s)"
  by (induction s) (auto split: if_splits)

lemma vo_eq_addr: "vo_eq (heap ! a) (heap ! b) \<longleftrightarrow> equivalent (addr_less heap) a b"
  by (auto simp: vo_eq_equivalent equivalent_def addr_less_def)

lemma vo_eq_refl: "vo_ok v \<Longrightarrow> vo_eq v v"
  by (simp add: vo_eq_equivalent vo_order.equivalent_refl)

lemma set_insert_correct:
  assumes inv: "store_inv heap addrs" and ok: "vo_ok v"
    and ins: "set_insert v heap addrs = (a, heap', addrs')"
  shows "\<exists>ext. heap' = heap @ ext \<and> store_inv heap' addrs' \<and> a < length heap' \<and> a \<in> set addrs'
    \<and> vo_eq (heap' ! a) v \<and> set addrs \<subseteq> set addrs'"
proof -
  let ?h = "heap @ [v]"
  have S: "strict_weak_order (\<lambda>a. a < length ?h) (addr_less ?h)"
    using inv ok by (intro addr_order) (simp add: store_inv_def)
  show ?thesis
  proof (cases "os_find (addr_less ?h) (length heap) addrs")
    case (Some b)
    have b: "b \<in> set addrs" "vo_eq (?h ! b) (?h ! length heap)"
      using strict_weak_order.os_find_Some [OF S Some] unfolding vo_eq_addr by blast+
    moreover have "b < length heap" using inv b(1) by (auto simp: store_inv_def list_all_iff)
    ultimately show ?thesis
      using Some ins inv by (auto simp: set_insert_def Let_def nth_append)
  next
    case None
    have I: "store_inv ?h addrs" using inv ok by (intro store_inv_append) auto
    have n: "length heap < length ?h" by simp
    have sub: "set addrs \<subseteq> set (os_insert (addr_less ?h) (length heap) addrs)"
      by (rule strict_weak_order.os_insert_set(2) [OF S])
    have C: "list_all (\<lambda>a. a < length ?h) addrs" "sorted_wrt (addr_less ?h) addrs"
      using I by (simp_all add: store_inv_def)
    have "store_inv ?h (os_insert (addr_less ?h) (length heap) addrs)"
      using I strict_weak_order.os_insert_carrier [OF S n C(1)]
        strict_weak_order.os_insert_sorted [OF S n C]
      by (simp add: store_inv_def)
    then show ?thesis
      using None ins ok os_insert_fresh [OF None] sub
      by (auto simp: set_insert_def Let_def vo_eq_refl)
  qed
qed

text \<open>A row of the batch stands for a row of the input, up to the equivalence of values.\<close>

definition row_ok :: "value_object list \<Rightarrow> (string \<times> nat) list \<Rightarrow> values_bucket \<Rightarrow> bool" where
  "row_ok heap row m \<longleftrightarrow> om_invar row \<and>
     (\<forall>f. rel_option (\<lambda>a v. a < length heap \<and> vo_eq (heap ! a) v) (map_of row f) (map_of m f))"

lemma row_ok_append: "row_ok heap row m \<Longrightarrow> row_ok (heap @ ext) row m"
  unfolding row_ok_def by (auto simp: nth_append elim!: option.rel_mono_strong allE)

lemma row_ok_emplace:
  assumes "row_ok heap row m" "a < length heap" "vo_eq (heap ! a) v"
  shows "row_ok heap (om_emplace f a row) (m @ [(f, v)])"
  unfolding row_ok_def
proof (intro conjI allI)
  show "om_invar (om_emplace f a row)" using assms(1) by (simp add: row_ok_def smap.invar_emplace)
  fix g
  have "rel_option (\<lambda>a v. a < length heap \<and> vo_eq (heap ! a) v) (map_of row g) (map_of m g)" for g
    using assms(1) by (simp add: row_ok_def)
  from this [of g] this [of f] show "rel_option (\<lambda>a v. a < length heap \<and> vo_eq (heap ! a) v)
      (map_of (om_emplace f a row) g) (map_of (m @ [(f, v)]) g)"
    using assms smap.find_emplace [of row f a g]
    by (cases "map_of m g"; cases "map_of row g") (auto simp: row_ok_def map_add_def)
qed

lemma Put_loop_correct:
  assumes "store_inv heap addrs" "list_all (\<lambda>(f, v). vo_ok v) kvs"
    and "row_ok heap row m" "Put_loop kvs fs heap addrs row = (fs', heap', addrs', row')"
  shows "\<exists>ext. heap' = heap @ ext \<and> store_inv heap' addrs' \<and> row_ok heap' row' (m @ kvs)"
  using assms
proof (induction kvs arbitrary: fs heap addrs row m)
  case (Cons kv kvs)
  obtain f v where kv: "kv = (f, v)" by fastforce
  obtain a h1 addrs1 where ins: "set_insert v heap addrs = (a, h1, addrs1)" by (metis prod_cases3)
  have ok: "vo_ok v" using Cons.prems(2) kv by simp
  obtain ext where ext: "h1 = heap @ ext" "store_inv h1 addrs1" "a < length h1" "vo_eq (h1 ! a) v"
    using set_insert_correct [OF Cons.prems(1) ok ins] by blast
  have R: "row_ok h1 (om_emplace f a row) (m @ [(f, v)])"
    using row_ok_emplace [OF row_ok_append [OF Cons.prems(3)]] ext by simp
  have rest: "list_all (\<lambda>(f, v). vo_ok v) kvs" using Cons.prems(2) by simp
  have run: "Put_loop kvs (os_insert (<) f fs) h1 addrs1 (om_emplace f a row) = (fs', heap', addrs', row')"
    using Cons.prems(4) by (simp add: kv ins)
  from Cons.IH [OF ext(2) rest R run] show ?case using ext(1) kv by auto
qed auto

lemma Put_loop_fields:
  "Put_loop kvs fs heap addrs row = (fs', heap', addrs', row') \<Longrightarrow> sorted_wrt (<) fs \<Longrightarrow>
     sorted_wrt (<) fs' \<and> set fs' = set fs \<union> fst ` set kvs"
proof (induction kvs arbitrary: fs heap addrs row)
  case (Cons kv kvs)
  obtain f v where kv: "kv = (f, v)" by fastforce
  obtain a h1 addrs1 where ins: "set_insert v heap addrs = (a, h1, addrs1)" by (metis prod_cases3)
  have S: "sorted_wrt (<) (os_insert (<) f fs)"
    using Cons.prems(2) by (intro lin.os_insert_sorted) (simp_all add: list_all_iff)
  have "set (os_insert (<) x s) = insert x (set s)" for x :: string and s
    by (induction s) auto
  with Cons.IH [OF _ S] Cons.prems(1) show ?case by (simp add: kv ins)
qed auto

definition buckets_inv :: "values_buckets \<Rightarrow> values_bucket list \<Rightarrow> bool" where
  "buckets_inv b ms \<longleftrightarrow>
     store_inv (vbs_heap b) (vbs_values b) \<and> list_all2 (row_ok (vbs_heap b)) (vbs_rows b) ms \<and>
     sorted_wrt (<) (vbs_fields b) \<and> set (vbs_fields b) = (\<Union>m \<in> set ms. fst ` set m)"

definition bucket_ok :: "values_bucket \<Rightarrow> bool" where
  "bucket_ok m = list_all (\<lambda>(f, v). vo_ok v) m"

lemma buckets_inv_new: "buckets_inv ValuesBuckets_new []"
  by (simp add: buckets_inv_def ValuesBuckets_new_def store_inv_def)

lemma buckets_inv_Put:
  assumes "buckets_inv b ms" "bucket_ok m"
  shows "buckets_inv (ValuesBuckets_Put m b) (ms @ [m])"
proof -
  obtain fs heap addrs row where L:
    "Put_loop m (vbs_fields b) (vbs_heap b) (vbs_values b) [] = (fs, heap, addrs, row)"
    by (metis prod_cases4)
  have inv: "store_inv (vbs_heap b) (vbs_values b)" "sorted_wrt (<) (vbs_fields b)"
    "list_all2 (row_ok (vbs_heap b)) (vbs_rows b) ms"
    using assms(1) by (simp_all add: buckets_inv_def)
  have "row_ok (vbs_heap b) [] []" by (simp add: row_ok_def)
  from Put_loop_correct [OF inv(1) _ this L] assms(2)
  obtain ext where ext: "heap = vbs_heap b @ ext" "store_inv heap addrs" "row_ok heap row m"
    by (auto simp: bucket_ok_def)
  have "list_all2 (row_ok heap) (vbs_rows b) ms"
    using inv(3) ext(1) by (auto elim!: list.rel_mono_strong intro: row_ok_append)
  then show ?thesis
    using assms(1) ext L Put_loop_fields [OF L inv(2)]
    by (auto simp: buckets_inv_def ValuesBuckets_Put_def list_all2_appendI)
qed

lemma buckets_inv_of:
  assumes "list_all bucket_ok ms"
  shows "buckets_inv (ValuesBuckets_of ms) ms"
proof -
  have "buckets_inv (fold ValuesBuckets_Put ms b) (pre @ ms)" if "buckets_inv b pre" for b pre
    using that assms
  proof (induction ms arbitrary: b pre)
    case (Cons m ms)
    from Cons.IH [OF buckets_inv_Put [OF Cons.prems(1)], of m] Cons.prems(2) show ?case by simp
  qed simp
  from this [OF buckets_inv_new] show ?thesis by (simp add: ValuesBuckets_of_def)
qed

section \<open>Properties\<close>




end
