(* ===== verification/Sqlite_Utils.thy ===== *)
theory Sqlite_Utils
  imports String_Utils Std_Containers
begin

text \<open>
  \<open>SqliteUtils\<close> (\<open>sqlite_utils.cpp\<close>, \<open>sqlite_utils.h\<close>) and the error table of
  \<open>sqlite_errno.h\<close>: the classification of SQL statements by their first letters, in-place
  substitution, the anonymisation of names, paths and statements that go to the log, the names of
  the replica files, the marker files that record the state of the replica, and the reading of the
  file of schema statements.

  \<open>std::lower_bound\<close> is the number of leading elements below the key, which is its result on a
  partitioned range; that the tables searched are sorted is a lemma. The file system is a map from
  paths to contents; which paths can be created and removed is an argument.
\<close>

section \<open>\<open>SqliteUtils::Replace\<close>\<close>

lemma str_find_from_bounds:
  "str_find_from pat s pos = Some k \<Longrightarrow> pos \<le> k \<and> k + length pat \<le> length s"
  by (auto simp: str_find_from_def split: if_splits dest: str_find_Some)

function Replace_loop :: "string \<Rightarrow> string \<Rightarrow> string \<Rightarrow> nat \<Rightarrow> string" where
  "Replace_loop rep dst res pos =
     (if rep = [] then res
      else (case str_find_from rep res pos of
              None \<Rightarrow> res
            | Some k \<Rightarrow> Replace_loop rep dst (take k res @ dst @ drop (k + length rep) res) (k + length dst)))"
  by pat_completeness auto
termination
  by (relation "measure (\<lambda>(rep, dst, res, pos). length res - pos)")
    (auto dest!: str_find_from_bounds simp flip: length_greater_0_conv)

declare Replace_loop.simps [simp del]

definition Replace :: "string \<Rightarrow> string \<Rightarrow> string \<Rightarrow> string" where
  "Replace src rep dst = (if src = [] \<or> rep = [] then [] else Replace_loop rep dst src 0)"

section \<open>Sorted tables\<close>

definition lower_bound :: "('a \<Rightarrow> 'b \<Rightarrow> bool) \<Rightarrow> 'a list \<Rightarrow> 'b \<Rightarrow> nat" where
  "lower_bound before xs v = length (takeWhile (\<lambda>x. before x v) xs)"

lemma lower_bound_lookup:
  fixes m :: "('k::linorder \<times> 'v) list"
  assumes "om_invar m"
  shows "(let it = lower_bound (\<lambda>a b. fst a < b) m k
          in if it < length m \<and> \<not> k < fst (m ! it) then Some (snd (m ! it)) else None) = map_of m k"
  using assms
proof (induction m)
  case Nil
  then show ?case by (simp add: lower_bound_def)
next
  case (Cons e m)
  obtain a b where e: "e = (a, b)" by fastforce
  show ?case
  proof (cases "a < k")
    case True
    with Cons e show ?thesis by (auto simp: lower_bound_def Let_def)
  next
    case False
    have "map_of m k = None" if "k < a"
      using Cons.prems that e by (intro om_find_less) (auto intro: less_trans [of k a])
    with False e show ?thesis by (auto simp: lower_bound_def Let_def)
  qed
qed

lemma lower_bound_lookup_default:
  fixes m :: "('k::linorder \<times> 'v) list"
  assumes "om_invar m"
  defines "it k \<equiv> lower_bound (\<lambda>a b. fst a < b) m k"
  shows "(if it k < length m \<and> \<not> k < fst (m ! it k) then snd (m ! it k) else d) =
    (case map_of m k of Some v \<Rightarrow> v | None \<Rightarrow> d)"
  unfolding lower_bound_lookup [OF assms(1), of k, symmetric] it_def Let_def by simp

section \<open>Statement types\<close>

definition STATEMENT_SELECT :: nat where "STATEMENT_SELECT = 1"
definition STATEMENT_UPDATE :: nat where "STATEMENT_UPDATE = 2"
definition STATEMENT_ATTACH :: nat where "STATEMENT_ATTACH = 3"
definition STATEMENT_DETACH :: nat where "STATEMENT_DETACH = 4"
definition STATEMENT_BEGIN :: nat where "STATEMENT_BEGIN = 5"
definition STATEMENT_COMMIT :: nat where "STATEMENT_COMMIT = 6"
definition STATEMENT_ROLLBACK :: nat where "STATEMENT_ROLLBACK = 7"
definition STATEMENT_PRAGMA :: nat where "STATEMENT_PRAGMA = 8"
definition STATEMENT_DDL :: nat where "STATEMENT_DDL = 9"
definition STATEMENT_INSERT :: nat where "STATEMENT_INSERT = 10"
definition STATEMENT_ERROR :: nat where "STATEMENT_ERROR = 11"
definition STATEMENT_OTHER :: nat where "STATEMENT_OTHER = 99"

lemmas statement_defs = STATEMENT_SELECT_def STATEMENT_UPDATE_def STATEMENT_ATTACH_def
  STATEMENT_DETACH_def STATEMENT_BEGIN_def STATEMENT_COMMIT_def STATEMENT_ROLLBACK_def
  STATEMENT_PRAGMA_def STATEMENT_DDL_def STATEMENT_INSERT_def STATEMENT_ERROR_def
  STATEMENT_OTHER_def

definition SQL_TYPE_MAP :: "(string \<times> nat) list" where
  "SQL_TYPE_MAP =
    [(''ALT'', STATEMENT_DDL), (''ATT'', STATEMENT_ATTACH), (''BEG'', STATEMENT_BEGIN),
     (''COM'', STATEMENT_COMMIT), (''CRE'', STATEMENT_DDL), (''DEL'', STATEMENT_UPDATE),
     (''DET'', STATEMENT_DETACH), (''DRO'', STATEMENT_DDL), (''END'', STATEMENT_COMMIT),
     (''INS'', STATEMENT_INSERT), (''PRA'', STATEMENT_PRAGMA), (''REP'', STATEMENT_UPDATE),
     (''ROL'', STATEMENT_ROLLBACK), (''SAV'', STATEMENT_BEGIN), (''SEL'', STATEMENT_SELECT),
     (''UPD'', STATEMENT_UPDATE)]"

definition StrToUpper :: "string \<Rightarrow> string" where
  "StrToUpper s = map to_upper s"

definition GetSqlStatementType :: "string \<Rightarrow> nat" where
  "GetSqlStatementType sql =
     (let pos = length (takeWhile (\<lambda>ch. \<not> (\<not> is_space ch \<and> \<not> is_cntrl ch)) sql)
      in if pos = length sql then STATEMENT_ERROR
         else if pos + 3 \<ge> length sql then STATEMENT_ERROR
         else
           (let prefixSql = c_str (StrToUpper (take 3 (drop pos sql)));
                it = lower_bound (\<lambda>a b. fst a < b) SQL_TYPE_MAP prefixSql
            in if it < length SQL_TYPE_MAP \<and> \<not> prefixSql < fst (SQL_TYPE_MAP ! it)
               then snd (SQL_TYPE_MAP ! it) else STATEMENT_OTHER))"

definition IsSupportSqlForExecute :: "nat \<Rightarrow> bool" where
  "IsSupportSqlForExecute sqlType =
     (sqlType = STATEMENT_DDL \<or> sqlType = STATEMENT_INSERT \<or> sqlType = STATEMENT_UPDATE \<or>
      sqlType = STATEMENT_PRAGMA)"

definition IsSqlReadOnly :: "nat \<Rightarrow> bool" where
  "IsSqlReadOnly sqlType = (sqlType = STATEMENT_SELECT)"

definition IsSpecial :: "nat \<Rightarrow> bool" where
  "IsSpecial sqlType =
     (sqlType = STATEMENT_BEGIN \<or> sqlType = STATEMENT_COMMIT \<or> sqlType = STATEMENT_ROLLBACK)"

definition ON_CONFLICT_CLAUSE :: "string list" where
  "ON_CONFLICT_CLAUSE =
    [[], '' OR ROLLBACK'', '' OR ABORT'', '' OR FAIL'', '' OR IGNORE'', '' OR REPLACE'']"

definition GetConflictClause :: "int \<Rightarrow> string option" where
  "GetConflictClause conflictResolution =
     (if conflictResolution < 0 \<or> conflictResolution \<ge> 6 then None
      else Some (ON_CONFLICT_CLAUSE ! nat conflictResolution))"

section \<open>Keywords\<close>

definition SQL_KEYWORD :: "string list" where
  "SQL_KEYWORD =
   [''ABORT'', ''ABS'', ''ACTION'', ''ADD'', ''AFTER'', ''ALIAS'', ''ALL'', ''ALTER'',
    ''ALWAYS'', ''AMBIGUOUS'', ''ANALYZE'', ''AND'', ''AS'', ''ASC'', ''ATTACH'',
    ''AUTOINCREMENT'', ''AVG'', ''BEFORE'', ''BEGIN'', ''BETWEEN'', ''BIG'', ''BIGINT'',
    ''BLOB'', ''BOOLEAN'', ''BY'', ''CASCADE'', ''CASE'', ''CAST'', ''CEIL'', ''CEILING'',
    ''CHARACTER'', ''CHECK'', ''CLOB'', ''COALESCE'', ''COLLATE'', ''COLUMN'', ''COMMIT'',
    ''CONCAT'', ''CONFLICT'', ''CONSTRAINT'', ''COUNT'', ''CREATE'', ''CROSS'', ''CURRENT'',
    ''CURRENT_DATE'', ''CURRENT_TIME'', ''CURRENT_TIMESTAMP'', ''DATABASE'', ''DATE'',
    ''DATETIME'', ''DECIMAL'', ''DEFAULT'', ''DEFERRABLE'', ''DEFERRED'', ''DELETE'', ''DESC'',
    ''DETACH'', ''DIGIT'', ''DISTINCT'', ''DO'', ''DOUBLE'', ''DROP'', ''E'', ''EACH'', ''ELSE'',
    ''END'', ''ESCAPE'', ''EXCEPT'', ''EXCLUDE'', ''EXCLUSIVE'', ''EXISTS'', ''EXP'',
    ''EXPLAIN'', ''EXPR'', ''FAIL'', ''FALSE'', ''FILENAME'', ''FILTER'', ''FIRST'', ''FLOAT'',
    ''FLOOR'', ''FOLLOWING'', ''FOR'', ''FOREIGN'', ''FROM'', ''FULL'', ''GENERATED'', ''GLOB'',
    ''GROUP'', ''GROUPS'', ''GROUP_CONCAT'', ''HAVING'', ''HEXDIGIT'', ''IF'', ''IFNULL'',
    ''IGNORE'', ''IMMEDIATE'', ''IN'', ''INDEX'', ''INDEXED'', ''INITIALLY'', ''INNER'',
    ''INSERT'', ''INSTEAD'', ''INSTR'', ''INT'', ''INT2'', ''INT8'', ''INTEGER'', ''INTERSECT'',
    ''INTO'', ''IS'', ''ISNULL'', ''JOIN'', ''JULIANDAY'', ''KEY'', ''LAST'', ''LEFT'',
    ''LENGTH'', ''LIKE'', ''LIMIT'', ''LN'', ''LOG'', ''LOWER'', ''LTRIM'', ''MATCH'',
    ''MATERIALIZED'', ''MAX'', ''MEDIUMINT'', ''MIN'', ''NAME'', ''NATIVE'', ''NATURAL'',
    ''NCHAR'', ''NEWLINE'', ''NO'', ''NOT'', ''NOTHING'', ''NOTNULL'', ''NULL'', ''NULLIF'',
    ''NULLS'', ''NUMERIC'', ''NVARCHAR'', ''OF'', ''OFFSET'', ''ON'', ''OR'', ''ORDER'',
    ''OTHERS'', ''OUTER'', ''OVER'', ''PARTITION'', ''PLAN'', ''POWER'', ''PRAGMA'',
    ''PRECEDING'', ''PRECISION'', ''PRIMARY'', ''QUERY'', ''RAISE'', ''RANDOM'', ''RANGE'',
    ''REAL'', ''RECURSIVE'', ''REFERENCES'', ''REGEXP'', ''REINDEX'', ''RELEASE'', ''RENAME'',
    ''REPLACE'', ''RESTRICT'', ''RETURNING'', ''RIGHT'', ''ROLLBACK'', ''ROUND'', ''ROW'',
    ''ROWID'', ''ROWS'', ''RTRIM'', ''SAVEPOINT'', ''SELECT'', ''SET'', ''SMALLINT'', ''SQRT'',
    ''STORED'', ''STRFTIME'', ''STRICT'', ''SUBSTR'', ''SUM'', ''TABLE'', ''TEMP'',
    ''TEMPORARY'', ''TEXT'', ''THEN'', ''TIES'', ''TIME'', ''TINYINT'', ''TO'', ''TOTAL'',
    ''TRANSACTION'', ''TRIGGER'', ''TRIM'', ''TRUE'', ''TYPEOF'', ''UNBOUNDED'', ''UNION'',
    ''UNIQUE'', ''UNSIGNED'', ''UPDATE'', ''UPPER'', ''USING'', ''VACUUM'', ''VALUES'',
    ''VARCHAR'', ''VARYING'', ''VIEW'', ''VIRTUAL'', ''WHEN'', ''WHERE'', ''WINDOW'', ''WITH'',
    ''WITHOUT'']"

definition WHILE_KEYWORDS :: "string list" where
  "WHILE_KEYWORDS =
   [''ABORTS'', ''ACQLOCK'', ''ALREADY'', ''AT'', ''BUSYLINE'', ''CHANGED'', ''CURLOCK'',
    ''DBREF'', ''DEL'', ''DUPLICATE'', ''ENABLE'', ''ERRNO'', ''ERROR'', ''FAILED'', ''FD'',
    ''FILE'', ''FILELOCK'', ''FRAMES'', ''F_RDLCK'', ''F_WRLCK'', ''GO'', ''HANDLELOCKS'',
    ''HAS'', ''IDX'', ''INCOMPLETE'', ''INPUT'', ''LEN'', ''LINE'', ''LITERAL'', ''LOCKCNT'',
    ''LOCKS'', ''MISUSE'', ''MONITOR'', ''NEAR'', ''NONE'', ''PID'', ''PROCESSLOCK'', ''QUOTED'',
    ''READ'', ''RECOVERED'', ''SCHEMA'', ''SHARED_FIRST'', ''SQLITE'', ''STATEMENT'', ''STRING'',
    ''SUCH'', ''SYNTAX'', ''TID'', ''TRX'', ''TYPE'', ''WAL'', ''WAL_DMS'', ''WARNING'',
    ''WRITE'', ''WRONG'']"

text \<open>Words are zero-terminated: the byte past the end is 0.\<close>

fun WordCompare :: "string \<Rightarrow> string \<Rightarrow> int" where
  "WordCompare [] [] = 0"
| "WordCompare [] (b # bs) = - int (of_char b)"
| "WordCompare (a # as) [] = int (of_char a)"
| "WordCompare (a # as) (b # bs) = 
     (if a = b then WordCompare as bs else int (of_char a) - int (of_char b))"

fun IsLexSorted :: "string list \<Rightarrow> bool" where
  "IsLexSorted [] = True"
| "IsLexSorted [a] = True"
| "IsLexSorted (a # b # ws) = (\<not> WordCompare a b \<ge> 0 \<and> IsLexSorted (b # ws))"

definition IsMatchKeyword :: "string list \<Rightarrow> string \<Rightarrow> bool" where
  "IsMatchKeyword keyword str =
     (let it = lower_bound (\<lambda>a b. WordCompare a b < 0) keyword str
      in it \<noteq> length keyword \<and> WordCompare (keyword ! it) str = 0)"

definition IsKeyword :: "string \<Rightarrow> bool" where
  "IsKeyword word =
     (IsMatchKeyword SQL_KEYWORD (c_str (StrToUpper word)) \<or>
      IsMatchKeyword WHILE_KEYWORDS (c_str (StrToUpper word)))"

section \<open>Anonymisation\<close>

definition GetAnonymousName :: "string \<Rightarrow> string" where
  "GetAnonymousName fileName =
     (if fileName = [] then []
      else if length fileName \<le> 3 then take 1 fileName @ ''**''
      else if length fileName < 9 then take 3 fileName @ ''***''
      else take 3 fileName @ ''***'' @ drop (length fileName - 3) fileName)"

definition AnonymousDigits :: "string \<Rightarrow> bool \<Rightarrow> string" where
  "AnonymousDigits digits fullyAnonymize =
     (let digitsNum = length digits
      in if digitsNum < 6 then (if fullyAnonymize then ''***'' else digits)
         else ''***'' @ (if digitsNum = 6 then drop (digitsNum - 3) digits
                         else drop (digitsNum - 4) digits))"

fun ByteAnonymous_loop :: "bool \<Rightarrow> string \<Rightarrow> string" where
  "ByteAnonymous_loop maskCurrent [] = []"
| "ByteAnonymous_loop maskCurrent (c # input) =
     (if (of_char c :: nat) > 0x7F
      then (if \<not> maskCurrent then ''***'' else []) @ ByteAnonymous_loop True input
      else c # ByteAnonymous_loop False input)"

definition ByteAnonymous :: "string \<Rightarrow> string" where
  "ByteAnonymous input = ByteAnonymous_loop False input"

text \<open>
  The matches of the pattern \<open>\b[a-zA-Z0-9_]+\b\<close> are the maximal runs of word characters; a whole
  word matches \<open>\b[0-9a-fA-F]+\b\<close> when all its characters are hexadecimal digits.
\<close>

definition is_word_char :: "char \<Rightarrow> bool" where
  "is_word_char c =
     (let n = of_char c :: nat
      in 97 \<le> n \<and> n \<le> 122 \<or> 65 \<le> n \<and> n \<le> 90 \<or> 48 \<le> n \<and> n \<le> 57 \<or> n = 95)"

definition is_hex_char :: "char \<Rightarrow> bool" where
  "is_hex_char c =
     (let n = of_char c :: nat
      in 48 \<le> n \<and> n \<le> 57 \<or> 97 \<le> n \<and> n \<le> 102 \<or> 65 \<le> n \<and> n \<le> 70)"

lemma word_tail_shorter:
  assumes "dropWhile (\<lambda>c. \<not> is_word_char c) sql \<noteq> []"
  shows "length (dropWhile is_word_char (dropWhile (\<lambda>c. \<not> is_word_char c) sql)) < length sql"
proof -
  let ?rest = "dropWhile (\<lambda>c. \<not> is_word_char c) sql"
  obtain c r where r: "?rest = c # r" using assms by (cases ?rest) auto
  have "is_word_char c" using hd_dropWhile [OF assms] r by simp
  then have "length (dropWhile is_word_char ?rest) \<le> length r"
    using length_dropWhile_le [of is_word_char r] by (simp add: r)
  also have "\<dots> < length ?rest" by (simp add: r)
  also have "\<dots> \<le> length sql" by (rule length_dropWhile_le)
  finally show ?thesis .
qed

function SqlAnonymous_loop :: "bool \<Rightarrow> string \<Rightarrow> string" where
  "SqlAnonymous_loop fullyAnonymizeFollowingDigits sql =
     (let gap = takeWhile (\<lambda>c. \<not> is_word_char c) sql;
          rest = dropWhile (\<lambda>c. \<not> is_word_char c) sql
      in if rest = [] then ByteAnonymous gap
         else
           (let word = takeWhile is_word_char rest;
                tail = dropWhile is_word_char rest
            in ByteAnonymous gap @
               (if IsKeyword word then word @ SqlAnonymous_loop False tail
                else if list_all is_hex_char word
                then AnonymousDigits word fullyAnonymizeFollowingDigits @ SqlAnonymous_loop True tail
                else GetAnonymousName word @ SqlAnonymous_loop False tail)))"
  by pat_completeness auto

termination
  by (relation "measure (\<lambda>(_, sql). length sql)") (auto simp: word_tail_shorter)

declare SqlAnonymous_loop.simps [simp del]

definition SqlAnonymous :: "string \<Rightarrow> string" where
  "SqlAnonymous sql = SqlAnonymous_loop False sql"

definition Anonymous :: "string \<Rightarrow> string" where
  "Anonymous srcFile =
     (case (str_find ''/'' srcFile, str_rfind ''/'' srcFile) of
        (Some pre, Some end_) \<Rightarrow>
          if end_ - pre < 6 then GetAnonymousName srcFile
          else
            (let path = take (end_ - pre) (drop pre srcFile);
                 path1 =
                   (case str_find ''/el'' path of
                      None \<Rightarrow> []
                    | Some area \<Rightarrow>
                        if area + 4 > length path then []
                        else if area + 5 < length path then take 4 (drop area path) @ ''/***''
                        else take 4 (drop area path));
                 fileName = GetAnonymousName (drop (end_ + 1) srcFile)
             in take (pre + 1) srcFile @ ''***'' @ path1 @ ''/'' @ fileName)
      | _ \<Rightarrow> GetAnonymousName srcFile)"

definition GetArea :: "string \<Rightarrow> string" where
  "GetArea srcFile =
     (case str_find ''/el'' srcFile of
        None \<Rightarrow> []
      | Some start \<Rightarrow>
          (case str_find_from ''/'' srcFile (start + 1) of
             Some end_ \<Rightarrow> take (end_ - start - 1) (drop (start + 1) srcFile)
           | None \<Rightarrow> []))"

section \<open>File names\<close>

definition RemoveSuffix :: "string \<Rightarrow> string" where
  "RemoveSuffix name =
     (case str_rfind ''.db'' name of
        None \<Rightarrow> name
      | Some pos \<Rightarrow> if pos < length name - 3 then name else take pos name)"

definition IsSlaveDbName :: "string \<Rightarrow> bool" where
  "IsSlaveDbName fileName =
     (if length fileName < length ''_slave.db'' then False
      else (case str_rfind ''_slave.db'' fileName of
              None \<Rightarrow> False
            | Some pos \<Rightarrow> pos = length fileName - length ''_slave.db''))"

definition GetSlavePath :: "string \<Rightarrow> string" where
  "GetSlavePath name =
     (case str_rfind ''.db'' name of
        None \<Rightarrow> name @ ''_slave.db''
      | Some pos \<Rightarrow>
          if pos < length name - 3 then name @ ''_slave.db'' else take pos name @ ''_slave.db'')"

definition GetMasterBackupPath :: "string \<Rightarrow> string" where
  "GetMasterBackupPath name =
     (case str_rfind ''.db'' name of
        None \<Rightarrow> name @ ''_master_corrupted.db''
      | Some pos \<Rightarrow>
          if pos < length name - 3 then name @ ''_master_corrupted.db''
          else take pos name @ ''_master_corrupted.db'')"

definition GetErrInfoFromMsg :: "string \<Rightarrow> string \<Rightarrow> string" where
  "GetErrInfoFromMsg message errStr =
     (case str_find errStr message of
        Some startPos \<Rightarrow> drop (startPos + length errStr) message
      | None \<Rightarrow> [])"

section \<open>Names of algorithms and codes\<close>

definition HmacAlgoDescription :: "int \<Rightarrow> string" where
  "HmacAlgoDescription hmacAlgo =
     (if hmacAlgo = 0 then ''sha1'' else if hmacAlgo = 1 then ''sha256''
      else if hmacAlgo = 2 then ''sha512'' else ''sha256'')"

definition KdfAlgoDescription :: "int \<Rightarrow> string" where
  "KdfAlgoDescription kdfAlgo =
     (if kdfAlgo = 0 then ''kdf_sha1'' else if kdfAlgo = 1 then ''kdf_sha256''
      else if kdfAlgo = 2 then ''kdf_sha512'' else ''kdf_sha256'')"

definition EncryptAlgoDescription :: "int \<Rightarrow> string" where
  "EncryptAlgoDescription encryptAlgo =
     (if encryptAlgo = 1 then ''aes-256-cbc'' else ''aes-256-gcm'')"

datatype RdbStatus = RDB_OK | RDB_ERROR | RDB_NO_META | RDB_PERMISSION_DENIED | RDB_SQLITE_BUSY
  | RDB_INVALID_ARGS | RDB_DB_NOT_EXIST | RDB_SQLITE_CORRUPT | RDB_SQLITE_ERROR | RDB_NOT_SUPPORT
  | RDB_NON_SYSTEM_APP | RDB_NO_SYNC_PERMISSION

fun ConvertRdbStatusNative :: "RdbStatus \<Rightarrow> int" where
  "ConvertRdbStatusNative RDB_OK = E_OK"
| "ConvertRdbStatusNative RDB_SQLITE_BUSY = E_SQLITE_BUSY"
| "ConvertRdbStatusNative RDB_INVALID_ARGS = E_INVALID_ARGS"
| "ConvertRdbStatusNative RDB_SQLITE_CORRUPT = E_SQLITE_CORRUPT"
| "ConvertRdbStatusNative RDB_SQLITE_ERROR = E_SQLITE_ERROR"
| "ConvertRdbStatusNative RDB_NOT_SUPPORT = E_NOT_SUPPORT_NEW"
| "ConvertRdbStatusNative RDB_DB_NOT_EXIST = E_DB_NOT_EXIST"
| "ConvertRdbStatusNative RDB_NON_SYSTEM_APP = E_NON_SYSTEM_APP"
| "ConvertRdbStatusNative _ = E_ERROR"

text \<open>The result codes of SQLite and the table of \<open>sqlite_errno.h\<close>, in increasing order.\<close>

definition SQLITE_OK :: int where "SQLITE_OK = 0"
definition SQLITE_MISMATCH :: int where "SQLITE_MISMATCH = 20"
definition SQLITE_ROW :: int where "SQLITE_ROW = 100"
definition SQLITE_DONE :: int where "SQLITE_DONE = 101"

definition SQLiteErrorCodes :: "(int \<times> int) list" where
  "SQLiteErrorCodes =
    [(1, E_SQLITE_ERROR), (3, E_SQLITE_PERM), (4, E_SQLITE_ABORT), (5, E_SQLITE_BUSY),
     (6, E_SQLITE_LOCKED), (7, E_SQLITE_NOMEM), (8, E_SQLITE_READONLY), (9, E_SQLITE_INTERRUPT),
     (10, E_SQLITE_IOERR), (11, E_SQLITE_CORRUPT), (13, E_SQLITE_FULL), (14, E_SQLITE_CANTOPEN),
     (17, E_SQLITE_SCHEMA), (18, E_SQLITE_TOOBIG), (19, E_SQLITE_CONSTRAINT),
     (SQLITE_MISMATCH, E_SQLITE_MISMATCH), (21, E_SQLITE_MISUSE), (26, E_SQLITE_CORRUPT),
     (66, E_SQLITE_META_RECOVERED), (SQLITE_ROW, E_OK), (SQLITE_DONE, E_NO_MORE_ROWS)]"

definition GetRdbErrorCode :: "int \<Rightarrow> int" where
  "GetRdbErrorCode errorCode =
     (let iter = lower_bound (\<lambda>a b. fst a < b) SQLiteErrorCodes errorCode
      in if iter < length SQLiteErrorCodes \<and> fst (SQLiteErrorCodes ! iter) = errorCode
         then snd (SQLiteErrorCodes ! iter) else - errorCode)"

section \<open>Files\<close>

type_synonym file_system = "string \<rightharpoonup> string"

record posix =
  can_create :: "string \<Rightarrow> bool"
  can_remove :: "string \<Rightarrow> bool"
  can_read :: "string \<Rightarrow> bool"
  written :: "string \<Rightarrow> string \<Rightarrow> string"

text \<open>
  \<open>remove\<close> with its error code told apart: \<open>0\<close>, \<open>ENOENT\<close> or another. \<open>ofstream\<close> on a path
  creates or truncates the file.
\<close>

definition DeleteFile :: "posix \<Rightarrow> string \<Rightarrow> file_system \<Rightarrow> bool \<times> file_system" where
  "DeleteFile P filePath fs =
     (if fs filePath = None then (True, fs)
      else if can_remove P filePath then (True, fs(filePath := None))
      else (False, fs))"

fun DeleteFiles :: "posix \<Rightarrow> string list \<Rightarrow> file_system \<Rightarrow> bool \<times> file_system" where
  "DeleteFiles P [] fs = (True, fs)"
| "DeleteFiles P (filePath # filePaths) fs =
     (let (r, fs1) = DeleteFile P filePath fs
      in if \<not> r then (False, fs1) else DeleteFiles P filePaths fs1)"

definition DeleteDirtyFiles :: "posix \<Rightarrow> string \<Rightarrow> file_system \<Rightarrow> bool \<times> file_system" where
  "DeleteDirtyFiles P backupFilePath fs =
     (let (r0, fs0) = DeleteFile P backupFilePath fs;
          (r1, fs1) = DeleteFile P (backupFilePath @ ''-shm'') fs0;
          (r2, fs2) = DeleteFile P (backupFilePath @ ''-wal'') fs1
      in (r2 \<and> r1 \<and> r0, fs2))"

definition CopyFile :: "posix \<Rightarrow> string \<Rightarrow> string \<Rightarrow> file_system \<Rightarrow> bool \<times> file_system" where
  "CopyFile P srcFile destFile fs =
     (case fs srcFile of
        None \<Rightarrow> (False, fs)
      | Some content \<Rightarrow>
          if \<not> can_read P srcFile then (False, fs)
          else if \<not> can_create P destFile then (False, fs)
          else (True, fs(destFile \<mapsto> written P destFile (if srcFile = destFile then [] else content))))"

definition GetFileSize :: "string \<Rightarrow> file_system \<Rightarrow> nat" where
  "GetFileSize fileName fs =
     (if fileName = [] then 0 else (case fs fileName of None \<Rightarrow> 0 | Some c \<Rightarrow> length c))"

definition IsFileEmpty :: "string \<Rightarrow> file_system \<Rightarrow> bool" where
  "IsFileEmpty filePath fs = (case fs filePath of None \<Rightarrow> True | Some c \<Rightarrow> length c = 0)"

fun IsFilesEmpty :: "string list \<Rightarrow> file_system \<Rightarrow> bool" where
  "IsFilesEmpty [] fs = True"
| "IsFilesEmpty (filePath # filePaths) fs =
     (if \<not> IsFileEmpty filePath fs then False else IsFilesEmpty filePaths fs)"

definition CleanFileContent :: "posix \<Rightarrow> string \<Rightarrow> file_system \<Rightarrow> bool \<times> file_system" where
  "CleanFileContent P filePath fs =
     (case fs filePath of
        None \<Rightarrow> (False, fs)
      | Some c \<Rightarrow> if length c < 20 * 1024 then (False, fs) else DeleteFile P filePath fs)"

subsection \<open>The marker files of the replica\<close>

abbreviation SLAVE_FAILURE :: string where "SLAVE_FAILURE \<equiv> ''-slaveFailure''"
abbreviation SLAVE_INTERRUPT :: string where "SLAVE_INTERRUPT \<equiv> ''-syncInterrupt''"
abbreviation SLAVE_RESTORE :: string where "SLAVE_RESTORE \<equiv> ''-restoring''"

definition open_trunc :: "posix \<Rightarrow> string \<Rightarrow> file_system \<Rightarrow> bool \<times> file_system" where
  "open_trunc P path fs = (if can_create P path then (True, fs(path \<mapsto> [])) else (False, fs))"

definition IsSlaveInvalid :: "string \<Rightarrow> file_system \<Rightarrow> bool" where
  "IsSlaveInvalid dbPath fs = (fs (dbPath @ SLAVE_FAILURE) \<noteq> None)"

definition IsSlaveInterrupted :: "string \<Rightarrow> file_system \<Rightarrow> bool" where
  "IsSlaveInterrupted dbPath fs = (fs (dbPath @ SLAVE_INTERRUPT) \<noteq> None)"

definition IsSlaveRestoring :: "string \<Rightarrow> file_system \<Rightarrow> bool" where
  "IsSlaveRestoring dbPath fs = (fs (dbPath @ SLAVE_RESTORE) \<noteq> None)"

definition SetSlaveInvalid :: "posix \<Rightarrow> string \<Rightarrow> file_system \<Rightarrow> int \<times> file_system" where
  "SetSlaveInvalid P dbPath fs =
     (if IsSlaveInvalid dbPath fs then (E_OK, fs)
      else (let (is_open, fs1) = open_trunc P (dbPath @ SLAVE_FAILURE) fs
            in if is_open then (E_OK, fs1) else (E_ERROR, fs1)))"

definition SetSlaveInterrupted :: "posix \<Rightarrow> string \<Rightarrow> file_system \<Rightarrow> int \<times> file_system" where
  "SetSlaveInterrupted P dbPath fs =
     (if IsSlaveInterrupted dbPath fs then (E_OK, fs)
      else (let (is_open, fs1) = open_trunc P (dbPath @ SLAVE_INTERRUPT) fs
            in if is_open then (E_OK, fs1) else (E_ERROR, fs1)))"

definition SetSlaveRestoring :: "posix \<Rightarrow> string \<Rightarrow> bool \<Rightarrow> file_system \<Rightarrow> int \<times> file_system" where
  "SetSlaveRestoring P dbPath isRestore fs =
     (if IsSlaveRestoring dbPath fs
      then (E_OK, if \<not> isRestore then snd (DeleteFile P (dbPath @ SLAVE_RESTORE) fs) else fs)
      else (let (is_open, fs1) = open_trunc P (dbPath @ SLAVE_RESTORE) fs
            in if is_open then (E_OK, fs1) else (E_ERROR, fs1)))"

definition SetSlaveValid :: "posix \<Rightarrow> string \<Rightarrow> file_system \<Rightarrow> file_system" where
  "SetSlaveValid P dbPath fs =
     snd (DeleteFile P (dbPath @ SLAVE_FAILURE) (snd (DeleteFile P (dbPath @ SLAVE_INTERRUPT) fs)))"

subsection \<open>The file of schema statements\<close>

record err_msg_state =
  isCreated :: bool
  isDeleted :: bool
  isRenamed :: bool

text \<open>\<open>getline\<close> until the end of the file.\<close>

function getlines :: "string \<Rightarrow> string list" where
  "getlines s =
     (if s = [] then []
      else takeWhile (\<lambda>c. c \<noteq> CHR 0x0A) s # getlines (drop 1 (dropWhile (\<lambda>c. c \<noteq> CHR 0x0A) s)))"
  by pat_completeness auto
termination
proof (relation "measure length")
  fix s :: string
  assume "s \<noteq> []"
  then show "(drop 1 (dropWhile (\<lambda>c. c \<noteq> CHR 0x0A) s), s) \<in> measure length"
    using length_dropWhile_le [of "\<lambda>c. c \<noteq> CHR 0x0A" s] by (cases s) (auto simp: le_Suc_eq)
qed simp

declare getlines.simps [simp del]

fun CompareTable_loop :: "string \<Rightarrow> string list \<Rightarrow> err_msg_state \<Rightarrow> err_msg_state" where
  "CompareTable_loop tableName [] state = state"
| "CompareTable_loop tableName (line # ls) state =
     (if str_find tableName line = None then CompareTable_loop tableName ls state
      else
        (let target = map to_upper line
         in CompareTable_loop tableName ls
              (if take 3 target = ''CRE''
               then state\<lparr>isCreated := True, isDeleted := False, isRenamed := False\<rparr>
               else if take 3 target = ''DRO'' then state\<lparr>isDeleted := True, isRenamed := False\<rparr>
               else if take 3 target = ''ALT'' \<and> str_find ''RENAME'' target \<noteq> None
               then state\<lparr>isDeleted := False, isRenamed := True\<rparr>
               else state)))"

fun CompareColumn_loop :: "string \<Rightarrow> string list \<Rightarrow> err_msg_state \<Rightarrow> err_msg_state" where
  "CompareColumn_loop columnName [] state = state"
| "CompareColumn_loop columnName (line # ls) state =
     (if str_find columnName line = None then CompareColumn_loop columnName ls state
      else
        (let target = map to_upper line
         in CompareColumn_loop columnName ls
              (if take 3 target = ''CRE'' \<or> take 3 target = ''ALT'' \<and> str_find ''ADD'' target \<noteq> None
               then state\<lparr>isCreated := True, isDeleted := False, isRenamed := False\<rparr>
               else if take 3 target = ''ALT'' \<and> str_find ''DROP'' target \<noteq> None
               then state\<lparr>isDeleted := True, isRenamed := False\<rparr>
               else if take 3 target = ''ALT'' \<and> str_find ''RENAME'' target \<noteq> None
               then state\<lparr>isDeleted := False, isRenamed := True\<rparr>
               else state)))"

definition new_err_msg_state :: err_msg_state where
  "new_err_msg_state = \<lparr>isCreated = False, isDeleted = False, isRenamed = False\<rparr>"

definition CompareTableFileContent :: "string \<Rightarrow> string \<Rightarrow> file_system \<Rightarrow> err_msg_state" where
  "CompareTableFileContent dbPath tableName fs =
     (case fs (dbPath @ ''-compare'') of
        None \<Rightarrow> new_err_msg_state
      | Some content \<Rightarrow> CompareTable_loop tableName (getlines content) new_err_msg_state)"

definition CompareColumnFileContent :: "string \<Rightarrow> string \<Rightarrow> file_system \<Rightarrow> err_msg_state" where
  "CompareColumnFileContent dbPath columnName fs =
     (case fs (dbPath @ ''-compare'') of
        None \<Rightarrow> new_err_msg_state
      | Some content \<Rightarrow> CompareColumn_loop columnName (getlines content) new_err_msg_state)"

subsection \<open>Modes of the parent directories\<close>

fun show_oct :: "nat \<Rightarrow> string" where
  "show_oct n = (if n < 8 then [digit_char n] else show_oct (n div 8) @ [digit_char (n mod 8)])"

declare show_oct.simps [simp del]

definition GetModeInfo :: "32 word \<Rightarrow> string" where
  "GetModeInfo st_mode =
     (let digits = show_oct (unat (and st_mode 0x1FF))
      in ''mode:'' @ (if and st_mode 0xF000 = 0x4000 then ''d'' else ''-'')
         @ replicate (3 - length digits) CHR ''0'' @ digits)"

fun GetParentModes_loop ::
    "(string \<Rightarrow> 32 word option) \<Rightarrow> nat \<Rightarrow> string \<Rightarrow> (string \<times> string) list \<Rightarrow> (string \<times> string) list" where
  "GetParentModes_loop stat 0 currentPath dirModes = dirModes"
| "GetParentModes_loop stat (Suc i) currentPath dirModes =
     (let parent = GetParentPath currentPath
      in if parent = ''/'' \<or> parent = [] then dirModes
         else GetParentModes_loop stat i parent
                (dirModes @ [(ExtractFileName parent,
                   case stat parent of Some m \<Rightarrow> GetModeInfo m | None \<Rightarrow> ''access_fail'')]))"

definition GetParentModes :: "(string \<Rightarrow> 32 word option) \<Rightarrow> string \<Rightarrow> int \<Rightarrow> string" where
  "GetParentModes stat path pathDepth =
     (let dirModes = GetParentModes_loop stat (nat pathDepth) path [];
          result = fold (\<lambda>it result.
             (if result \<noteq> [] then result @ '' <- '' else result)
             @ (if length (fst it) > 3 then take 3 (fst it) @ ''***'' else fst it) @ '':'' @ snd it)
             (rev dirModes) []
      in if result = [] then ''no_parent'' else result)"

section \<open>Substitution against a reference definition\<close>

function replace_all :: "string \<Rightarrow> string \<Rightarrow> string \<Rightarrow> string" where
  "replace_all rep dst s =
     (if rep = [] then s
      else (case str_find rep s of
              None \<Rightarrow> s
            | Some k \<Rightarrow> take k s @ dst @ replace_all rep dst (drop (k + length rep) s)))"
  by pat_completeness auto
termination
  by (relation "measure (\<lambda>(rep, dst, s). length s)")
    (auto dest!: str_find_Some simp flip: length_greater_0_conv)

declare replace_all.simps [simp del]

lemma Replace_loop_suffix:
  "pos \<le> length res \<Longrightarrow> Replace_loop rep dst res pos = take pos res @ replace_all rep dst (drop pos res)"
proof (induction rep dst res pos rule: Replace_loop.induct)
  case (1 rep dst res pos)
  show ?case
  proof (cases "rep = []")
    case True
    then show ?thesis by (simp add: Replace_loop.simps [of "[]"] replace_all.simps [of "[]"])
  next
    case rep: False
    show ?thesis
    proof (cases "str_find rep (drop pos res)")
      case None
      then show ?thesis
        using 1 rep by (simp add: Replace_loop.simps [of rep] replace_all.simps [of rep] str_find_from_def)
    next
      case (Some k)
      let ?k = "pos + k" and ?res = "take (pos + k) res @ dst @ drop (pos + k + length rep) res"
      have found: "str_find_from rep res pos = Some ?k" using Some 1 by (simp add: str_find_from_def)
      have len: "?k + length rep \<le> length res" using str_find_from_bounds [OF found] by simp
      have "Replace_loop rep dst res pos = Replace_loop rep dst ?res (?k + length dst)"
        using rep found by (subst Replace_loop.simps) (simp add: add.assoc)
      also have "\<dots> = take (?k + length dst) ?res @ replace_all rep dst (drop (?k + length dst) ?res)"
        using 1(1) [OF rep found] len by simp
      also have "\<dots> = take ?k res @ dst @ replace_all rep dst (drop (?k + length rep) res)"
        using len by simp
      also have "\<dots> = take pos res @ replace_all rep dst (drop pos res)"
      proof -
        have "replace_all rep dst (drop pos res) =
            take k (drop pos res) @ dst @ replace_all rep dst (drop (?k + length rep) res)"
          using rep Some by (subst replace_all.simps) (simp add: ac_simps)
        then show ?thesis by (simp add: take_add)
      qed
      finally show ?thesis .
    qed
  qed
qed

section \<open>The searched tables are sorted\<close>

lemma SQL_TYPE_MAP_sorted: "om_invar SQL_TYPE_MAP"
  by code_simp

lemma SQLiteErrorCodes_sorted: "om_invar SQLiteErrorCodes"
  by code_simp

lemma of_char_nonzero: "c \<noteq> CHR 0x00 \<Longrightarrow> (of_char c :: nat) \<noteq> 0"
  using of_char_eq_iff [of c "CHR 0x00", where ?'a = nat] by simp

lemma WordCompare_less:
  "CHR 0x00 \<notin> set a \<Longrightarrow> CHR 0x00 \<notin> set b \<Longrightarrow> WordCompare a b < 0 \<longleftrightarrow> a < b"
proof (induction a b rule: WordCompare.induct)
  case (2 b bs)
  then show ?case using of_char_nonzero [of b] by auto
next
  case (4 a as b bs)
  then show ?case by (auto simp: less_char_def)
qed auto

lemma WordCompare_eq:
  "CHR 0x00 \<notin> set a \<Longrightarrow> CHR 0x00 \<notin> set b \<Longrightarrow> WordCompare a b = 0 \<longleftrightarrow> a = b"
proof (induction a b rule: WordCompare.induct)
  case (2 b bs)
  then show ?case using of_char_nonzero [of b] by auto
next
  case (3 a as)
  then show ?case using of_char_nonzero [of a] by auto
qed auto

lemma IsLexSorted_sorted:
  "IsLexSorted ws \<Longrightarrow> list_all (\<lambda>w. CHR 0x00 \<notin> set w) ws \<Longrightarrow> sorted_wrt (<) ws"
proof (induction ws rule: IsLexSorted.induct)
  case (3 a b ws)
  then have "a < b" using WordCompare_less [of a b] by auto
  with 3 show ?case by (auto intro: less_trans [of a b])
qed auto

lemma lower_bound_member:
  assumes "sorted_wrt (<) ws" "list_all (\<lambda>w. CHR 0x00 \<notin> set w) ws" "CHR 0x00 \<notin> set v"
  shows "IsMatchKeyword ws v \<longleftrightarrow> v \<in> set ws"
  using assms
proof (induction ws)
  case Nil
  then show ?case by (simp add: IsMatchKeyword_def lower_bound_def)
next
  case (Cons w ws)
  show ?case
  proof (cases "w < v")
    case True
    with Cons show ?thesis
      by (auto simp: IsMatchKeyword_def lower_bound_def Let_def WordCompare_less)
  next
    case False
    with Cons.prems have "v \<notin> set ws" if "v \<noteq> w" using that by auto
    with False Cons.prems show ?thesis
      by (auto simp: IsMatchKeyword_def lower_bound_def Let_def WordCompare_less WordCompare_eq)
  qed
qed

lemma SQL_KEYWORD_sorted: "sorted_wrt (<) SQL_KEYWORD"
  and SQL_KEYWORD_plain: "list_all (\<lambda>w. CHR 0x00 \<notin> set w) SQL_KEYWORD"
proof -
  show p: "list_all (\<lambda>w. CHR 0x00 \<notin> set w) SQL_KEYWORD" by code_simp
  have "IsLexSorted SQL_KEYWORD" by code_simp
  from IsLexSorted_sorted [OF this p] show "sorted_wrt (<) SQL_KEYWORD" .
qed

lemma WHILE_KEYWORDS_sorted: "sorted_wrt (<) WHILE_KEYWORDS"
  and WHILE_KEYWORDS_plain: "list_all (\<lambda>w. CHR 0x00 \<notin> set w) WHILE_KEYWORDS"
proof -
  show p: "list_all (\<lambda>w. CHR 0x00 \<notin> set w) WHILE_KEYWORDS" by code_simp
  have "IsLexSorted WHILE_KEYWORDS" by code_simp
  from IsLexSorted_sorted [OF this p] show "sorted_wrt (<) WHILE_KEYWORDS" .
qed

lemma c_str_plain: "CHR 0x00 \<notin> set (c_str s)"
  by (auto simp: c_str_def dest: set_takeWhileD)

lemma IsKeyword_iff:
  "IsKeyword w \<longleftrightarrow> c_str (StrToUpper w) \<in> set SQL_KEYWORD \<union> set WHILE_KEYWORDS"
  by (simp add: IsKeyword_def c_str_plain
      lower_bound_member [OF SQL_KEYWORD_sorted SQL_KEYWORD_plain]
      lower_bound_member [OF WHILE_KEYWORDS_sorted WHILE_KEYWORDS_plain])

lemma GetRdbErrorCode_map:
  "GetRdbErrorCode e = (case map_of SQLiteErrorCodes e of Some r \<Rightarrow> r | None \<Rightarrow> - e)"
proof -
  let ?it = "lower_bound (\<lambda>a b. fst a < b) SQLiteErrorCodes e"
  have "\<not> fst (SQLiteErrorCodes ! ?it) < e" if "?it < length SQLiteErrorCodes"
    using nth_length_takeWhile [of "\<lambda>a. fst a < e" SQLiteErrorCodes] that
    by (simp add: lower_bound_def)
  then have "(?it < length SQLiteErrorCodes \<and> fst (SQLiteErrorCodes ! ?it) = e) \<longleftrightarrow>
      (?it < length SQLiteErrorCodes \<and> \<not> e < fst (SQLiteErrorCodes ! ?it))" by auto
  then show ?thesis
    by (simp add: GetRdbErrorCode_def Let_def
        lower_bound_lookup_default [OF SQLiteErrorCodes_sorted, symmetric])
qed

lemma GetSqlStatementType_map:
  assumes "list_all (\<lambda>c. is_space c \<or> is_cntrl c) lead" "3 < length body"
    "\<not> is_space (hd body)" "\<not> is_cntrl (hd body)"
  shows "GetSqlStatementType (lead @ body) =
    (case map_of SQL_TYPE_MAP (c_str (StrToUpper (take 3 body))) of
       Some t \<Rightarrow> t | None \<Rightarrow> STATEMENT_OTHER)"
proof -
  obtain b bs where body: "body = b # bs" using assms(2) by (cases body) auto
  have "takeWhile (\<lambda>ch. \<not> (\<not> is_space ch \<and> \<not> is_cntrl ch)) (lead @ body) = lead"
    using assms body by (subst takeWhile_append2) (auto simp: list_all_iff)
  moreover have "lead @ body \<noteq> []" "lead \<noteq> lead @ body" using body by auto
  ultimately show ?thesis
    using assms(2)
    by (simp add: GetSqlStatementType_def Let_def
        lower_bound_lookup_default [OF SQL_TYPE_MAP_sorted, symmetric])
qed

lemma of_char_to_upper:
  "(of_char (to_upper c) :: nat) = (let n = of_char c in if 97 \<le> n \<and> n \<le> 122 then n - 32 else n)"
  by (auto simp: to_upper_def Let_def intro!: mod_less)

lemma to_upper_idem [simp]: "to_upper (to_upper c) = to_upper c"
  by (rule of_char_eqI [where ?'a = nat]) (auto simp: of_char_to_upper Let_def)

lemma to_upper_class [simp]: "is_space (to_upper c) = is_space c" "is_cntrl (to_upper c) = is_cntrl c"
  by (auto simp: is_space_def is_cntrl_def of_char_to_upper Let_def)

section \<open>What anonymisation lets through\<close>

abbreviation ascii :: "string \<Rightarrow> bool" where
  "ascii s \<equiv> list_all (\<lambda>c. (of_char c :: nat) \<le> 0x7F) s"

lemma ascii_mono: "ascii s \<Longrightarrow> set t \<subseteq> set s \<Longrightarrow> ascii t"
  by (auto simp: list_all_iff)

lemma ascii_ByteAnonymous: "ascii (ByteAnonymous s)"
proof -
  have "ascii (ByteAnonymous_loop m s)" for m
    by (induction s arbitrary: m) auto
  then show ?thesis by (simp add: ByteAnonymous_def)
qed

lemma ascii_GetAnonymousName: "ascii s \<Longrightarrow> ascii (GetAnonymousName s)"
  by (auto simp: GetAnonymousName_def intro: ascii_mono dest: set_takeWhileD
      elim!: ascii_mono intro!: set_take_subset set_drop_subset)

lemma ascii_AnonymousDigits: "ascii s \<Longrightarrow> ascii (AnonymousDigits s f)"
  by (auto simp: AnonymousDigits_def Let_def elim!: ascii_mono intro!: set_drop_subset)

lemma ascii_word: "ascii (takeWhile is_word_char s)"
  by (auto simp: list_all_iff is_word_char_def Let_def dest!: set_takeWhileD)

lemma ascii_SqlAnonymous_loop: "ascii (SqlAnonymous_loop f sql)"
proof (induction f sql rule: SqlAnonymous_loop.induct)
  case (1 f sql)
  show ?case
    by (subst SqlAnonymous_loop.simps)
      (auto simp: Let_def 1 ascii_ByteAnonymous ascii_word ascii_GetAnonymousName ascii_AnonymousDigits)
qed

section \<open>Names of the replica\<close>

lemma slave_path_eq: "GetSlavePath n = RemoveSuffix n @ ''_slave.db''"
  by (simp add: GetSlavePath_def RemoveSuffix_def split: option.split)

lemma backup_path_eq: "GetMasterBackupPath n = RemoveSuffix n @ ''_master_corrupted.db''"
  by (simp add: GetMasterBackupPath_def RemoveSuffix_def split: option.split)

lemma IsSlaveDbName_suffix: "IsSlaveDbName (s @ ''_slave.db'')"
  using str_rfind_suffix [of "''_slave.db''" s] by (simp add: IsSlaveDbName_def)

section \<open>Properties\<close>

text \<open>
  A statement of more than three characters is classified by its first three characters after
  leading white space and control characters, in either case, exactly as the table of statement
  types says.
\<close>

lemma statement_type_by_prefix:
  assumes "list_all (\<lambda>c. is_space c \<or> is_cntrl c) lead" "3 < length body"
    "\<not> is_space (hd body)" "\<not> is_cntrl (hd body)"
  shows "GetSqlStatementType (lead @ body) = GetSqlStatementType (StrToUpper body)
    \<and> GetSqlStatementType (lead @ body) =
      (case map_of SQL_TYPE_MAP (c_str (StrToUpper (take 3 body))) of
         Some t \<Rightarrow> t | None \<Rightarrow> STATEMENT_OTHER)"
proof -
  obtain b bs where body: "body = b # bs" using assms(2) by (cases body) auto
  have "StrToUpper (take 3 (StrToUpper body)) = StrToUpper (take 3 body)"
    by (simp add: StrToUpper_def take_map)
  with GetSqlStatementType_map [OF assms] GetSqlStatementType_map [of "[]" "StrToUpper body"] assms
  show ?thesis by (simp add: body StrToUpper_def)
qed

text \<open>
  A statement of three characters or fewer is refused whatever it says, so \<open>END\<close>, which the
  table lists as a commit, is an error without a trailing character.
\<close>

lemma three_letter_statement:
  assumes "length sql \<le> 3"
  shows "GetSqlStatementType sql = STATEMENT_ERROR"
  using assms by (simp add: GetSqlStatementType_def Let_def)

text \<open>
  C21: what \<open>SqlAnonymous\<close> writes to the log is ASCII, whatever bytes the statement holds.
\<close>

theorem anonymised_sql_is_ascii:
  "list_all (\<lambda>c. (of_char c :: nat) \<le> 0x7F) (SqlAnonymous sql)"
  by (simp add: SqlAnonymous_def ascii_SqlAnonymous_loop)

text \<open>
  The path of the replica is always recognised as one, and two stores share it exactly when
  their names agree up to a final \<open>.db\<close>; so a store and its namesake without the suffix share
  the replica.
\<close>

lemma slave_path_shared_iff:
  "IsSlaveDbName (GetSlavePath x)
   \<and> (GetSlavePath x = GetSlavePath y \<longleftrightarrow> RemoveSuffix x = RemoveSuffix y)
   \<and> (GetMasterBackupPath x = GetMasterBackupPath y \<longleftrightarrow> RemoveSuffix x = RemoveSuffix y)
   \<and> RemoveSuffix (x @ ''.db'') = x"
  using str_rfind_suffix [of "''.db''" x]
  by (simp add: slave_path_eq backup_path_eq IsSlaveDbName_suffix RemoveSuffix_def)

text \<open>
  Clearing the restoring mark of a store that is not being restored sets it.
\<close>

lemma clear_restoring_sets_mark:
  assumes "\<not> IsSlaveRestoring dbPath fs" "can_create P (dbPath @ ''-restoring'')"
  shows "fst (SetSlaveRestoring P dbPath False fs) = E_OK
    \<and> IsSlaveRestoring dbPath (snd (SetSlaveRestoring P dbPath False fs))"
  using assms by (simp add: SetSlaveRestoring_def open_trunc_def IsSlaveRestoring_def)

text \<open>
  C20: \<open>SqliteUtils::Replace\<close>, which edits the string in place while it searches, gives on a
  nonempty text and pattern the left-to-right substitution of the pattern; it ends on every
  input, the replacement containing the pattern or not.
\<close>

theorem Replace_is_substitution:
  assumes "src \<noteq> []" "rep \<noteq> []"
  shows "Replace src rep dst = replace_all rep dst src"
  using assms Replace_loop_suffix [of 0 src rep dst] by (simp add: Replace_def)

theorem Replace_is_substitution_witness:
  "Replace ''#_a #_b'' ''#_'' ''x#_'' = ''x#_a x#_b''"
  using Replace_is_substitution [of "''#_a #_b''" "''#_''" "''x#_''"]
  by (simp add: replace_all.simps)

end
