(* ===== verification/Sql_Builder.thy ===== *)
theory Sql_Builder
  imports Rdb_Predicates Values_Buckets Sqlite_Utils
begin

text \<open>
  \<open>SqliteSqlBuilder\<close> (\<open>sqlite_sql_builder.cpp\<close>): the SQL text of a
  query over predicates, of the cursor, lock and log queries over a distributed table, and the
  batched \<open>INSERT\<close> of a \<open>ValuesBuckets\<close>, cut into statements under the limit on bound
  variables. A reference to a value of the batch is its address; \<open>None\<close> is \<open>nullRef_\<close>.
\<close>

abbreviation REP :: string where "REP \<equiv> ''#_''"
abbreviation SHARING_RESOURCE_FIELD :: string where "SHARING_RESOURCE_FIELD \<equiv> ''#_sharing_resource_field''"
abbreviation SHARING_RESOURCE :: string where "SHARING_RESOURCE \<equiv> ''sharing_resource''"
abbreviation RDBLOG :: string where "RDBLOG \<equiv> ''_log_''"

section \<open>Clauses\<close>

definition AppendClause :: "string \<Rightarrow> string \<Rightarrow> string \<Rightarrow> string \<Rightarrow> string" where
  "AppendClause builder name clause tbl =
     (if clause = [] then builder
      else builder @ name @ (if tbl \<noteq> [] then tbl @ ''.'' else []) @ clause)"

fun AppendColumns_loop :: "string list \<Rightarrow> string \<Rightarrow> nat \<Rightarrow> nat \<Rightarrow> string \<Rightarrow> string" where
  "AppendColumns_loop columns tbl 0 i builder = builder"
| "AppendColumns_loop columns tbl (Suc m) i builder =
     (let col = columns ! i
      in if col = [] then AppendColumns_loop columns tbl m (Suc i) builder
         else
           (let b1 = (if i > 0 \<and> columns ! (i - 1) \<noteq> [] then builder @ '', '' else builder);
                b2 = (if tbl \<noteq> [] then b1 @ tbl @ ''.'' else b1)
            in AppendColumns_loop columns tbl m (Suc i) (b2 @ col)))"

definition AppendColumns :: "string \<Rightarrow> string list \<Rightarrow> string \<Rightarrow> string" where
  "AppendColumns builder columns tbl =
     (let b = AppendColumns_loop columns tbl (length columns) 0 builder
      in if tbl = [] then b @ '' '' else b)"

definition AppendLimitAndOffset :: "string \<Rightarrow> int \<Rightarrow> int \<Rightarrow> string" where
  "AppendLimitAndOffset builder limit offset =
     (let limitStr = (if limit = INIT_LIMIT_VALUE then [] else to_string_int limit);
          offsetStr = (if offset = INIT_OFFSET_VALUE then [] else to_string_int offset)
      in AppendClause (AppendClause builder '' LIMIT '' limitStr []) '' OFFSET '' offsetStr [])"

definition GetSelectClause :: "string list \<Rightarrow> bool \<Rightarrow> string \<Rightarrow> string \<Rightarrow> string" where
  "GetSelectClause columns isDistinct ast tbl =
     (let sql = ''SELECT '' @ (if isDistinct then ''DISTINCT '' else [])
      in if columns \<noteq> [] then AppendColumns sql columns tbl else sql @ tbl @ ast)"

section \<open>Queries\<close>

definition BuildQueryString_raw ::
  "bool \<Rightarrow> string \<Rightarrow> string \<Rightarrow> string list \<Rightarrow> string \<Rightarrow> string \<Rightarrow> string \<Rightarrow> string \<Rightarrow> int \<Rightarrow> int \<Rightarrow> string
     \<Rightarrow> int \<times> string" where
  "BuildQueryString_raw dist tbl joinClause columns wher groupBy indexName orderBy limit offset outSql =
     (if tbl = [] then (E_EMPTY_TABLE_NAME, outSql)
      else
        (let s0 = GetSelectClause columns dist ''*'' [];
             s1 = AppendClause s0 '' FROM '' tbl [];
             s2 = AppendClause s1 '' INDEXED BY '' indexName [];
             s3 = AppendClause s2 '' '' joinClause [];
             s4 = AppendClause s3 '' WHERE '' wher [];
             s5 = AppendClause s4 '' GROUP BY '' groupBy [];
             s6 = AppendClause s5 '' ORDER BY '' orderBy []
         in (E_OK, AppendLimitAndOffset s6 limit offset)))"

text \<open>
  The join clause comes from the virtual \<open>GetJoinClause\<close>: it is the first argument, the empty
  string for an \<open>AbsRdbPredicates\<close> and the rendered joins for an \<open>RdbPredicates\<close>.
\<close>

definition BuildClauseFromPredicates :: "string \<Rightarrow> abs_rdb_predicates \<Rightarrow> string" where
  "BuildClauseFromPredicates joinClause p =
     (let s1 = AppendClause [] '' INDEXED BY '' (ap_index p) [];
          s2 = AppendClause s1 '' '' joinClause [];
          s3 = AppendClause s2 '' WHERE '' (whereClause p) [];
          s4 = AppendClause s3 '' GROUP BY '' (ap_group p) [];
          s5 = AppendClause s4 '' HAVING '' (havingClause p) [];
          s6 = AppendClause s5 '' ORDER BY '' (ap_order p) []
      in AppendLimitAndOffset s6 (ap_limit p) (ap_offset p))"

definition BuildQueryString :: "string \<Rightarrow> abs_rdb_predicates \<Rightarrow> string list \<Rightarrow> string" where
  "BuildQueryString joinClause p columns =
     (if tableName p = [] then []
      else
        (let s0 = GetSelectClause columns (ap_distinct p) ''*'' [];
             s1 = AppendClause s0 '' FROM '' (tableName p) []
         in s1 @ BuildClauseFromPredicates joinClause p))"

definition BuildCountString :: "string \<Rightarrow> abs_rdb_predicates \<Rightarrow> string" where
  "BuildCountString joinClause p =
     ''SELECT COUNT(*) FROM '' @ tableName p @ BuildClauseFromPredicates joinClause p"

definition AbsRdbPredicates_GetStatement :: "string \<Rightarrow> abs_rdb_predicates \<Rightarrow> string" where
  "AbsRdbPredicates_GetStatement joinClause p = BuildClauseFromPredicates joinClause p"

definition BuildCursorQueryString ::
  "abs_rdb_predicates \<Rightarrow> string list \<Rightarrow> string \<Rightarrow> bool \<Rightarrow> bool \<Rightarrow> string" where
  "BuildCursorQueryString p columns logTable hasShared hasCursor =
     (let tbl = tableName p
      in if tbl = [] \<or> logTable = [] then []
         else
           (let sql0 = GetSelectClause columns (ap_distinct p) ''.*'' tbl;
                logName = logTable @ ''.'';
                sql1 = (if hasShared
                        then (let field = Replace SHARING_RESOURCE_FIELD REP []
                              in Replace sql0 (tbl @ ''.'' @ SHARING_RESOURCE_FIELD)
                                   (logName @ SHARING_RESOURCE @ '' AS '' @ field))
                        else sql0);
                sql2 = (if hasCursor
                        then sql1 @ '', '' @ logTable @ ''.cursor'' @ '', CASE WHEN '' @ logTable @ ''.''
                          @ ''flag & 0x8 = 0x8 THEN true ELSE false END AS deleted_flag''
                          @ '', CASE WHEN '' @ logTable @ ''.''
                          @ ''flag & 0x808 = 0x808 THEN 3 WHEN '' @ logTable @ ''.flag & 0x800 = 0x800 THEN 1 WHEN ''
                          @ logTable @ ''.flag & 0x8 = 0x8 THEN 2 ELSE 0 END AS data_status''
                        else sql1);
                sql3 = AppendClause (sql2 @ '' FROM '' @ tbl) '' INDEXED BY '' (ap_index p) [];
                sql4 = sql3 @ '' INNER JOIN '' @ logTable @ '' ON '' @ tbl @ ''.ROWID = '' @ logTable @ ''.data_key'';
                sql5 = AppendClause sql4 '' WHERE '' (Replace (whereClause p) REP logName) [];
                sql6 = AppendClause sql5 '' GROUP BY '' (ap_group p) tbl;
                sql7 = AppendClause sql6 '' HAVING '' (Replace (havingClause p) REP logName) [];
                sql8 = AppendClause sql7 '' ORDER BY '' (Replace (ap_order p) REP logName) []
            in AppendLimitAndOffset sql8 (ap_limit p) (ap_offset p)))"

record DistributedInfo =
  di_flag :: "int option"
  di_oriDevice :: "string option"

abbreviation ORI_LOCAL :: int where "ORI_LOCAL \<equiv> 0"

definition BuildUpdateLogString :: "abs_rdb_predicates \<Rightarrow> string \<Rightarrow> DistributedInfo \<Rightarrow> string" where
  "BuildUpdateLogString p logTable info =
     (let tbl = tableName p;
          sql0 = ''UPDATE '' @ logTable @ '' SET '';
          sql1 = (case di_flag info of
                    None \<Rightarrow> sql0
                  | Some flag \<Rightarrow> sql0 @ (if flag = ORI_LOCAL then ''flag=flag|0x2'' else ''flag=flag&~0x2''));
          sql2 = (case di_oriDevice info of
                    None \<Rightarrow> sql1
                  | Some oriDevice \<Rightarrow>
                      (if di_flag info \<noteq> None then sql1 @ '', '' else sql1)
                        @ (if oriDevice = [] then ''ori_device= ?'' else ''ori_device=calc_hash(?, 0)''));
          alias = tbl @ RDBLOG;
          sql3 = sql2 @ '' WHERE data_key IN (SELECT '' @ tbl @ ''.rowid FROM '' @ tbl @ '' INNER JOIN ''
            @ ''(SELECT data_key AS '' @ alias @ ''data_key, flag AS '' @ alias @ ''flag, ori_device AS ''
            @ alias @ ''ori_device FROM '' @ logTable @ '')''
            @ '' AS log_data ON '' @ tbl @ ''.rowid = log_data.'' @ alias @ ''data_key''
      in AppendClause sql3 '' WHERE '' (Replace (whereClause p) REP alias) [] @ '')'')"

definition BuildLockRowQueryString :: "abs_rdb_predicates \<Rightarrow> string list \<Rightarrow> string \<Rightarrow> string" where
  "BuildLockRowQueryString p columns logTable =
     (let tbl = tableName p
      in if tbl = [] \<or> logTable = [] then []
         else
           (let sql0 = GetSelectClause columns (ap_distinct p) ''.*'' tbl;
                sql1 = AppendClause (sql0 @ '' FROM '' @ tbl) '' INDEXED BY '' (ap_index p) [];
                logName = logTable @ ''.'';
                sql2 = sql1 @ '' INNER JOIN '' @ logTable @ '' ON '' @ tbl @ ''.ROWID = '' @ logName @ ''data_key'';
                sql3 = (if whereClause p = []
                        then sql2 @ '' WHERE '' @ logName @ ''status = 2 OR '' @ logName @ ''status = 3 ''
                        else AppendClause sql2 '' WHERE '' (Replace (whereClause p) REP logName) []);
                sql4 = AppendClause sql3 '' GROUP BY '' (ap_group p) tbl;
                sql5 = AppendClause sql4 '' HAVING '' (Replace (havingClause p) REP logName) [];
                sql6 = AppendClause sql5 '' ORDER BY '' (Replace (ap_order p) REP logName) []
            in AppendLimitAndOffset sql6 (ap_limit p) (ap_offset p)))"

section \<open>Batched inserts\<close>

text \<open>
  \<open>GetSqlArgs\<close>: a string of \<open>2 * size - 1\<close> question marks whose odd positions become commas.
  For size 0 the length wraps to the largest \<open>size_t\<close>, more than a string can hold; \<open>None\<close> is
  that failure.
\<close>

fun GetSqlArgs_loop :: "nat \<Rightarrow> nat \<Rightarrow> string \<Rightarrow> string" where
  "GetSqlArgs_loop 0 i args = args"
| "GetSqlArgs_loop (Suc m) i args = GetSqlArgs_loop m (Suc i) (args[2 * i - 1 := CHR '',''])"

definition GetSqlArgs :: "nat \<Rightarrow> string option" where
  "GetSqlArgs sz =
     (if sz = 0 then None else Some (GetSqlArgs_loop (sz - 1) 1 (replicate (2 * sz - 1) CHR ''?'')))"

fun UpdateAssetStatus :: "32 word \<Rightarrow> value_object \<Rightarrow> value_object" where
  "UpdateAssetStatus status (VAsset a) = VAsset (a\<lparr>asset_status := status\<rparr>)"
| "UpdateAssetStatus status (VAssets as) = VAssets (map (\<lambda>a. a\<lparr>asset_status := status\<rparr>) as)"
| "UpdateAssetStatus status v = v"

definition g_onConflictClause :: "string list" where
  "g_onConflictClause = [[], '' OR ROLLBACK'', '' OR ABORT'', '' OR FAIL'', '' OR IGNORE'', '' OR REPLACE'']"

datatype ConflictResolution =
  ON_CONFLICT_NONE | ON_CONFLICT_ROLLBACK | ON_CONFLICT_ABORT | ON_CONFLICT_FAIL | ON_CONFLICT_IGNORE
  | ON_CONFLICT_REPLACE

primrec resolution_index :: "ConflictResolution \<Rightarrow> nat" where
  "resolution_index ON_CONFLICT_NONE = 0"
| "resolution_index ON_CONFLICT_ROLLBACK = 1"
| "resolution_index ON_CONFLICT_ABORT = 2"
| "resolution_index ON_CONFLICT_FAIL = 3"
| "resolution_index ON_CONFLICT_IGNORE = 4"
| "resolution_index ON_CONFLICT_REPLACE = 5"

text \<open>The lambda \<open>appendAgsSql\<close>; \<open>pop_back\<close> removes the last comma.\<close>

definition appendAgsSql :: "string \<Rightarrow> string \<Rightarrow> nat \<Rightarrow> string" where
  "appendAgsSql singleRowSqlArgs sql rowNumber =
     butlast (sql @ concat (replicate rowNumber (singleRowSqlArgs @ '','')))"

text \<open>The slices of the loop, and the arguments left after it.\<close>

fun slices :: "nat \<Rightarrow> nat \<Rightarrow> 'r list \<Rightarrow> 'r list list \<times> 'r list" where
  "slices 0 k args = ([], args)"
| "slices (Suc m) k args = (let (cs, rest) = slices m k (drop k args) in (take k args # cs, rest))"

definition trunc_div :: "int \<Rightarrow> int \<Rightarrow> int" where
  "trunc_div a b = sgn a * sgn b * (\<bar>a\<bar> div \<bar>b\<bar>)"

definition size_t :: "int \<Rightarrow> nat" where
  "size_t x = nat (x mod 2 ^ 64)"

definition MakeExecuteSqls ::
  "string \<Rightarrow> 'r list \<Rightarrow> int \<Rightarrow> int \<Rightarrow> (string \<times> 'r list list) list option" where
  "MakeExecuteSqls sql args fieldSize limit =
     (if fieldSize = 0 then Some []
      else
        (let rowNumbers = length args div size_t fieldSize;
             maxRowNumbersOneTimes = size_t (trunc_div limit fieldSize)
         in if maxRowNumbersOneTimes = 0 then Some []
            else (case GetSqlArgs (size_t fieldSize) of
              None \<Rightarrow> None
            | Some sqlArgs \<Rightarrow>
                (let executeTimes = rowNumbers div maxRowNumbersOneTimes;
                     remainingRows = rowNumbers mod maxRowNumbersOneTimes;
                     singleRowSqlArgs = ''('' @ sqlArgs @ '')'';
                     (chunks, rest) = slices executeTimes (maxRowNumbersOneTimes * size_t fieldSize) args
                 in Some ((if executeTimes \<noteq> 0
                           then [(appendAgsSql singleRowSqlArgs sql maxRowNumbersOneTimes, chunks)] else [])
                        @ (if remainingRows \<noteq> 0
                           then [(appendAgsSql singleRowSqlArgs sql remainingRows, [rest])] else []))))))"

definition update_heap :: "nat \<Rightarrow> values_buckets \<Rightarrow> values_buckets" where
  "update_heap a b =
     b\<lparr>vbs_heap := (vbs_heap b)[a := UpdateAssetStatus STATUS_INSERT (vbs_heap b ! a)]\<rparr>"

fun GenerateSqls_rows ::
  "nat \<Rightarrow> nat \<Rightarrow> string \<Rightarrow> nat \<Rightarrow> nat \<Rightarrow> values_buckets \<Rightarrow> nat option list \<Rightarrow> values_buckets \<times> nat option list" where
  "GenerateSqls_rows 0 row field columnIndex columnSize b args = (b, args)"
| "GenerateSqls_rows (Suc m) row field columnIndex columnSize b args =
     (case ValuesBuckets_Get row field b of
        (errorCode, ref) \<Rightarrow>
          if errorCode \<noteq> E_OK then GenerateSqls_rows m (Suc row) field columnIndex columnSize b args
          else GenerateSqls_rows m (Suc row) field columnIndex columnSize
            (case ref of None \<Rightarrow> b | Some a \<Rightarrow> update_heap a b)
            (args[columnIndex + row * columnSize := ref]))"

fun GenerateSqls_fields ::
  "string list \<Rightarrow> nat \<Rightarrow> nat \<Rightarrow> nat \<Rightarrow> values_buckets \<Rightarrow> nat option list \<Rightarrow> string
     \<Rightarrow> values_buckets \<times> nat option list \<times> string" where
  "GenerateSqls_fields [] columnIndex columnSize rowSize b args sql = (b, args, sql)"
| "GenerateSqls_fields (field # flds) columnIndex columnSize rowSize b args sql =
     (let (b', args') = GenerateSqls_rows rowSize 0 field columnIndex columnSize b args
      in GenerateSqls_fields flds (Suc columnIndex) columnSize rowSize b' args' (sql @ field @ '',''))"

definition GenerateSqls ::
  "string \<Rightarrow> values_buckets \<Rightarrow> int \<Rightarrow> ConflictResolution
     \<Rightarrow> (string \<times> nat option list list) list option \<times> values_buckets" where
  "GenerateSqls tbl b limit resolution =
     (let columnSize = length (vbs_fields b);
          rowSize = RowSize b;
          args = replicate (columnSize * rowSize) None;
          sql = ''INSERT'' @ g_onConflictClause ! resolution_index resolution @ '' INTO '' @ tbl @ '' ('';
          (b', args', sql') = GenerateSqls_fields (vbs_fields b) 0 columnSize rowSize b args sql
      in (MakeExecuteSqls (butlast sql' @ '') VALUES '') args' (to_i32 (int columnSize)) limit, b'))"

definition GetReturningSql :: "string list \<Rightarrow> string" where
  "GetReturningSql flds =
     (if flds = [] then [] else butlast ('' returning '' @ concat (map (\<lambda>field. field @ '','') flds)))"

section \<open>Placeholders of a row\<close>

lemma GetSqlArgs_loop_eq:
  "length pre = 2 * i - 1 \<Longrightarrow> 0 < i \<Longrightarrow>
     GetSqlArgs_loop m i (pre @ replicate (2 * m) CHR ''?'') = pre @ concat (replicate m '',?'')"
proof (induction m arbitrary: i pre)
  case (Suc m)
  have "(pre @ replicate (2 * Suc m) CHR ''?'')[2 * i - 1 := CHR '','']
      = (pre @ '',?'') @ replicate (2 * m) CHR ''?''"
    using Suc.prems(1) by (simp add: list_update_append)
  with Suc.IH [of "pre @ '',?''" "Suc i"] Suc.prems show ?case by simp
qed simp

lemma join_with_replicate: "join_with sep (replicate (Suc n) x) = x @ concat (replicate n (sep @ x))"
  by (induction n) auto

lemma GetSqlArgs_join: "0 < n \<Longrightarrow> GetSqlArgs n = Some (join_with '','' (replicate n ''?''))"
proof -
  assume "0 < n"
  then obtain m where n: "n = Suc m" by (cases n) auto
  have "replicate (2 * n - 1) CHR ''?'' = ''?'' @ replicate (2 * m) CHR ''?''" by (simp add: n)
  then show ?thesis
    using GetSqlArgs_loop_eq [of "''?''" 1 m] join_with_replicate [of "'',''" m "''?''"]
    by (simp add: GetSqlArgs_def n)
qed

lemma qmarks_row: "qmarks (''('' @ join_with '','' (replicate n ''?'') @ '')'') = n"
  by (simp add: count_join_with map_replicate_const sum_list_replicate)

lemma qmarks_appendAgsSql:
  assumes "0 < n" "qmarks row = k"
  shows "qmarks (appendAgsSql row sql n) = qmarks sql + n * k"
proof -
  obtain m where n: "n = Suc m" using assms(1) by (cases n) auto
  have "concat (replicate n (row @ '','')) = concat (replicate m (row @ '','')) @ row @ '',''"
    using concat_append [of "replicate m (row @ '','')" "[row @ '','']"]
    by (simp add: n replicate_append_same del: concat_append)
  then have "appendAgsSql row sql n = sql @ concat (replicate m (row @ '','')) @ row"
    by (simp add: appendAgsSql_def butlast_append)
  then show ?thesis
    using assms by (simp add: count_list_concat map_replicate_const sum_list_replicate n)
qed

section \<open>Chunking\<close>

lemma slices_eq:
  "m * k \<le> length xs \<Longrightarrow> slices m k xs = (cs, rest) \<Longrightarrow>
     concat cs @ rest = xs \<and> rest = drop (m * k) xs \<and> length cs = m \<and> list_all (\<lambda>c. length c = k) cs"
proof (induction m arbitrary: xs cs rest)
  case (Suc m)
  obtain cs' rest' where s: "slices m k (drop k xs) = (cs', rest')" by fastforce
  have "m * k \<le> length (drop k xs)" using Suc.prems(1) by simp
  from Suc.IH [OF this s] Suc.prems s show ?case by (auto simp: add.commute)
qed simp

lemma size_t_id: "0 \<le> x \<Longrightarrow> x < 2 ^ 64 \<Longrightarrow> size_t x = nat x"
  by (simp add: size_t_def)

lemma trunc_div_pos: "0 \<le> a \<Longrightarrow> 0 < b \<Longrightarrow> trunc_div a b = a div b"
  by (cases "a = 0") (simp_all add: trunc_div_def)

definition batch_ok :: "nat \<Rightarrow> int \<Rightarrow> string \<Rightarrow> string \<times> 'r list list \<Rightarrow> bool" where
  "batch_ok F limit sql sb \<longleftrightarrow>
     snd sb \<noteq> [] \<and> list_all (\<lambda>bat. bat \<noteq> [] \<and> int (length bat) \<le> limit \<and> length bat mod F = 0 \<and>
       qmarks (fst sb) = qmarks sql + length bat) (snd sb)"

lemma batch_ok_rows:
  assumes "0 < n" "0 < F" "int (n * F) \<le> limit" "bats \<noteq> []" "list_all (\<lambda>b. length b = n * F) bats"
  shows "batch_ok F limit sql (appendAgsSql (''('' @ join_with '','' (replicate F ''?'') @ '')'') sql n, bats)"
  using assms qmarks_appendAgsSql [OF assms(1) qmarks_row [of F]]
  by (auto simp: batch_ok_def list_all_iff)

lemma MakeExecuteSqls_chunks:
  fixes args :: "'r list"
  assumes F: "0 < F" "int F \<le> limit" and limit: "limit < 2 ^ 63" and len: "length args = F * rows"
  shows "\<exists>bs. MakeExecuteSqls sql args (int F) limit = Some bs
    \<and> concat (concat (map snd bs)) = args \<and> list_all (batch_ok F limit sql) bs"
proof -
  define M where "M = nat (limit div int F)"
  define E where "E = rows div M"
  have M: "0 < M" using F by (simp add: M_def pos_imp_zdiv_pos_iff)
  have MF: "int (M * F) \<le> limit"
  proof -
    have "0 \<le> limit mod int F" using F by simp
    then have "limit div int F * int F \<le> limit" using div_mult_mod_eq [of limit "int F"] by linarith
    moreover have "0 \<le> limit div int F" using F by (simp add: pos_imp_zdiv_nonneg_iff)
    ultimately show ?thesis by (simp add: M_def)
  qed
  have sz: "size_t (int F) = F" using F limit by (simp add: size_t_id)
  have Mi: "int M = limit div int F" using F by (simp add: M_def pos_imp_zdiv_nonneg_iff)
  have "M \<le> M * F" using F by (cases F) auto
  then have "int M \<le> int (M * F)" by (simp only: of_nat_le_iff)
  then have "int M < 2 ^ 64" using MF limit by simp
  then have mx: "size_t (trunc_div limit (int F)) = M"
    using F by (simp add: trunc_div_pos Mi [symmetric] size_t_id)
  obtain cs rest where sl: "slices E (M * F) args = (cs, rest)" by fastforce
  have rows: "rows = E * M + rows mod M" by (simp add: E_def)
  have "E * (M * F) \<le> length args" using rows len by (metis le_add1 mult.assoc mult.commute mult_le_mono1)
  from slices_eq [OF this sl] have cs: "concat cs @ rest = args" "length cs = E"
    "list_all (\<lambda>c. length c = M * F) cs" and rest: "rest = drop (E * (M * F)) args" by auto
  have lr: "length rest = (rows mod M) * F"
    using len rest rows by (simp add: algebra_simps) (metis add_diff_cancel_left' add_mult_distrib2 mult.commute mult.left_commute)
  let ?row = "''('' @ join_with '','' (replicate F ''?'') @ '')''"
  have run: "MakeExecuteSqls sql args (int F) limit = Some
     ((if E \<noteq> 0 then [(appendAgsSql ?row sql M, cs)] else [])
      @ (if rows mod M \<noteq> 0 then [(appendAgsSql ?row sql (rows mod M), [rest])] else []))"
    using F M len sl by (simp add: MakeExecuteSqls_def sz mx GetSqlArgs_join E_def Let_def)
  have "batch_ok F limit sql (appendAgsSql ?row sql M, cs)" if "E \<noteq> 0"
    using that cs by (intro batch_ok_rows M F MF) auto
  moreover have "batch_ok F limit sql (appendAgsSql ?row sql (rows mod M), [rest])" if "rows mod M \<noteq> 0"
  proof (rule batch_ok_rows)
    have "rows mod M * F \<le> M * F" using M by (simp add: less_imp_le)
    then show "int (rows mod M * F) \<le> limit" using MF by linarith
  qed (use that F lr in auto)
  moreover have "E = 0 \<Longrightarrow> cs = []" "rows mod M = 0 \<Longrightarrow> rest = []" using cs lr by auto
  ultimately show ?thesis
    using run cs(1) by (intro exI [of _ "(if E \<noteq> 0 then [(appendAgsSql ?row sql M, cs)] else [])
      @ (if rows mod M \<noteq> 0 then [(appendAgsSql ?row sql (rows mod M), [rest])] else [])"]) auto
qed

section \<open>The argument matrix of a batch\<close>

lemma matrix_index:
  assumes "c < C" "j < (C :: nat)"
  shows "c + r * C = j + q * C \<longleftrightarrow> c = j \<and> r = q"
proof
  assume eq: "c + r * C = j + q * C"
  have "(c + r * C) mod C = (j + q * C) mod C" "(c + r * C) div C = (j + q * C) div C" using eq by simp_all
  then show "c = j \<and> r = q" using assms by simp
qed simp

lemma matrix_bound: "c < C \<Longrightarrow> r < R \<Longrightarrow> c + r * C < C * (R :: nat)"
proof -
  assume "c < C" "r < R"
  then have "c + r * C < C + r * C" "Suc r * C \<le> R * C" by (simp, intro mult_le_mono1, simp)
  then show ?thesis by (simp add: mult.commute)
qed

definition matrix_upto ::
  "values_buckets \<Rightarrow> string list \<Rightarrow> nat \<Rightarrow> nat \<Rightarrow> nat \<Rightarrow> nat option list \<Rightarrow> bool" where
  "matrix_upto b flds R j row args \<longleftrightarrow>
     length args = length flds * R \<and>
     (\<forall>r < R. \<forall>c < length flds. args ! (c + r * length flds) =
        (if c < j \<or> c = j \<and> r < row then snd (ValuesBuckets_Get r (flds ! c) b) else None))"

lemma Get_cases:
  "(fst (ValuesBuckets_Get r f b) = E_OK \<and> (\<exists>a. snd (ValuesBuckets_Get r f b) = Some a))
     \<or> (fst (ValuesBuckets_Get r f b) = E_INVALID_ARGS \<and> snd (ValuesBuckets_Get r f b) = None)"
  by (auto simp: ValuesBuckets_Get_def split: option.split)

lemma Get_update_heap [simp]: "ValuesBuckets_Get r f (update_heap a b) = ValuesBuckets_Get r f b"
  by (simp add: ValuesBuckets_Get_def update_heap_def)

lemma matrix_upto_cong:
  "(\<And>r f. ValuesBuckets_Get r f b' = ValuesBuckets_Get r f b) \<Longrightarrow>
     matrix_upto b' flds R j row args = matrix_upto b flds R j row args"
  by (simp add: matrix_upto_def)

lemma matrix_upto_set:
  assumes "matrix_upto b flds R j row args" "j < length flds" "row < R"
  shows "matrix_upto b flds R j (Suc row)
    (args[j + row * length flds := snd (ValuesBuckets_Get row (flds ! j) b)])"
proof -
  have "j + row * length flds < length args"
    using assms matrix_bound [of j "length flds" row R] by (simp add: matrix_upto_def)
  then show ?thesis
    using assms matrix_index [OF assms(2)]
    by (auto simp: matrix_upto_def nth_list_update less_Suc_eq)
qed

lemma matrix_upto_skip:
  assumes "matrix_upto b flds R j row args" "snd (ValuesBuckets_Get row (flds ! j) b) = None"
  shows "matrix_upto b flds R j (Suc row) args"
  using assms by (auto simp: matrix_upto_def less_Suc_eq)

lemma GenerateSqls_rows_matrix:
  "GenerateSqls_rows m row (flds ! j) j (length flds) b args = (b', args') \<Longrightarrow>
     matrix_upto b flds R j row args \<Longrightarrow> j < length flds \<Longrightarrow> row + m = R \<Longrightarrow>
     matrix_upto b' flds R j R args' \<and> (\<forall>r f. ValuesBuckets_Get r f b' = ValuesBuckets_Get r f b)"
proof (induction m arbitrary: row b args)
  case (Suc m)
  let ?G = "ValuesBuckets_Get row (flds ! j) b"
  note set = matrix_upto_set [OF Suc.prems(2,3)] and skip = matrix_upto_skip [OF Suc.prems(2)]
  from Get_cases [of row "flds ! j" b] show ?case
  proof (elim disjE conjE exE)
    fix a
    assume G: "fst ?G = E_OK" "snd ?G = Some a"
    then have run: "GenerateSqls_rows m (Suc row) (flds ! j) j (length flds) (update_heap a b)
        (args[j + row * length flds := snd ?G]) = (b', args')"
      using Suc.prems(1) by (simp add: prod.case_eq_if)
    have "matrix_upto (update_heap a b) flds R j (Suc row) (args[j + row * length flds := snd ?G])"
      using set Suc.prems(4) matrix_upto_cong [of "update_heap a b" b] by simp
    from Suc.IH [OF run this Suc.prems(3)] Suc.prems(4) show ?thesis by simp
  next
    assume G: "fst ?G = E_INVALID_ARGS" "snd ?G = None"
    then have run: "GenerateSqls_rows m (Suc row) (flds ! j) j (length flds) b args = (b', args')"
      using Suc.prems(1) by (simp add: prod.case_eq_if errno)
    from Suc.IH [OF run skip [OF G(2)] Suc.prems(3)] Suc.prems(4) show ?thesis by simp
  qed
qed simp

lemma matrix_upto_next: "matrix_upto b flds R j R args \<Longrightarrow> matrix_upto b flds R (Suc j) 0 args"
  by (auto simp: matrix_upto_def less_Suc_eq)

lemma GenerateSqls_fields_matrix:
  "GenerateSqls_fields (drop j flds) j (length flds) R b args sql = (b', args', sql') \<Longrightarrow>
     matrix_upto b flds R j 0 args \<Longrightarrow> j \<le> length flds \<Longrightarrow>
     matrix_upto b' flds R (length flds) 0 args' \<and> (\<forall>r f. ValuesBuckets_Get r f b' = ValuesBuckets_Get r f b)
       \<and> sql' = sql @ concat (map (\<lambda>f. f @ '','') (drop j flds))"
proof (induction "length flds - j" arbitrary: j b args sql)
  case (Suc n)
  then have j: "j < length flds" by simp
  obtain b1 args1 where rows:
    "GenerateSqls_rows R 0 (flds ! j) j (length flds) b args = (b1, args1)" by fastforce
  from GenerateSqls_rows_matrix [OF rows Suc.prems(2) j]
  have M: "matrix_upto b1 flds R (Suc j) 0 args1" "\<forall>r f. ValuesBuckets_Get r f b1 = ValuesBuckets_Get r f b"
    by (auto intro: matrix_upto_next)
  have run: "GenerateSqls_fields (drop (Suc j) flds) (Suc j) (length flds) R b1 args1 (sql @ flds ! j @ '','')
      = (b', args', sql')"
    using Suc.prems(1) rows by (simp add: Cons_nth_drop_Suc [OF j, symmetric])
  have "n = length flds - Suc j" using Suc.hyps(2) by simp
  from Suc.hyps(1) [OF this run M(1)] j M(2) show ?case
    by (simp add: Cons_nth_drop_Suc [OF j, symmetric])
qed simp

lemma matrix_upto_rows:
  assumes "matrix_upto b flds R (length flds) 0 args"
  shows "args = concat (map (\<lambda>r. map (\<lambda>f. snd (ValuesBuckets_Get r f b)) flds) [0..<R])"
proof -
  let ?C = "length flds" and ?row = "\<lambda>r. map (\<lambda>f. snd (ValuesBuckets_Get r f b)) flds"
  have "take (n * ?C) args = concat (map ?row [0..<n])" if "n \<le> R" for n
    using that
  proof (induction n)
    case (Suc n)
    have b: "n * ?C + ?C \<le> length args"
      using Suc.prems assms mult_le_mono1 [of "Suc n" R ?C] by (simp add: matrix_upto_def mult.commute)
    have "take ?C (drop (n * ?C) args) = ?row n"
      using assms Suc.prems b by (intro nth_equalityI) (auto simp: matrix_upto_def add.commute)
    then show ?case
      using Suc b take_add [of "n * ?C" ?C args] by (simp add: add.commute)
  qed simp
  from this [of R] show ?thesis using assms by (simp add: matrix_upto_def mult.commute)
qed

lemma matrix_upto_start: "matrix_upto b flds R 0 0 (replicate (length flds * R) None)"
  by (auto simp: matrix_upto_def matrix_bound)

section \<open>Column lists against a reference definition\<close>

definition qual_col :: "string \<Rightarrow> string \<Rightarrow> string" where
  "qual_col tbl col = (if tbl \<noteq> [] then tbl @ ''.'' @ col else col)"

lemma AppendColumns_loop_join:
  assumes "list_all (\<lambda>c. c \<noteq> []) columns" "i + m = length columns"
  shows "AppendColumns_loop columns tbl m i b =
    b @ (if 0 < i \<and> 0 < m then '', '' else []) @ join_with '', '' (map (qual_col tbl) (drop i columns))"
  using assms
proof (induction m arbitrary: i b)
  case (Suc m)
  have i: "i < length columns" using Suc.prems by simp
  have ne: "columns ! i \<noteq> []" "0 < i \<Longrightarrow> columns ! (i - 1) \<noteq> []"
    using Suc.prems i by (auto simp: list_all_length)
  have d: "drop i columns = columns ! i # drop (Suc i) columns" using i by (simp add: Cons_nth_drop_Suc)
  show ?case
  proof (cases "m = 0")
    case True
    then show ?thesis using Suc.prems ne d by (simp add: qual_col_def Let_def)
  next
    case False
    then have "drop (Suc i) columns \<noteq> []" using Suc.prems by simp
    then show ?thesis
      using Suc ne d False by (simp add: qual_col_def Let_def join_with_Cons)
  qed
qed simp

section \<open>Properties\<close>

text \<open>
  C3: the batched insert of a \<open>ValuesBuckets\<close> with at least one and at most \<open>limit\<close> columns:
  the arguments of all statements, in order, are exactly the rows of the batch read column by
  column, with the null reference where a row lacks a column; every execution binds at least
  one and at most \<open>limit\<close> variables, a whole number of rows, and as many as its statement has
  placeholders beyond those of the statement's head.
\<close>

theorem batch_insert_partition:
  assumes "vbs_fields b \<noteq> []" "int (length (vbs_fields b)) \<le> limit" "limit < 2 ^ 31"
  shows "\<exists>bs. fst (GenerateSqls tbl b limit resolution) = Some bs
    \<and> concat (concat (map snd bs)) =
        concat (map (\<lambda>r. map (\<lambda>f. snd (ValuesBuckets_Get r f b)) (vbs_fields b)) [0..<RowSize b])
    \<and> list_all (batch_ok (length (vbs_fields b)) limit
        (''INSERT'' @ g_onConflictClause ! resolution_index resolution @ '' INTO '' @ tbl @ '' (''
          @ join_with '','' (vbs_fields b) @ '') VALUES '')) bs"
proof -
  let ?flds = "vbs_fields b" and ?R = "RowSize b"
  let ?head = "''INSERT'' @ g_onConflictClause ! resolution_index resolution @ '' INTO '' @ tbl @ '' (''"
  obtain b' args' sql' where run: "GenerateSqls_fields ?flds 0 (length ?flds) ?R b
      (replicate (length ?flds * ?R) None) ?head = (b', args', sql')"
    by (metis prod_cases3)
  from GenerateSqls_fields_matrix [of 0 ?flds ?R b _ ?head b' args' sql'] run matrix_upto_start
  have M: "matrix_upto b' ?flds ?R (length ?flds) 0 args'"
    and G: "\<forall>r f. ValuesBuckets_Get r f b' = ValuesBuckets_Get r f b"
    and S: "sql' = ?head @ concat (map (\<lambda>f. f @ '','') ?flds)" by simp_all
  have args: "args' = concat (map (\<lambda>r. map (\<lambda>f. snd (ValuesBuckets_Get r f b)) ?flds) [0..<?R])"
    using matrix_upto_rows [OF M] G by simp
  have sql: "butlast sql' = ?head @ join_with '','' ?flds"
    using assms(1) by (simp add: S concat_comma_join butlast_append)
  have F: "0 < length ?flds" using assms(1) by simp
  have "length args' = length ?flds * ?R" using M by (simp add: matrix_upto_def)
  moreover have "limit < 2 ^ 63" using assms(3) by simp
  ultimately obtain bs where "MakeExecuteSqls (butlast sql' @ '') VALUES '') args' (int (length ?flds)) limit = Some bs"
    "concat (concat (map snd bs)) = args'" "list_all (batch_ok (length ?flds) limit (butlast sql' @ '') VALUES '')) bs"
    using MakeExecuteSqls_chunks [OF F assms(2)] by blast
  moreover have "to_i32 (int (length ?flds)) = int (length ?flds)"
    using assms(2,3) by (intro to_i32_id) simp_all
  ultimately show ?thesis
    using run args sql by (simp add: GenerateSqls_def)
qed

theorem batch_insert_partition_witness:
  "\<exists>bs. fst (GenerateSqls ''t'' (ValuesBuckets_of [[(''a'', VInt 1), (''b'', VInt 2)], [(''b'', VInt 1)]]) 3
      ON_CONFLICT_REPLACE) = Some bs \<and> concat (concat (map snd bs)) = [Some 0, Some 1, None, Some 0]"
proof -
  let ?b = "ValuesBuckets_of [[(''a'', VInt 1), (''b'', VInt 2)], [(''b'', VInt 1)]]"
  have b: "?b = \<lparr>vbs_fields = [''a'', ''b''], vbs_heap = [VInt 1, VInt 2], vbs_values = [0, 1],
      vbs_rows = [[(''a'', 0), (''b'', 1)], [(''b'', 0)]]\<rparr>"
    by (simp add: ValuesBuckets_of_def ValuesBuckets_Put_def ValuesBuckets_new_def set_insert_def
      addr_less_def vo_less_def)
  show ?thesis
    using batch_insert_partition [of ?b 3 "''t''" ON_CONFLICT_REPLACE]
    by (auto simp: b RowSize_def ValuesBuckets_Get_def upt_rec)
qed

text \<open>
  A column list without empty names is rendered as the names, qualified by the table if
  one is given, separated by commas.
\<close>

lemma AppendColumns_join:
  assumes "list_all (\<lambda>c. c \<noteq> []) columns"
  shows "AppendColumns builder columns tbl = builder @ join_with '', '' (map (qual_col tbl) columns)
    @ (if tbl = [] then '' '' else [])"
  using AppendColumns_loop_join [OF assms, of 0 "length columns" tbl builder]
  by (simp add: AppendColumns_def)

text \<open>
  An empty column name between two others swallows the comma: the two names are run
  together.
\<close>

lemma AppendColumns_empty_name:
  assumes "a \<noteq> []" "c \<noteq> []"
  shows "AppendColumns builder [a, [], c] [] = builder @ a @ c @ '' ''"
  using assms by (simp add: AppendColumns_def numeral_3_eq_3 Let_def)

text \<open>
  Predicates with an offset and no limit produce an \<open>OFFSET\<close> without \<open>LIMIT\<close>, which is not
  SQL.
\<close>

lemma offset_without_limit:
  assumes "0 \<le> n"
  shows "BuildClauseFromPredicates [] (Offset n (RdbPredicates_new tbl)) = '' OFFSET '' @ to_string_int n"
  using assms
  by (simp add: BuildClauseFromPredicates_def AppendLimitAndOffset_def AppendClause_def Offset_def
    RdbPredicates_new_def InitialParam_def AbsRdbPredicates_table_def new_rdb_def
    abs_predicates.extend_def AbsPredicates_new_def Initial_def INIT_OFFSET_VALUE_def INT_MIN_def Let_def)

end
