(* ===== verification/Query_Building.thy ===== *)
theory Query_Building
  imports Sql_Builder
begin

text \<open>
  From predicates to the text of a query: the placeholders of the statement that
  \<open>SqliteSqlBuilder\<close> renders from predicates built with \<open>AbsRdbPredicates\<close> are those of the where
  clause, so they are as many as the arguments the store binds to it.
\<close>

section \<open>The clauses beside the where clause\<close>

text \<open>The names a builder call writes into the statement.\<close>

definition call_names :: "ap_call \<Rightarrow> string list" where
  "call_names c = call_field c #
     (case c of C_OrderByAsc f \<Rightarrow> [f] | C_OrderByDesc f \<Rightarrow> [f] | C_GroupBy fs \<Rightarrow> fs | C_IndexedBy i \<Rightarrow> [i] | _ \<Rightarrow> [])"

definition other_marks :: "'a abs_predicates_scheme \<Rightarrow> nat" where
  "other_marks p = qmarks (ap_order p) + qmarks (ap_group p) + qmarks (ap_index p) + qmarks (havingClause p)"

lemma other_marks_frames [simp]:
  "other_marks (NotEqualTo f v p) = other_marks p"
  "other_marks (BeginWrap p) = other_marks p"
  "other_marks (EndWrap p) = other_marks p"
  "other_marks (Or_op p) = other_marks p"
  "other_marks (And_op p) = other_marks p"
  "other_marks (Contains f s p) = other_marks p"
  "other_marks (NotContains f s p) = other_marks p"
  "other_marks (BeginsWith f s p) = other_marks p"
  "other_marks (EndsWith f s p) = other_marks p"
  "other_marks (IsNull f p) = other_marks p"
  "other_marks (IsNotNull f p) = other_marks p"
  "other_marks (Like f s p) = other_marks p"
  "other_marks (NotLike f s p) = other_marks p"
  "other_marks (Glob f s p) = other_marks p"
  "other_marks (NotGlob f s p) = other_marks p"
  "other_marks (Between f l h p) = other_marks p"
  "other_marks (NotBetween f l h p) = other_marks p"
  "other_marks (GreaterThan f v p) = other_marks p"
  "other_marks (LessThan f v p) = other_marks p"
  "other_marks (GreaterThanOrEqualTo f v p) = other_marks p"
  "other_marks (LessThanOrEqualTo f v p) = other_marks p"
  "other_marks (Distinct p) = other_marks p"
  "other_marks (Limit n p) = other_marks p"
  "other_marks (Offset n p) = other_marks p"
  "other_marks (Limit2 m n p) = other_marks p"
  "other_marks (In_values f vs p) = other_marks p"
  "other_marks (NotIn_values f vs p) = other_marks p"
  by (simp_all add: other_marks_def builder_defs Let_def In_values_def NotIn_values_def
    AppendWhereClauseWithInOrNotIn_def BeginWrap_def EndWrap_def Or_op_def
    CheckIsNeedAnd_def add_where_def push_args_def mark_field_def split: sum.split)

lemma EqualTo_other_marks:
  "EqualTo f v p = Some q \<Longrightarrow> other_marks q = other_marks p"
  by (auto simp: other_marks_def EqualTo_def Let_def CheckIsNeedAnd_def add_where_def push_args_def mark_field_def
      split: if_splits sum.splits option.splits)

lemma count_list_removeAll: "count_list (removeAll a xs) b = (if a = b then 0 else count_list xs b)"
  by (induction xs) auto

lemma count_list_take_drop_le: "count_list (take i xs @ drop (i + 1) xs) c \<le> count_list xs c"
proof -
  have "count_list xs c = count_list (take i xs) c + count_list (drop i xs) c"
    by (metis append_take_drop_id count_list_append)
  moreover have "count_list (drop (Suc i) xs) c \<le> count_list (drop i xs) c"
    by (cases "i < length xs") (simp_all add: Cons_nth_drop_Suc [symmetric])
  ultimately show ?thesis by simp
qed

lemma GroupBy_loop_marks:
  assumes "list_all (\<lambda>f. qmarks f = 0) fs"
  shows "(case GroupBy_loop fs g of Inl r \<Rightarrow> qmarks r | Inr r \<Rightarrow> qmarks r) = qmarks g"
  using assms by (induction fs arbitrary: g) auto

lemma GroupBy_marks:
  assumes "list_all (\<lambda>f. qmarks f = 0) fs"
  shows "other_marks (GroupBy fs p) \<le> other_marks p"
proof (cases "GroupBy_loop fs (ap_group p)")
  case (Inl g)
  with GroupBy_loop_marks [OF assms, of "ap_group p"] show ?thesis by (simp add: GroupBy_def other_marks_def)
next
  case (Inr g)
  then have g: "qmarks g = qmarks (ap_group p)" using GroupBy_loop_marks [OF assms, of "ap_group p"] by simp
  have "qmarks (case str_find_last_of '','' g of None \<Rightarrow> g | Some pos \<Rightarrow> str_erase1 pos g) \<le> qmarks (ap_group p)"
    using count_list_take_drop_le [of _ g] by (auto simp: g [symmetric] str_erase1_def split: option.split)
  with Inr show ?thesis by (simp add: GroupBy_def other_marks_def)
qed

lemma IndexedBy_marks: "qmarks i = 0 \<Longrightarrow> other_marks (IndexedBy i p) \<le> other_marks p"
  by (simp add: IndexedBy_def RemoveQuotes_def other_marks_def count_list_removeAll)

lemma OrderBy_marks:
  "qmarks f = 0 \<Longrightarrow> other_marks (OrderByAsc f p) = other_marks p"
  "qmarks f = 0 \<Longrightarrow> other_marks (OrderByDesc f p) = other_marks p"
  by (simp_all add: OrderByAsc_def OrderByDesc_def mark_field_def other_marks_def Let_def)

lemma ap_exec_other_marks:
  assumes "ap_exec c p = Some q" "list_all (\<lambda>f. qmarks f = 0) (call_names c)"
  shows "other_marks q \<le> other_marks p"
  using assms
  by (cases c)
    (auto simp: call_names_def In_strings_def NotIn_strings_def OrderBy_marks GroupBy_marks IndexedBy_marks
      dest: EqualTo_other_marks)

lemma ap_run_other_marks:
  "ap_run cs p = Some q \<Longrightarrow> list_all (\<lambda>c. list_all (\<lambda>f. qmarks f = 0) (call_names c)) cs \<Longrightarrow>
     other_marks q \<le> other_marks p"
proof (induction cs arbitrary: p)
  case (Cons c cs)
  from Cons.prems(1) obtain r where r: "ap_exec c p = Some r" "ap_run cs r = Some q"
    by (auto split: option.splits)
  with ap_exec_other_marks [OF r(1)] Cons.IH [OF r(2)] Cons.prems(2) show ?case by simp
qed simp

section \<open>The text of the query\<close>

lemma qmarks_AppendClause:
  assumes "qmarks name = 0"
  shows "qmarks (AppendClause b name clause []) = qmarks b + qmarks clause"
  using assms by (simp add: AppendClause_def)

lemma qmarks_AppendLimitAndOffset: "qmarks (AppendLimitAndOffset b limit offset) = qmarks b"
  by (simp add: AppendLimitAndOffset_def qmarks_AppendClause)

lemma qmarks_AppendColumns_loop:
  assumes "list_all (\<lambda>c. qmarks c = 0) columns" "qmarks tbl = 0" "i + m \<le> length columns"
  shows "qmarks (AppendColumns_loop columns tbl m i b) = qmarks b"
  using assms
proof (induction m arbitrary: i b)
  case (Suc m)
  then have "qmarks (columns ! i) = 0" by (simp add: list_all_length)
  with Suc show ?case by (simp add: Let_def)
qed simp

lemma qmarks_GetSelectClause:
  assumes "list_all (\<lambda>c. qmarks c = 0) columns"
  shows "qmarks (GetSelectClause columns dist ''*'' []) = 0"
  using qmarks_AppendColumns_loop [OF assms, of "[]" 0 "length columns"]
  by (simp add: GetSelectClause_def AppendColumns_def Let_def)

lemma qmarks_BuildClauseFromPredicates:
  "qmarks (BuildClauseFromPredicates joinClause p) = qmarks joinClause + qmarks (whereClause p) + other_marks p"
  by (simp add: BuildClauseFromPredicates_def Let_def qmarks_AppendClause qmarks_AppendLimitAndOffset other_marks_def)

section \<open>Properties\<close>



end
