(* ===== verification/Byte_Memory.thy ===== *)
theory Byte_Memory
  imports Rdb_Prelude
begin

text \<open>
  Bytes as the code lays them out: little-endian fields, as in the host's memory and in the
  packed values of \<open>RawDataParser\<close>, and a flat memory with the copies and typed accesses that
  \<open>SharedBlock\<close> makes through its pointers.
\<close>

section \<open>Little-endian fields\<close>

fun le_enc :: "nat \<Rightarrow> nat \<Rightarrow> byte list" where
  "le_enc 0 x = []"
| "le_enc (Suc n) x = of_nat (x mod 256) # le_enc n (x div 256)"

fun le_dec :: "byte list \<Rightarrow> nat" where
  "le_dec [] = 0"
| "le_dec (b # bs) = unat b + 256 * le_dec bs"

lemma length_le_enc [simp]: "length (le_enc n x) = n"
  by (induction n x rule: le_enc.induct) auto

lemma le_dec_enc: "x < 256 ^ n \<Longrightarrow> le_dec (le_enc n x) = x"
proof (induction n x rule: le_enc.induct)
  case (2 n x)
  have "unat (of_nat (x mod 256) :: byte) = x mod 256" by (simp add: unat_of_nat)
  with 2 show ?case by (simp add: less_mult_imp_div_less mult.commute)
qed simp

lemma le_dec_enc_mod: "le_dec (le_enc n x) = x mod 256 ^ n"
proof (induction n x rule: le_enc.induct)
  case (2 n x)
  have "unat (of_nat (x mod 256) :: byte) = x mod 256" by (simp add: unat_of_nat)
  then show ?case using 2 mod_mult2_eq [of x 256 "256 ^ n"] by simp
qed simp

lemma le_enc_dec: "le_enc (length bs) (le_dec bs) = bs"
proof (induction bs)
  case (Cons b bs)
  have b: "unat b < 256" using unsigned_less [of b] by simp
  then have "(unat b + 256 * le_dec bs) mod 256 = unat b" "(unat b + 256 * le_dec bs) div 256 = le_dec bs"
    by simp_all
  then show ?case using Cons by simp
qed simp

lemma le_dec_bound: "le_dec bs < 256 ^ length bs"
proof (induction bs)
  case (Cons b bs)
  have "unat b < 256" using unsigned_less [of b] by simp
  then have "unat b + 256 * le_dec bs < 256 + 256 * le_dec bs" by simp
  also have "\<dots> \<le> 256 * 256 ^ length bs" using Cons by simp
  finally show ?case by simp
qed simp

section \<open>Memory\<close>

type_synonym memory = "nat \<Rightarrow> byte"

definition memcpy :: "nat \<Rightarrow> byte list \<Rightarrow> memory \<Rightarrow> memory" where
  "memcpy a bs m = (\<lambda>i. if a \<le> i \<and> i < a + length bs then bs ! (i - a) else m i)"

definition bytes_at :: "nat \<Rightarrow> nat \<Rightarrow> memory \<Rightarrow> byte list" where
  "bytes_at a n m = map m [a ..< a + n]"

definition load :: "nat \<Rightarrow> nat \<Rightarrow> memory \<Rightarrow> nat" where
  "load n a m = le_dec (bytes_at a n m)"

definition store :: "nat \<Rightarrow> nat \<Rightarrow> nat \<Rightarrow> memory \<Rightarrow> memory" where
  "store n a v m = memcpy a (le_enc n v) m"

lemma length_bytes_at [simp]: "length (bytes_at a n m) = n"
  by (simp add: bytes_at_def)

lemma bytes_at_0 [simp]: "bytes_at a 0 m = []"
  by (simp add: bytes_at_def)

lemma bytes_at_add: "bytes_at a (n + k) m = bytes_at a n m @ bytes_at (a + n) k m"
  using upt_add_eq_append [of a "a + n" k] by (simp add: bytes_at_def add.assoc)

lemma memcpy_Nil [simp]: "memcpy a [] m = m"
  by (rule ext) (auto simp: memcpy_def)

lemma memcpy_outside: "i < a \<or> a + length bs \<le> i \<Longrightarrow> memcpy a bs m i = m i"
  by (auto simp: memcpy_def)

lemma store_outside: "i < a \<or> a + n \<le> i \<Longrightarrow> store n a v m i = m i"
  by (simp add: store_def memcpy_outside)

lemma bytes_at_cong:
  assumes "\<And>i. a \<le> i \<Longrightarrow> i < a + n \<Longrightarrow> m i = m' i"
  shows "bytes_at a n m = bytes_at a n m'"
  using assms by (auto simp: bytes_at_def)

lemma load_cong:
  assumes "\<And>i. a \<le> i \<Longrightarrow> i < a + n \<Longrightarrow> m i = m' i"
  shows "load n a m = load n a m'"
  unfolding load_def using bytes_at_cong [OF assms] by simp

lemma bytes_at_memcpy: "bytes_at a (length bs) (memcpy a bs m) = bs"
  by (rule nth_equalityI) (auto simp: bytes_at_def memcpy_def)

lemma load_store: "v < 256 ^ n \<Longrightarrow> load n a (store n a v m) = v"
  using bytes_at_memcpy [of a "le_enc n v" m] by (simp add: load_def store_def le_dec_enc)

lemma load_store_mod: "load n a (store n a v m) = v mod 256 ^ n"
  using bytes_at_memcpy [of a "le_enc n v" m] by (simp add: load_def store_def le_dec_enc_mod)

lemma store_load: "store n a (load n a m) m = m"
proof
  fix i
  have "le_enc n (load n a m) = bytes_at a n m" using le_enc_dec [of "bytes_at a n m"] by (simp add: load_def)
  then show "store n a (load n a m) m i = m i" by (auto simp: store_def memcpy_def bytes_at_def)
qed

lemma store_store: "store n a v (store n a w m) = store n a v m"
  by (auto simp: store_def memcpy_def)

lemma store_commute: "a + n \<le> b \<or> b + k \<le> a \<Longrightarrow> store n a v (store k b w m) = store k b w (store n a v m)"
  by (auto simp: store_def memcpy_def)

lemma load_store_other:
  "a + n \<le> b \<or> b + k \<le> a \<Longrightarrow> load n a (store k b v m) = load n a m"
  by (rule load_cong) (auto intro: store_outside)

lemma bytes_at_memcpy_other:
  "a + n \<le> b \<or> b + length bs \<le> a \<Longrightarrow> bytes_at a n (memcpy b bs m) = bytes_at a n m"
  by (rule bytes_at_cong) (auto intro: memcpy_outside)

lemma bytes_at_store_other:
  "a + n \<le> b \<or> b + k \<le> a \<Longrightarrow> bytes_at a n (store k b v m) = bytes_at a n m"
  by (simp add: store_def bytes_at_memcpy_other)

lemma load_memcpy_other:
  "a + n \<le> b \<or> b + length bs \<le> a \<Longrightarrow> load n a (memcpy b bs m) = load n a m"
  by (simp add: load_def bytes_at_memcpy_other)

lemma load_bound: "load n a m < 256 ^ n"
  using le_dec_bound [of "bytes_at a n m"] by (simp add: load_def)

end
