(* ===== verification/Raw_Data_Parser.thy ===== *)
theory Raw_Data_Parser
  imports Value_Object Byte_Memory
begin

text \<open>
  \<open>RawDataParser\<close> (\<open>raw_data_parser.cpp\<close>) with the parts of \<open>Serializable\<close>
  (\<open>serializable.cpp\<close>) it uses: the byte format in which assets, float vectors and big
  integers are stored in a blob column. A parser takes the bytes and the caller's old value
  and returns the number of bytes used, 0 on an error, with the new value.

  The JSON library is not part of the repository: its operations are the record \<open>json_ops\<close>,
  an argument of the definitions, and what is relied on is \<open>json_laws\<close>. The clock is the
  argument \<open>now\<close>. The host is little-endian.
\<close>

abbreviation ASSET_MAGIC :: nat where "ASSET_MAGIC \<equiv> 0x41534554"
abbreviation ASSETS_MAGIC :: nat where "ASSETS_MAGIC \<equiv> 0x41534553"
abbreviation FLOUT32_ARRAY :: nat where "FLOUT32_ARRAY \<equiv> 0x46333241"
abbreviation BIG_INT :: nat where "BIG_INT \<equiv> 0x42494749"

section \<open>JSON\<close>

record 'j json_ops =
  j_parse :: "string \<Rightarrow> 'j option"
  j_dump :: "'j \<Rightarrow> string"
  j_null :: 'j
  j_is_null :: "'j \<Rightarrow> bool"
  j_is_string :: "'j \<Rightarrow> bool"
  j_is_number_unsigned :: "'j \<Rightarrow> bool"
  j_is_number_integer :: "'j \<Rightarrow> bool"
  j_get_string :: "'j \<Rightarrow> string"
  j_get_u32 :: "'j \<Rightarrow> 32 word"
  j_get_u64 :: "'j \<Rightarrow> 64 word"
  j_find :: "'j \<Rightarrow> string \<Rightarrow> 'j option"
  j_set :: "string \<Rightarrow> 'j \<Rightarrow> 'j \<Rightarrow> 'j"
  j_string :: "string \<Rightarrow> 'j"
  j_u32 :: "32 word \<Rightarrow> 'j"
  j_u64 :: "64 word \<Rightarrow> 'j"

text \<open>What a JSON object does: assigning a member, then reading members back.\<close>

definition json_laws :: "'j json_ops \<Rightarrow> bool" where
  "json_laws J \<longleftrightarrow>
     (\<forall>n v j m. j_find J (j_set J n v j) m = (if m = n then Some v else j_find J j m)) \<and>
     (\<forall>n v j. \<not> j_is_null J (j_set J n v j)) \<and>
     (\<forall>s. \<not> j_is_null J (j_string J s) \<and> j_is_string J (j_string J s) \<and> j_get_string J (j_string J s) = s) \<and>
     (\<forall>w. \<not> j_is_null J (j_u32 J w) \<and> j_is_number_unsigned J (j_u32 J w) \<and> j_get_u32 J (j_u32 J w) = w) \<and>
     (\<forall>w. \<not> j_is_null J (j_u64 J w) \<and> j_is_number_integer J (j_u64 J w) \<and> j_get_u64 J (j_u64 J w) = w)"

definition GetSubNode :: "'j json_ops \<Rightarrow> 'j \<Rightarrow> string \<Rightarrow> 'j" where
  "GetSubNode J node name =
     (if j_is_null J node then j_null J
      else if name = [] then node
      else (case j_find J node name of None \<Rightarrow> j_null J | Some sub \<Rightarrow> sub))"

definition GetValue_string :: "'j json_ops \<Rightarrow> 'j \<Rightarrow> string \<Rightarrow> string \<Rightarrow> bool \<times> string" where
  "GetValue_string J node name v =
     (let subNode = GetSubNode J node name
      in if j_is_null J subNode \<or> \<not> j_is_string J subNode then (False, v) else (True, j_get_string J subNode))"

definition GetValue_u32 :: "'j json_ops \<Rightarrow> 'j \<Rightarrow> string \<Rightarrow> 32 word \<Rightarrow> bool \<times> 32 word" where
  "GetValue_u32 J node name v =
     (let subNode = GetSubNode J node name
      in if j_is_null J subNode \<or> \<not> j_is_number_unsigned J subNode then (False, v) else (True, j_get_u32 J subNode))"

definition GetValue_u64 :: "'j json_ops \<Rightarrow> 'j \<Rightarrow> string \<Rightarrow> 64 word \<Rightarrow> bool \<times> 64 word" where
  "GetValue_u64 J node name v =
     (let subNode = GetSubNode J node name
      in if j_is_null J subNode \<or> \<not> j_is_number_integer J subNode then (False, v) else (True, j_get_u64 J subNode))"

definition InnerAsset_Marshal :: "'j json_ops \<Rightarrow> asset \<Rightarrow> 'j \<Rightarrow> 'j" where
  "InnerAsset_Marshal J a node =
     (let n1 = j_set J ''version'' (j_u32 J (asset_version a)) node;
          n2 = j_set J ''expiresTime'' (j_u64 J (asset_expiresTime a)) n1;
          n3 = j_set J ''id'' (j_string J (asset_id a)) n2;
          n4 = j_set J ''name'' (j_string J (asset_name a)) n3;
          n5 = j_set J ''uri'' (j_string J (asset_uri a)) n4;
          n6 = j_set J ''createTime'' (j_string J (asset_createTime a)) n5;
          n7 = j_set J ''modifyTime'' (j_string J (asset_modifyTime a)) n6;
          n8 = j_set J ''size'' (j_string J (asset_size a)) n7;
          n9 = j_set J ''hash'' (j_string J (asset_hash a)) n8;
          n10 = j_set J ''path'' (j_string J (asset_path a)) n9;
          n11 = j_set J ''status'' (j_u32 J (asset_status a)) n10
      in j_set J ''extension'' (j_string J (asset_extension a)) n11)"

text \<open>\<open>Unmarshal\<close> fills the asset member by member, also when an earlier member was missing.\<close>

definition InnerAsset_Unmarshal :: "'j json_ops \<Rightarrow> 64 word \<Rightarrow> 'j \<Rightarrow> asset \<Rightarrow> bool \<times> asset" where
  "InnerAsset_Unmarshal J now node a0 =
     (let (r1, version) = GetValue_u32 J node ''version'' (asset_version a0);
          (r2, expiresTime) = GetValue_u64 J node ''expiresTime'' (asset_expiresTime a0);
          (r3, aid) = GetValue_string J node ''id'' (asset_id a0);
          (r4, aname) = GetValue_string J node ''name'' (asset_name a0);
          (r5, uri) = GetValue_string J node ''uri'' (asset_uri a0);
          (r6, createTime) = GetValue_string J node ''createTime'' (asset_createTime a0);
          (r7, modifyTime) = GetValue_string J node ''modifyTime'' (asset_modifyTime a0);
          (r8, asize) = GetValue_string J node ''size'' (asset_size a0);
          (r9, hash) = GetValue_string J node ''hash'' (asset_hash a0);
          (r10, path) = GetValue_string J node ''path'' (asset_path a0);
          (r11, status) = GetValue_u32 J node ''status'' (asset_status a0);
          (r12, extension) = GetValue_string J node ''extension'' (asset_extension a0);
          a = a0\<lparr>asset_version := version, asset_expiresTime := expiresTime, asset_id := aid,
            asset_name := aname, asset_uri := uri, asset_createTime := createTime,
            asset_modifyTime := modifyTime, asset_size := asize, asset_hash := hash,
            asset_path := path, asset_status := status, asset_extension := extension\<rparr>
      in (r1 \<and> r2 \<and> r3 \<and> r4 \<and> r5 \<and> r6 \<and> r7 \<and> r8 \<and> r9 \<and> r10 \<and> r11,
          if asset_status a = STATUS_DOWNLOADING \<and> asset_expiresTime a < now
          then a\<lparr>asset_status := STATUS_ABNORMAL\<rparr> else a))"

definition Serializable_Unmarshall :: "'j json_ops \<Rightarrow> 64 word \<Rightarrow> string \<Rightarrow> asset \<Rightarrow> bool \<times> asset" where
  "Serializable_Unmarshall J now jsonStr a =
     (case j_parse J jsonStr of
        Some jsonObj \<Rightarrow> InnerAsset_Unmarshal J now jsonObj a
      | None \<Rightarrow>
          if jsonStr = [] then (False, a)
          else (case j_parse J (drop 1 jsonStr) of
                  None \<Rightarrow> (False, a)
                | Some jsonObj \<Rightarrow> InnerAsset_Unmarshal J now jsonObj a))"

definition Serializable_Marshall :: "'j json_ops \<Rightarrow> asset \<Rightarrow> string" where
  "Serializable_Marshall J a = j_dump J (InnerAsset_Marshal J a (j_null J))"

section \<open>Assets\<close>

definition to_bytes :: "string \<Rightarrow> byte list" where "to_bytes s = map of_char s"
definition of_bytes :: "byte list \<Rightarrow> string" where "of_bytes bs = map (\<lambda>b. char_of (unat b)) bs"

text \<open>The size field is 16 bits: \<open>(uint16_t)data.length()\<close> wraps.\<close>

definition PackageRawData_asset :: "'j json_ops \<Rightarrow> asset \<Rightarrow> byte list" where
  "PackageRawData_asset J a =
     (let data = to_bytes (Serializable_Marshall J a)
      in le_enc 4 ASSET_MAGIC @ le_enc 2 (length data mod 2 ^ 16) @ data)"

definition ParserRawData_asset :: "'j json_ops \<Rightarrow> 64 word \<Rightarrow> byte list \<Rightarrow> asset \<Rightarrow> nat \<times> asset" where
  "ParserRawData_asset J now data a =
     (if 4 > length data then (0, a)
      else if le_dec (take 4 data) \<noteq> ASSET_MAGIC then (0, a)
      else if 2 > length data - 4 then (0, a)
      else
        (let sz = le_dec (take 2 (drop 4 data))
         in if sz > length data - 6 then (0, a)
            else (case Serializable_Unmarshall J now (of_bytes (take sz (drop 6 data))) a of
                    (ok, a') \<Rightarrow> if \<not> ok then (0, a') else (6 + sz, a'))))"

text \<open>The loop over the packed assets: at most \<open>m\<close> of them, while bytes are left.\<close>

fun ParserRawData_assets_loop ::
  "'j json_ops \<Rightarrow> 64 word \<Rightarrow> byte list \<Rightarrow> nat \<Rightarrow> nat \<Rightarrow> asset list \<Rightarrow> nat \<times> asset list" where
  "ParserRawData_assets_loop J now data 0 used assets = (used, assets)"
| "ParserRawData_assets_loop J now data (Suc m) used assets =
     (if used < length data
      then (case ParserRawData_asset J now (drop used data) default_asset of
              (dataLen, a) \<Rightarrow>
                if dataLen = 0 then (used, assets)
                else ParserRawData_assets_loop J now data m (used + dataLen) (assets @ [a]))
      else (used, assets))"

text \<open>\<open>num\<close> is read from the start of the buffer, not from behind the magic word.\<close>

definition ParserRawData_assets ::
  "'j json_ops \<Rightarrow> 64 word \<Rightarrow> byte list \<Rightarrow> asset list \<Rightarrow> nat \<times> asset list" where
  "ParserRawData_assets J now data assets =
     (if 4 > length data then (0, assets)
      else if le_dec (take 4 data) \<noteq> ASSETS_MAGIC then (0, assets)
      else if 2 > length data - 4 then (0, assets)
      else
        (let num = le_dec (take 2 data)
         in ParserRawData_assets_loop J now data num 6 assets))"

definition PackageRawData_assets :: "'j json_ops \<Rightarrow> asset list \<Rightarrow> byte list" where
  "PackageRawData_assets J assets =
     le_enc 4 ASSETS_MAGIC @ le_enc 2 (length assets mod 2 ^ 16) @ concat (map (PackageRawData_asset J) assets)"

definition ParserRawData_map ::
  "'j json_ops \<Rightarrow> 64 word \<Rightarrow> byte list \<Rightarrow> (string \<times> asset) list \<Rightarrow> nat \<times> (string \<times> asset) list" where
  "ParserRawData_map J now data assets =
     (let (used, res) = ParserRawData_assets J now data []
      in (used, fold (\<lambda>a. om_emplace (asset_name a) a) res assets))"

definition PackageRawData_map :: "'j json_ops \<Rightarrow> (string \<times> asset) list \<Rightarrow> byte list" where
  "PackageRawData_map J assets = PackageRawData_assets J (map snd assets)"

section \<open>Big integers and float vectors\<close>

fun le_words :: "nat \<Rightarrow> nat \<Rightarrow> byte list \<Rightarrow> nat list" where
  "le_words width 0 data = []"
| "le_words width (Suc n) data = le_dec (take width data) # le_words width n (drop width data)"

definition ParserRawData_bigint :: "byte list \<Rightarrow> big_integer \<Rightarrow> nat \<times> big_integer" where
  "ParserRawData_bigint data bigint =
     (if 4 > length data then (0, bigint)
      else if le_dec (take 4 data) \<noteq> BIG_INT then (0, bigint)
      else if 4 > length data - 4 then (0, bigint)
      else
        (let sign = le_dec (take 4 (drop 4 data))
         in if 8 > length data - 8 then (0, bigint)
            else
              (let count = le_dec (take 8 (drop 8 data))
               in if count > (length data - 16) div 8 then (0, bigint)
                  else (16 + 8 * count,
                    \<lparr>big_sign = to_i32 (int sign),
                     big_value = map of_nat (le_words 8 count (drop 16 data))\<rparr>))))"

text \<open>
  \<open>nullData\<close> says whether \<open>data()\<close> of an empty vector is a null pointer, which the language
  leaves open.
\<close>

definition PackageRawData_bigint :: "bool \<Rightarrow> big_integer \<Rightarrow> byte list" where
  "PackageRawData_bigint nullData bigint =
     (if big_value bigint = [] \<and> nullData then []
      else le_enc 4 BIG_INT @ le_enc 4 (nat (big_sign bigint mod 2 ^ 32))
        @ le_enc 8 (length (big_value bigint)) @ concat (map (\<lambda>w. le_enc 8 (unat w)) (big_value bigint)))"

definition ParserRawData_floats :: "byte list \<Rightarrow> f32 list \<Rightarrow> nat \<times> f32 list" where
  "ParserRawData_floats data floats =
     (if 4 > length data then (0, floats)
      else if le_dec (take 4 data) \<noteq> FLOUT32_ARRAY then (0, floats)
      else if 4 > length data - 4 then (0, floats)
      else
        (let count = le_dec (take 4 (drop 4 data))
         in if count > (length data - 8) div 4 then (0, floats)
            else (8 + 4 * count, map of_nat (le_words 4 count (drop 8 data)))))"

definition PackageRawData_floats :: "f32 list \<Rightarrow> byte list" where
  "PackageRawData_floats floats =
     le_enc 4 FLOUT32_ARRAY @ le_enc 4 (length floats mod 2 ^ 32) @ concat (map (\<lambda>w. le_enc 4 (unat w)) floats)"

section \<open>Self-delimiting codecs\<close>

text \<open>
  The contract of a packed value: the parser reads back exactly what was packed from the head
  of any buffer, never claims more bytes than there are, and leaves the caller's value alone
  when it fails.
\<close>

locale blob_codec =
  fixes enc :: "'a \<Rightarrow> byte list"
    and dec :: "byte list \<Rightarrow> 'a \<Rightarrow> nat \<times> 'a"
    and valid :: "'a \<Rightarrow> bool"
  assumes dec_enc: "valid a \<Longrightarrow> dec (enc a @ rest) a0 = (length (enc a), a)"
    and dec_bound: "fst (dec data a0) \<le> length data"
    and dec_failed: "fst (dec data a0) = 0 \<Longrightarrow> snd (dec data a0) = a0"
begin

lemma enc_prefix_free:
  assumes "valid a" "valid b" "enc a @ r = enc b @ s"
  shows "a = b \<and> r = s"
proof -
  have "dec (enc a @ r) a = (length (enc a), a)" by (rule dec_enc [OF assms(1)])
  moreover have "dec (enc a @ r) a = (length (enc b), b)"
    using assms(3) dec_enc [OF assms(2), of s a] by simp
  ultimately have "a = b" by simp
  with assms(3) show ?thesis by simp
qed

lemma enc_inj: "valid a \<Longrightarrow> valid b \<Longrightarrow> enc a = enc b \<Longrightarrow> a = b"
  using enc_prefix_free [of a b "[]" "[]"] by simp

end

lemma le_words_concat:
  fixes f :: "'b \<Rightarrow> nat"
  assumes "\<And>x. f x < 256 ^ k"
  shows "le_words k (length xs) (concat (map (\<lambda>x. le_enc k (f x)) xs) @ rest) = map f xs"
  by (induction xs) (simp_all add: le_dec_enc assms)

lemma length_concat_enc: "length (concat (map (\<lambda>x. le_enc k (f x)) xs)) = k * length xs"
  by (induction xs) simp_all

lemma unat_bounds: "unat (w :: 64 word) < 256 ^ 8" "unat (v :: 32 word) < 256 ^ 4"
  using unsigned_less [of w, where ?'a = nat] unsigned_less [of v, where ?'a = nat] by simp_all

lemma to_i32_wrap: "- (2 ^ 31) \<le> s \<Longrightarrow> s < 2 ^ 31 \<Longrightarrow> to_i32 (s mod 2 ^ 32) = s"
  by (simp add: to_i32_def mod_add_left_eq)

definition floats_valid :: "f32 list \<Rightarrow> bool" where
  "floats_valid v \<longleftrightarrow> length v < 2 ^ 32"

definition bigint_valid :: "big_integer \<Rightarrow> bool" where
  "bigint_valid b \<longleftrightarrow> big_value b \<noteq> [] \<and> length (big_value b) < 2 ^ 64 \<and>
     - (2 ^ 31) \<le> big_sign b \<and> big_sign b < 2 ^ 31"

lemma floats_dec_enc:
  assumes "floats_valid v"
  shows "ParserRawData_floats (PackageRawData_floats v @ rest) v0 = (length (PackageRawData_floats v), v)"
proof -
  have n: "le_dec (le_enc 4 (length v mod 2 ^ 32)) = length v"
    using assms by (simp add: floats_valid_def le_dec_enc)
  have m: "le_dec (le_enc 4 FLOUT32_ARRAY) = FLOUT32_ARRAY" by (simp add: le_dec_enc)
  have w: "le_words 4 (length v) (concat (map (\<lambda>w. le_enc 4 (unat w)) v) @ rest) = map unat v"
    by (rule le_words_concat) (rule unat_bounds)
  show ?thesis
    unfolding ParserRawData_floats_def PackageRawData_floats_def Let_def
    by (simp add: n [simplified] m w length_concat_enc o_def)
qed

lemma bigint_dec_enc:
  assumes "bigint_valid b"
  shows "ParserRawData_bigint (PackageRawData_bigint nul b @ rest) b0
    = (length (PackageRawData_bigint nul b), b)"
proof -
  have n: "le_dec (le_enc 8 (length (big_value b))) = length (big_value b)"
    using assms by (intro le_dec_enc) (simp add: bigint_valid_def)
  have s: "le_dec (le_enc 4 (nat (big_sign b mod 2 ^ 32))) = nat (big_sign b mod 2 ^ 32)"
    by (intro le_dec_enc) (simp add: nat_less_iff)
  have m: "le_dec (le_enc 4 BIG_INT) = BIG_INT" by (simp add: le_dec_enc)
  have w: "le_words 8 (length (big_value b)) (concat (map (\<lambda>w. le_enc 8 (unat w)) (big_value b)) @ rest)
      = map unat (big_value b)"
    by (rule le_words_concat) (rule unat_bounds)
  have sg: "to_i32 (int (nat (big_sign b mod 2 ^ 32))) = big_sign b"
    using assms to_i32_wrap [of "big_sign b"] by (simp add: bigint_valid_def)
  have "big_value b \<noteq> []" using assms by (simp add: bigint_valid_def)
  then show ?thesis
    unfolding ParserRawData_bigint_def PackageRawData_bigint_def Let_def
    by (simp add: n m w s [simplified] sg [simplified] length_concat_enc o_def)
qed

lemma count_bound: "n \<le> (len - c) div k \<Longrightarrow> c \<le> len \<Longrightarrow> c + k * n \<le> (len :: nat)"
  by (metis div_times_less_eq_dividend le_add_diff_inverse le_trans mult.commute mult_le_mono1 nat_add_left_cancel_le)

interpretation float_blob: blob_codec PackageRawData_floats ParserRawData_floats floats_valid
proof
  show "floats_valid a \<Longrightarrow> ParserRawData_floats (PackageRawData_floats a @ rest) a0
      = (length (PackageRawData_floats a), a)" for a rest a0
    by (rule floats_dec_enc)
  show "fst (ParserRawData_floats data a0) \<le> length data" for data a0
    by (auto simp: ParserRawData_floats_def Let_def intro: count_bound)
  show "fst (ParserRawData_floats data a0) = 0 \<Longrightarrow> snd (ParserRawData_floats data a0) = a0" for data a0
    by (auto simp: ParserRawData_floats_def Let_def split: if_splits)
qed

interpretation bigint_blob: blob_codec "PackageRawData_bigint nul" ParserRawData_bigint bigint_valid for nul
proof
  show "bigint_valid a \<Longrightarrow> ParserRawData_bigint (PackageRawData_bigint nul a @ rest) a0
      = (length (PackageRawData_bigint nul a), a)" for a rest a0
    by (rule bigint_dec_enc)
  show "fst (ParserRawData_bigint data a0) \<le> length data" for data a0
    by (auto simp: ParserRawData_bigint_def Let_def intro: count_bound)
  show "fst (ParserRawData_bigint data a0) = 0 \<Longrightarrow> snd (ParserRawData_bigint data a0) = a0" for data a0
    by (auto simp: ParserRawData_bigint_def Let_def split: if_splits)
qed

section \<open>Assets\<close>

text \<open>What reading back does to an asset: a download that has expired is abnormal.\<close>

definition settle :: "64 word \<Rightarrow> asset \<Rightarrow> asset" where
  "settle now a =
     (if asset_status a = STATUS_DOWNLOADING \<and> asset_expiresTime a < now
      then a\<lparr>asset_status := STATUS_ABNORMAL\<rparr> else a)"

text \<open>The library can print and parse the node of the asset, and the text fits the size field.\<close>

definition asset_packable :: "'j json_ops \<Rightarrow> asset \<Rightarrow> bool" where
  "asset_packable J a \<longleftrightarrow>
     j_parse J (Serializable_Marshall J a) = Some (InnerAsset_Marshal J a (j_null J)) \<and>
     length (Serializable_Marshall J a) < 2 ^ 16"

lemma of_to_bytes [simp]: "of_bytes (to_bytes s) = s"
proof -
  have "char_of (unat (of_char c :: byte)) = c" for c
  proof -
    have "(of_char c :: byte) = of_nat (of_char c)" by (cases c) (simp add: of_char_Char)
    then have "unat (of_char c :: byte) = of_char c mod 256" by (simp only: unat_of_nat) simp
    then show ?thesis by simp
  qed
  then show ?thesis by (simp add: of_bytes_def to_bytes_def o_def)
qed

lemma Unmarshal_Marshal:
  assumes "json_laws J"
  shows "InnerAsset_Unmarshal J now (InnerAsset_Marshal J a (j_null J)) a0 = (True, settle now a)"
proof -
  have F: "j_find J (j_set J n v j) m = (if m = n then Some v else j_find J j m)"
    "\<not> j_is_null J (j_set J n v j)" for n m v j
    using assms by (simp_all add: json_laws_def)
  have V: "\<not> j_is_null J (j_string J s)" "j_is_string J (j_string J s)" "j_get_string J (j_string J s) = s"
    "\<not> j_is_null J (j_u32 J w)" "j_is_number_unsigned J (j_u32 J w)" "j_get_u32 J (j_u32 J w) = w"
    "\<not> j_is_null J (j_u64 J x)" "j_is_number_integer J (j_u64 J x)" "j_get_u64 J (j_u64 J x) = x"
    for s w x
    using assms by (simp_all add: json_laws_def)
  show ?thesis
    unfolding InnerAsset_Unmarshal_def InnerAsset_Marshal_def Let_def
    by (simp add: GetValue_string_def GetValue_u32_def GetValue_u64_def GetSubNode_def F V settle_def)
qed

lemma asset_dec_enc:
  assumes "json_laws J" "asset_packable J a"
  shows "ParserRawData_asset J now (PackageRawData_asset J a @ rest) a0
    = (length (PackageRawData_asset J a), settle now a)"
proof -
  let ?d = "to_bytes (Serializable_Marshall J a)"
  have len: "length ?d < 2 ^ 16" using assms(2) by (simp add: asset_packable_def to_bytes_def)
  have n: "le_dec (le_enc 2 (length ?d mod 2 ^ 16)) = length ?d"
    using len by (simp add: le_dec_enc)
  have m: "le_dec (le_enc 4 ASSET_MAGIC) = ASSET_MAGIC" by (simp add: le_dec_enc)
  have u: "Serializable_Unmarshall J now (Serializable_Marshall J a) a0 = (True, settle now a)"
    using assms Unmarshal_Marshal [OF assms(1)]
    by (simp add: Serializable_Unmarshall_def asset_packable_def)
  show ?thesis
    unfolding ParserRawData_asset_def PackageRawData_asset_def Let_def
    using n by (simp add: m u)
qed

lemma asset_blob_nonempty [simp]: "length (PackageRawData_asset J a) \<noteq> 0" "PackageRawData_asset J a \<noteq> []"
  by (simp_all add: PackageRawData_asset_def Let_def flip: length_greater_0_conv)

lemma assets_loop_reads:
  assumes "json_laws J" "list_all (asset_packable J) as"
  shows "ParserRawData_assets_loop J now (pre @ concat (map (PackageRawData_asset J) as)) m (length pre) acc
    = (length pre + length (concat (map (PackageRawData_asset J) (take m as))), acc @ map (settle now) (take m as))"
  using assms(2)
proof (induction as arbitrary: m pre acc)
  case Nil
  then show ?case by (cases m) simp_all
next
  case (Cons a as)
  show ?case
  proof (cases m)
    case (Suc m')
    have "ParserRawData_asset J now (PackageRawData_asset J a @ concat (map (PackageRawData_asset J) as)) default_asset
        = (length (PackageRawData_asset J a), settle now a)"
      using Cons.prems by (intro asset_dec_enc [OF assms(1)]) simp
    then show ?thesis
      using Cons.IH [of "pre @ PackageRawData_asset J a" m' "acc @ [settle now a]"] Cons.prems Suc by simp
  qed simp
qed

lemma le_enc_take2: "take 2 (le_enc 4 x @ rest) = [of_nat (x mod 256), of_nat (x div 256 mod 256)]"
proof -
  have four: "4 = Suc (Suc (Suc (Suc 0)))" by simp
  show ?thesis unfolding four by (simp add: take_Cons' del: of_nat_mod)
qed

lemma assets_magic_low: "le_dec (take 2 (le_enc 4 ASSETS_MAGIC @ rest)) = 17747"
  unfolding le_enc_take2 by (simp add: unat_of_nat)

lemma assets_loop_ext:
  "length d = length d' \<Longrightarrow> drop 6 d = drop 6 d' \<Longrightarrow> 6 \<le> used \<Longrightarrow>
     ParserRawData_assets_loop J now d m used acc = ParserRawData_assets_loop J now d' m used acc"
proof (induction m arbitrary: used acc)
  case (Suc m)
  have "drop used d = drop (used - 6) (drop 6 d)" "drop used d' = drop (used - 6) (drop 6 d')"
    using Suc.prems(3) by simp_all
  then have eq: "drop used d = drop used d'" using Suc.prems(2) by simp
  show ?case using Suc by (simp add: eq split: prod.split)
qed simp

lemma assets_dec_enc:
  assumes "json_laws J" "list_all (asset_packable J) as"
  shows "ParserRawData_assets J now (PackageRawData_assets J as) [] =
    (6 + length (concat (map (PackageRawData_asset J) (take 17747 as))), map (settle now) (take 17747 as))"
proof -
  let ?pre = "le_enc 4 ASSETS_MAGIC @ le_enc 2 (length as mod 2 ^ 16)"
  have m: "le_dec (le_enc 4 ASSETS_MAGIC) = ASSETS_MAGIC" by (simp add: le_dec_enc)
  have "ParserRawData_assets J now (PackageRawData_assets J as) [] =
      ParserRawData_assets_loop J now (?pre @ concat (map (PackageRawData_asset J) as)) 17747 (length ?pre) []"
    unfolding ParserRawData_assets_def PackageRawData_assets_def assets_magic_low
    by (simp add: m)
  then show ?thesis
    using assets_loop_reads [OF assms, of now ?pre 17747 "[]"] by simp
qed

text \<open>A JSON library that satisfies the laws: nodes as data, one text known to its parser.\<close>

datatype jv = JNull | JStr string | JU32 "32 word" | JU64 "64 word" | JObj "(string \<times> jv) list"

fun jv_find :: "jv \<Rightarrow> string \<Rightarrow> jv option" where
  "jv_find (JObj kvs) n = map_of kvs n" | "jv_find _ n = None"
fun jv_set :: "string \<Rightarrow> jv \<Rightarrow> jv \<Rightarrow> jv" where
  "jv_set n v (JObj kvs) = JObj ((n, v) # kvs)" | "jv_set n v _ = JObj [(n, v)]"
fun jv_str :: "jv \<Rightarrow> string" where "jv_str (JStr s) = s" | "jv_str _ = []"
fun jv_u32 :: "jv \<Rightarrow> 32 word" where "jv_u32 (JU32 w) = w" | "jv_u32 (JU64 w) = ucast w" | "jv_u32 _ = 0"
fun jv_u64 :: "jv \<Rightarrow> 64 word" where "jv_u64 (JU64 w) = w" | "jv_u64 (JU32 w) = ucast w" | "jv_u64 _ = 0"

definition sample_json :: "jv \<Rightarrow> jv json_ops" where
  "sample_json node = \<lparr>j_parse = \<lambda>s. if s = ''{}'' then Some node else None, j_dump = \<lambda>_. ''{}'',
     j_null = JNull, j_is_null = \<lambda>j. j = JNull, j_is_string = \<lambda>j. case j of JStr _ \<Rightarrow> True | _ \<Rightarrow> False,
     j_is_number_unsigned = \<lambda>j. case j of JU32 _ \<Rightarrow> True | JU64 _ \<Rightarrow> True | _ \<Rightarrow> False,
     j_is_number_integer = \<lambda>j. case j of JU32 _ \<Rightarrow> True | JU64 _ \<Rightarrow> True | _ \<Rightarrow> False,
     j_get_string = jv_str, j_get_u32 = jv_u32, j_get_u64 = jv_u64, j_find = jv_find, j_set = jv_set,
     j_string = JStr, j_u32 = JU32, j_u64 = JU64\<rparr>"

lemma sample_json_laws: "json_laws (sample_json node)"
proof -
  have "jv_find (jv_set n v j) m = (if m = n then Some v else jv_find j m)" "jv_set n v j \<noteq> JNull" for n v j m
    by (cases j; simp)+
  then show ?thesis by (simp add: json_laws_def sample_json_def)
qed

definition sample_asset :: asset where
  "sample_asset = default_asset\<lparr>asset_name := ''a.jpg'', asset_status := STATUS_DOWNLOADING, asset_expiresTime := 5\<rparr>"

definition sample_ops :: "jv json_ops" where
  "sample_ops = sample_json (InnerAsset_Marshal (sample_json JNull) sample_asset JNull)"

lemma sample_packable: "asset_packable sample_ops sample_asset"
  by (simp add: asset_packable_def sample_ops_def Serializable_Marshall_def sample_json_def
    InnerAsset_Marshal_def)

section \<open>Properties\<close>

text \<open>
  C10: a float vector of fewer than \<open>2 ^ 32\<close> elements is read back bit for bit from the head of
  any buffer that starts with its packed form; packed vectors are prefix-free.
\<close>

theorem floats_roundtrip:
  assumes "floats_valid v"
  shows "ParserRawData_floats (PackageRawData_floats v @ rest) v0 = (length (PackageRawData_floats v), v)
    \<and> (\<forall>w. floats_valid w \<longrightarrow> PackageRawData_floats v = PackageRawData_floats w \<longrightarrow> v = w)"
  using float_blob.dec_enc [OF assms] float_blob.enc_inj [OF assms] by blast

theorem floats_roundtrip_witness:
  "ParserRawData_floats (PackageRawData_floats [0x3F800000, 0x7FC00000] @ [1, 2, 3]) [] =
     (length (PackageRawData_floats [0x3F800000, 0x7FC00000]), [0x3F800000, 0x7FC00000])"
  using floats_roundtrip [of "[0x3F800000, 0x7FC00000]" "[1, 2, 3]" "[]"] by (simp add: floats_valid_def)

text \<open>
  A big integer with at least one limb is read back, sign and limbs, from the head of any
  buffer that starts with its packed form.
\<close>

lemma bigint_roundtrip:
  assumes "bigint_valid b"
  shows "ParserRawData_bigint (PackageRawData_bigint nullData b @ rest) b0
    = (length (PackageRawData_bigint nullData b), b)"
  using assms by (rule bigint_blob.dec_enc)



text \<open>
  C13: a list of assets that the JSON library can print and parse is read back from its packed
  form, each with an expired download turned abnormal, up to the first 17747; the count field
  of the format has no part in it.
\<close>

theorem assets_read_back:
  assumes "json_laws J" "list_all (asset_packable J) as"
  shows "ParserRawData_assets J now (PackageRawData_assets J as) [] =
    (6 + length (concat (map (PackageRawData_asset J) (take 17747 as))), map (settle now) (take 17747 as))"
  by (rule assets_dec_enc [OF assms])

theorem assets_read_back_witness:
  "snd (ParserRawData_assets sample_ops 9 (PackageRawData_assets sample_ops [sample_asset, sample_asset]) [])
    = [sample_asset\<lparr>asset_status := STATUS_ABNORMAL\<rparr>, sample_asset\<lparr>asset_status := STATUS_ABNORMAL\<rparr>]"
  using assets_read_back [of sample_ops "[sample_asset, sample_asset]" 9] sample_packable
  by (simp add: sample_ops_def sample_json_laws settle_def sample_asset_def)

text \<open>
  The two bytes of the count field are never looked at: any two buffers that differ only
  there parse alike.
\<close>

lemma assets_count_ignored:
  "ParserRawData_assets J now (le_enc 4 ASSETS_MAGIC @ [b0, b1] @ body) acc =
   ParserRawData_assets J now (le_enc 4 ASSETS_MAGIC @ [c0, c1] @ body) acc"
proof -
  let ?d = "le_enc 4 ASSETS_MAGIC @ [b0, b1] @ body" and ?d' = "le_enc 4 ASSETS_MAGIC @ [c0, c1] @ body"
  have "ParserRawData_assets_loop J now ?d 17747 6 acc = ParserRawData_assets_loop J now ?d' 17747 6 acc"
    by (rule assets_loop_ext) simp_all
  moreover have "ParserRawData_assets J now (le_enc 4 ASSETS_MAGIC @ [e0, e1] @ body) acc =
      ParserRawData_assets_loop J now (le_enc 4 ASSETS_MAGIC @ [e0, e1] @ body) 17747 6 acc" for e0 e1
    unfolding ParserRawData_assets_def assets_magic_low by (simp add: le_dec_enc)
  ultimately show ?thesis by simp
qed

end
