(* ===== verification/Result_Set.thy ===== *)
theory Result_Set
  imports Sqlite_Utils Value_Object "HOL-Library.Monad_Syntax"
begin

text \<open>
  \<open>RowEntity\<close> and \<open>AbsResultSet\<close> (\<open>abs_result_set.cpp\<close>, \<open>abs_result_set.h\<close>): the base class of
  the cursors over query results.

  The state of the class is a record that the derived classes extend. A virtual call goes through
  \<open>vtable\<close>, the methods of \<open>ResultSet\<close> that derived classes override and the base class calls.
  An operation returns its code with the new state; an out-parameter takes the caller's old value.
  \<open>None\<close> stands for behaviour C++ leaves undefined and for a call that does not return.
\<close>

section \<open>\<open>RowEntity\<close>\<close>

text \<open>
  \<open>indexs_\<close> holds iterators into \<open>values_\<close>: \<open>Some\<close> of the key pointed at, or \<open>None\<close> for the
  singular iterator \<open>resize\<close> fills in, which must not be dereferenced.
\<close>

record row_entity =
  re_values :: "(string \<times> value_object) list"
  re_indexs :: "string option list"

definition RowEntity_new :: row_entity where
  "RowEntity_new = \<lparr>re_values = [], re_indexs = []\<rparr>"

definition RowEntity_Put :: "string \<Rightarrow> int \<Rightarrow> value_object \<Rightarrow> row_entity \<Rightarrow> row_entity" where
  "RowEntity_Put name index value r =
     (if index < 0 \<or> index \<ge> int (length (re_indexs r)) then r
      else r\<lparr>re_values := om_emplace name value (re_values r),
             re_indexs := (re_indexs r)[nat index := Some name]\<rparr>)"

definition RowEntity_Get_name :: "string \<Rightarrow> row_entity \<Rightarrow> value_object" where
  "RowEntity_Get_name name r = (case map_of (re_values r) name of None \<Rightarrow> VNull | Some v \<Rightarrow> v)"

definition RowEntity_Get :: "int \<Rightarrow> row_entity \<Rightarrow> value_object option" where
  "RowEntity_Get index r =
     (if index < 0 \<or> index \<ge> int (length (re_indexs r)) then Some VNull
      else (case re_indexs r ! nat index of
              None \<Rightarrow> None
            | Some k \<Rightarrow> map_of (re_values r) k))"

definition RowEntity_Steal :: "row_entity \<Rightarrow> (string \<times> value_object) list \<times> row_entity" where
  "RowEntity_Steal r = (re_values r, r\<lparr>re_indexs := [], re_values := []\<rparr>)"

definition RowEntity_Clear :: "nat \<Rightarrow> row_entity \<Rightarrow> row_entity" where
  "RowEntity_Clear n r = r\<lparr>re_values := [], re_indexs := replicate n None\<rparr>"

section \<open>\<open>ColumnType\<close>\<close>

type_synonym column_type = int

definition CT_NULL :: column_type where "CT_NULL = 0"
definition CT_INTEGER :: column_type where "CT_INTEGER = 1"
definition CT_FLOAT :: column_type where "CT_FLOAT = 2"
definition CT_STRING :: column_type where "CT_STRING = 3"
definition CT_BLOB :: column_type where "CT_BLOB = 4"
definition CT_ASSET :: column_type where "CT_ASSET = 5"
definition CT_ASSETS :: column_type where "CT_ASSETS = 6"
definition CT_FLOAT32_ARRAY :: column_type where "CT_FLOAT32_ARRAY = 7"
definition CT_BIGINT :: column_type where "CT_BIGINT = 8"

lemmas column_type_defs = CT_NULL_def CT_INTEGER_def CT_FLOAT_def CT_STRING_def CT_BLOB_def
  CT_ASSET_def CT_ASSETS_def CT_FLOAT32_ARRAY_def CT_BIGINT_def

section \<open>\<open>AbsResultSet\<close>\<close>

abbreviation INIT_POS :: int where "INIT_POS \<equiv> -1"
abbreviation NO_COUNT :: int where "NO_COUNT \<equiv> -1"

record abs_result_set =
  lastErrMsg :: string
  rowPos :: int
  isClosed :: bool
  rowCount :: int
  lastErr :: int
  columnCount :: int
  wholeColumnNames :: "string list"
  columnMap :: "(string \<times> int) list"

record 's vtable =
  v_GetColumnNames :: "'s \<Rightarrow> (int \<times> string list) \<times> 's"
  v_Get :: "int \<Rightarrow> 's \<Rightarrow> ((int \<times> value_object) \<times> 's) option"
  v_GoToRow :: "int \<Rightarrow> 's \<Rightarrow> (int \<times> 's) option"
  v_GoToNextRow :: "'s \<Rightarrow> (int \<times> 's) option"
  v_GetRowCount :: "int \<Rightarrow> 's \<Rightarrow> ((int \<times> int) \<times> 's) option"
  v_GetColumnType :: "int \<Rightarrow> column_type \<Rightarrow> 's \<Rightarrow> ((int \<times> column_type) \<times> 's) option"

definition BuildRowRangeCtx :: "'a abs_result_set_scheme \<Rightarrow> string" where
  "BuildRowRangeCtx s =
     (let msg = ''The row index is '' @ to_string_int (rowPos s);
          msg1 = (if rowCount s \<ge> 0 then msg @ '', and the row count is '' @ to_string_int (rowCount s)
                  else msg)
      in msg1 @ ''.'')"

definition SetLastErrorMsg :: "string \<Rightarrow> 'a abs_result_set_scheme \<Rightarrow> 'a abs_result_set_scheme" where
  "SetLastErrorMsg msg s = s\<lparr>lastErrMsg := msg\<rparr>"

definition AbsResultSet_GetRowCount :: "int \<Rightarrow> 'a abs_result_set_scheme \<Rightarrow> int \<times> int" where
  "AbsResultSet_GetRowCount count s =
     (if lastErr s \<noteq> E_OK then (lastErr s, rowCount s)
      else if rowCount s \<noteq> NO_COUNT then (E_OK, rowCount s)
      else if isClosed s then (E_ALREADY_CLOSED, rowCount s)
      else (E_OK, rowCount s))"

text \<open>The map of the column names to their positions; a repeated name keeps its first position.\<close>

definition index_columns :: "string list \<Rightarrow> (string \<times> int) list \<Rightarrow> (string \<times> int) list" where
  "index_columns names m = fold (\<lambda>(i, name). om_emplace name (int i)) (enumerate 0 names) m"

definition InitColumnNames ::
    "('a abs_result_set_scheme) vtable \<Rightarrow> 'a abs_result_set_scheme \<Rightarrow> int \<times> 'a abs_result_set_scheme" where
  "InitColumnNames V s =
     (if isClosed s then (E_ALREADY_CLOSED, s)
      else
        (let ((errCode, names), s1) = v_GetColumnNames V s
         in if errCode \<noteq> E_OK then (errCode, s1)
            else if columnCount s1 \<ge> 0 then (E_OK, s1)
            else (E_OK, s1\<lparr>wholeColumnNames := names, columnMap := index_columns names (columnMap s1),
                           columnCount := int (length names)\<rparr>)))"

text \<open>The opening of every operation on columns: the names are read once, on demand.\<close>

definition need_columns ::
    "('a abs_result_set_scheme) vtable \<Rightarrow> 'a abs_result_set_scheme \<Rightarrow> int \<times> 'a abs_result_set_scheme" where
  "need_columns V s = (if columnCount s < 0 then InitColumnNames V s else (E_OK, s))"

definition GetAllColumnNames :: "('a abs_result_set_scheme) vtable \<Rightarrow> string list \<Rightarrow>
    'a abs_result_set_scheme \<Rightarrow> (int \<times> string list) \<times> 'a abs_result_set_scheme" where
  "GetAllColumnNames V columnNames s =
     (let (errCode, s1) = need_columns V s
      in if columnCount s1 < 0 then ((errCode, columnNames), s1)
         else
           (let n = nat (columnCount s1);
                names = take n columnNames @ replicate (n - length columnNames) [];
                filled = fold (\<lambda>(name, index) acc.
                   if index \<ge> columnCount s1 then acc else acc[nat index := name]) (columnMap s1) names
            in ((E_OK, filled), s1)))"

definition GetWholeColumnNames :: "('a abs_result_set_scheme) vtable \<Rightarrow>
    'a abs_result_set_scheme \<Rightarrow> (int \<times> string list) \<times> 'a abs_result_set_scheme" where
  "GetWholeColumnNames V s =
     (let (errCode, s1) = need_columns V s
      in if columnCount s1 < 0 then ((errCode, []), s1) else ((E_OK, wholeColumnNames s1), s1))"

subsection \<open>Typed reads\<close>

definition invalid_scalar :: "value_object \<Rightarrow> bool" where
  "invalid_scalar object =
     (GetType object = 7 \<or> GetType object = 6 \<or> GetType object = 9 \<or> GetType object = 8)"

definition GetBlob :: "('a abs_result_set_scheme) vtable \<Rightarrow> int \<Rightarrow> byte list \<Rightarrow>
    'a abs_result_set_scheme \<Rightarrow> ((int \<times> byte list) \<times> 'a abs_result_set_scheme) option" where
  "GetBlob V columnIndex blob s = do {
     ((errorCode, object), s1) \<leftarrow> v_Get V columnIndex s;
     Some (if errorCode \<noteq> E_OK then (errorCode, blob)
           else if invalid_scalar object then (E_INVALID_OBJECT_TYPE, operator_blob object)
           else (E_OK, operator_blob object), s1)
   }"

definition GetString :: "('a abs_result_set_scheme) vtable \<Rightarrow> int \<Rightarrow> string \<Rightarrow>
    'a abs_result_set_scheme \<Rightarrow> ((int \<times> string) \<times> 'a abs_result_set_scheme) option" where
  "GetString V columnIndex val s = do {
     ((errorCode, object), s1) \<leftarrow> v_Get V columnIndex s;
     if errorCode \<noteq> E_OK then Some ((errorCode, val), s1)
     else do {
       conv \<leftarrow> operator_string object;
       Some (if invalid_scalar object then (E_INVALID_OBJECT_TYPE, conv) else (E_OK, conv), s1)
     }
   }"

definition GetLong :: "('a abs_result_set_scheme) vtable \<Rightarrow> int \<Rightarrow> int \<Rightarrow>
    'a abs_result_set_scheme \<Rightarrow> ((int \<times> int) \<times> 'a abs_result_set_scheme) option" where
  "GetLong V columnIndex val s = do {
     ((errorCode, object), s1) \<leftarrow> v_Get V columnIndex s;
     if errorCode \<noteq> E_OK then Some ((errorCode, val), s1)
     else do {
       conv \<leftarrow> operator_int64 object;
       Some (if invalid_scalar object then (E_INVALID_OBJECT_TYPE, conv) else (E_OK, conv), s1)
     }
   }"

definition GetInt :: "('a abs_result_set_scheme) vtable \<Rightarrow> int \<Rightarrow> int \<Rightarrow>
    'a abs_result_set_scheme \<Rightarrow> ((int \<times> int) \<times> 'a abs_result_set_scheme) option" where
  "GetInt V columnIndex val s = do {
     ((errCode, temp), s1) \<leftarrow> GetLong V columnIndex 0 s;
     Some (if errCode \<noteq> E_OK then (errCode, val) else (E_OK, to_i32 temp), s1)
   }"

definition IsColumnNull :: "('a abs_result_set_scheme) vtable \<Rightarrow> int \<Rightarrow> bool \<Rightarrow>
    'a abs_result_set_scheme \<Rightarrow> ((int \<times> bool) \<times> 'a abs_result_set_scheme) option" where
  "IsColumnNull V columnIndex isNull s =
     (if lastErr s \<noteq> E_OK then Some ((lastErr s, isNull), s)
      else do {
        ((errCode, columnType), s1) \<leftarrow> v_GetColumnType V columnIndex CT_NULL s;
        Some (if errCode \<noteq> E_OK then (errCode, isNull) else (E_OK, columnType = CT_NULL), s1)
      })"

text \<open>The shape of \<open>GetAsset\<close>, \<open>GetAssets\<close> and \<open>GetFloat32Array\<close>.\<close>

definition get_typed :: "nat \<Rightarrow> (value_object \<Rightarrow> 'v) \<Rightarrow> ('a abs_result_set_scheme) vtable \<Rightarrow> int \<Rightarrow> 'v \<Rightarrow>
    'a abs_result_set_scheme \<Rightarrow> ((int \<times> 'v) \<times> 'a abs_result_set_scheme) option" where
  "get_typed type conv V col val s = do {
     ((errorCode, valueObject), s1) \<leftarrow> v_Get V col s;
     Some (if errorCode \<noteq> E_OK then (errorCode, val)
           else if GetType valueObject = 0 then (E_NULL_OBJECT, val)
           else if GetType valueObject \<noteq> type then (E_INVALID_OBJECT_TYPE, val)
           else (E_OK, conv valueObject), s1)
   }"

definition GetAsset where "GetAsset V col val s = get_typed 6 operator_asset V col val s"
definition GetAssets where "GetAssets V col val s = get_typed 7 operator_assets V col val s"
definition GetFloat32Array where "GetFloat32Array V col val s = get_typed 8 operator_vecs V col val s"

subsection \<open>Rows\<close>

fun GetRow_loop :: "('a abs_result_set_scheme) vtable \<Rightarrow> (string \<times> int) list \<Rightarrow> row_entity \<Rightarrow>
    'a abs_result_set_scheme \<Rightarrow> ((int \<times> row_entity) \<times> 'a abs_result_set_scheme) option" where
  "GetRow_loop V [] r s = Some ((E_OK, r), s)"
| "GetRow_loop V ((name, index) # m) r s = do {
     ((ret, val), s1) \<leftarrow> v_Get V index s;
     if ret \<noteq> E_OK then Some ((ret, r), s1)
     else GetRow_loop V m (RowEntity_Put name index val r) s1
   }"

definition GetRow :: "('a abs_result_set_scheme) vtable \<Rightarrow> row_entity \<Rightarrow>
    'a abs_result_set_scheme \<Rightarrow> ((int \<times> row_entity) \<times> 'a abs_result_set_scheme) option" where
  "GetRow V rowEntity s =
     (let (errCode, s1) = need_columns V s
      in if columnCount s1 < 0 then Some ((errCode, rowEntity), s1)
         else GetRow_loop V (columnMap s1) (RowEntity_Clear (nat (columnCount s1)) rowEntity) s1)"

fun GetRowData_loop :: "('a abs_result_set_scheme) vtable \<Rightarrow> nat \<Rightarrow> int \<Rightarrow> value_object list \<Rightarrow>
    'a abs_result_set_scheme \<Rightarrow> ((int \<times> value_object list) \<times> 'a abs_result_set_scheme) option" where
  "GetRowData_loop V 0 index rowData s = Some ((E_OK, rowData), s)"
| "GetRowData_loop V (Suc m) index rowData s = do {
     ((ret, val), s1) \<leftarrow> v_Get V index s;
     if ret \<noteq> E_OK then Some ((ret, []), s1)
     else GetRowData_loop V m (index + 1) (rowData @ [val]) s1
   }"

definition GetRowData :: "('a abs_result_set_scheme) vtable \<Rightarrow>
    'a abs_result_set_scheme \<Rightarrow> ((int \<times> value_object list) \<times> 'a abs_result_set_scheme) option" where
  "GetRowData V s =
     (if lastErr s \<noteq> E_OK then Some ((lastErr s, []), s)
      else
        (let (errCode, s1) = need_columns V s
         in if columnCount s1 < 0 then Some ((errCode, []), s1)
            else GetRowData_loop V (length (wholeColumnNames s1)) 0 [] s1))"

fun GetRowsData_loop :: "('a abs_result_set_scheme) vtable \<Rightarrow> nat \<Rightarrow> value_object list list \<Rightarrow>
    'a abs_result_set_scheme \<Rightarrow> ((int \<times> value_object list list) \<times> 'a abs_result_set_scheme) option" where
  "GetRowsData_loop V 0 rowsData s = Some ((E_OK, rowsData), s)"
| "GetRowsData_loop V (Suc m) rowsData s = do {
     ((errCode, rowData), s1) \<leftarrow> GetRowData V s;
     if errCode = E_ROW_OUT_RANGE then Some ((E_OK, rowsData), s1)
     else if errCode \<noteq> E_OK then Some ((errCode, []), s1)
     else do {
       (errCode1, s2) \<leftarrow> v_GoToNextRow V s1;
       if errCode1 = E_ROW_OUT_RANGE then Some ((E_OK, rowsData @ [rowData]), s2)
       else if errCode1 \<noteq> E_OK then Some ((errCode1, []), s2)
       else GetRowsData_loop V m (rowsData @ [rowData]) s2
     }
   }"

definition GetRowsData :: "('a abs_result_set_scheme) vtable \<Rightarrow> int \<Rightarrow> int \<Rightarrow>
    'a abs_result_set_scheme \<Rightarrow> ((int \<times> value_object list list) \<times> 'a abs_result_set_scheme) option" where
  "GetRowsData V maxCount position s =
     (if lastErr s \<noteq> E_OK then Some ((lastErr s, []), s)
      else if maxCount < 0 \<or> position < INIT_POS then Some ((E_INVALID_ARGS, []), s)
      else if maxCount = 0 then Some ((E_OK, []), s)
      else if position \<noteq> INIT_POS \<and> position \<noteq> rowPos s
      then do {
        (errCode, s1) \<leftarrow> v_GoToRow V position s;
        if errCode \<noteq> E_OK then Some ((errCode, []), s1) else GetRowsData_loop V (nat maxCount) [] s1
      }
      else if rowPos s = INIT_POS
      then do {
        (errCode, s1) \<leftarrow> v_GoToRow V 0 s;
        if errCode = E_ROW_OUT_RANGE then Some ((E_OK, []), s1)
        else if errCode \<noteq> E_OK then Some ((errCode, []), s1)
        else GetRowsData_loop V (nat maxCount) [] s1
      }
      else GetRowsData_loop V (nat maxCount) [] s)"

subsection \<open>Navigation\<close>

text \<open>The sum in \<open>GoTo\<close> is undefined when it leaves the range of \<open>int\<close>.\<close>

definition add_i32 :: "int \<Rightarrow> int \<Rightarrow> int option" where
  "add_i32 a b = (if - (2 ^ 31) \<le> a + b \<and> a + b < 2 ^ 31 then Some (a + b) else None)"

definition AbsResultSet_GoToRow :: "int \<Rightarrow> 'a abs_result_set_scheme \<Rightarrow> int \<times> 'a abs_result_set_scheme" where
  "AbsResultSet_GoToRow position s = (E_OK, s)"

definition GoTo :: "('a abs_result_set_scheme) vtable \<Rightarrow> int \<Rightarrow>
    'a abs_result_set_scheme \<Rightarrow> (int \<times> 'a abs_result_set_scheme) option" where
  "GoTo V offset s = do { p \<leftarrow> add_i32 (rowPos s) offset; v_GoToRow V p s }"

definition GoToFirstRow :: "('a abs_result_set_scheme) vtable \<Rightarrow>
    'a abs_result_set_scheme \<Rightarrow> (int \<times> 'a abs_result_set_scheme) option" where
  "GoToFirstRow V s = v_GoToRow V 0 s"

definition GoToLastRow :: "('a abs_result_set_scheme) vtable \<Rightarrow>
    'a abs_result_set_scheme \<Rightarrow> (int \<times> 'a abs_result_set_scheme) option" where
  "GoToLastRow V s = do {
     ((ret, rowCnt), s1) \<leftarrow> v_GetRowCount V 0 s;
     if ret \<noteq> E_OK then Some (ret, s1)
     else if rowCnt = 0 then Some (E_ROW_OUT_RANGE, SetLastErrorMsg (BuildRowRangeCtx s1) s1)
     else v_GoToRow V (rowCnt - 1) s1
   }"

definition AbsResultSet_GoToNextRow :: "('a abs_result_set_scheme) vtable \<Rightarrow>
    'a abs_result_set_scheme \<Rightarrow> (int \<times> 'a abs_result_set_scheme) option" where
  "AbsResultSet_GoToNextRow V s = v_GoToRow V (rowPos s + 1) s"

definition GoToPreviousRow :: "('a abs_result_set_scheme) vtable \<Rightarrow>
    'a abs_result_set_scheme \<Rightarrow> (int \<times> 'a abs_result_set_scheme) option" where
  "GoToPreviousRow V s = v_GoToRow V (rowPos s - 1) s"

definition IsAtFirstRow :: "'a abs_result_set_scheme \<Rightarrow> int \<times> bool" where
  "IsAtFirstRow s = (E_OK, rowPos s = 0)"

definition IsAtLastRow :: "('a abs_result_set_scheme) vtable \<Rightarrow> bool \<Rightarrow>
    'a abs_result_set_scheme \<Rightarrow> ((int \<times> bool) \<times> 'a abs_result_set_scheme) option" where
  "IsAtLastRow V result s = do {
     ((ret, rowCnt), s1) \<leftarrow> v_GetRowCount V 0 s;
     Some (if ret \<noteq> E_OK then (ret, result) else (E_OK, rowPos s1 = rowCnt - 1), s1)
   }"

definition IsStarted :: "'a abs_result_set_scheme \<Rightarrow> int \<times> bool" where
  "IsStarted s = (E_OK, rowPos s \<noteq> INIT_POS)"

text \<open>\<open>IsEnded\<close>, with the virtual \<open>GetRowCount\<close> as its first argument.\<close>

definition IsEnded_with :: "(int \<Rightarrow> 'a abs_result_set_scheme \<Rightarrow> ((int \<times> int) \<times> 'a abs_result_set_scheme) option) \<Rightarrow>
    'a abs_result_set_scheme \<Rightarrow> ((int \<times> bool) \<times> 'a abs_result_set_scheme) option" where
  "IsEnded_with get_row_count s = do {
     ((ret, rowCnt), s1) \<leftarrow> get_row_count 0 s;
     Some (if ret \<noteq> E_OK then (ret, True) else (E_OK, rowCnt = 0 \<or> rowPos s1 = rowCnt), s1)
   }"

definition IsEnded :: "('a abs_result_set_scheme) vtable \<Rightarrow>
    'a abs_result_set_scheme \<Rightarrow> ((int \<times> bool) \<times> 'a abs_result_set_scheme) option" where
  "IsEnded V s = IsEnded_with (v_GetRowCount V) s"

subsection \<open>Columns\<close>

definition GetColumnCount :: "('a abs_result_set_scheme) vtable \<Rightarrow> int \<Rightarrow>
    'a abs_result_set_scheme \<Rightarrow> (int \<times> int) \<times> 'a abs_result_set_scheme" where
  "GetColumnCount V count s =
     (if columnCount s \<ge> 0 then ((E_OK, columnCount s), s)
      else
        (let (errCode, s1) = InitColumnNames V s
         in if errCode \<noteq> E_OK then ((errCode, count), s1) else ((E_OK, columnCount s1), s1)))"

definition lower_column :: "string \<Rightarrow> string" where
  "lower_column columnName =
     (let lowerName = Replace columnName ''#_'' [];
          cut = (case str_rfind ''.'' lowerName of
                   Some periodIndex \<Rightarrow> drop (periodIndex + 1) lowerName
                 | None \<Rightarrow> lowerName)
      in map to_lower cut)"

definition GetColumnIndex :: "('a abs_result_set_scheme) vtable \<Rightarrow> string \<Rightarrow>
    'a abs_result_set_scheme \<Rightarrow> (int \<times> int) \<times> 'a abs_result_set_scheme" where
  "GetColumnIndex V columnName s =
     (let (errCode, s1) = need_columns V s
      in if columnCount s1 < 0 then ((errCode, -1), s1)
         else (case map_of (columnMap s1) columnName of
                 Some index \<Rightarrow> ((E_OK, index), s1)
               | None \<Rightarrow>
                   (case find (\<lambda>(name, index). lower_column columnName = map to_lower name) (columnMap s1) of
                      Some (name, index) \<Rightarrow> ((E_OK, index), s1)
                    | None \<Rightarrow> ((E_INVALID_ARGS, -1),
                        SetLastErrorMsg (''The columnName: '' @ Anonymous columnName @ '' is not found'') s1))))"

definition GetColumnName :: "('a abs_result_set_scheme) vtable \<Rightarrow> int \<Rightarrow> string \<Rightarrow>
    'a abs_result_set_scheme \<Rightarrow> (int \<times> string) \<times> 'a abs_result_set_scheme" where
  "GetColumnName V columnIndex columnName s =
     (let (errCode, s1) = need_columns V s;
          msg = ''The columnIndex: '' @ to_string_int columnIndex @ '' is out of range''
      in if columnCount s1 < 0 then ((errCode, columnName), s1)
         else if columnCount s1 \<le> columnIndex \<or> columnIndex < 0
         then ((E_COLUMN_OUT_RANGE, columnName), SetLastErrorMsg msg s1)
         else (case find (\<lambda>(name, index). index = columnIndex) (columnMap s1) of
                 Some (name, index) \<Rightarrow> ((E_OK, name), s1)
               | None \<Rightarrow> ((E_COLUMN_OUT_RANGE, columnName), SetLastErrorMsg msg s1)))"

definition AbsResultSet_Close :: "'a abs_result_set_scheme \<Rightarrow> int \<times> 'a abs_result_set_scheme" where
  "AbsResultSet_Close s =
     (E_OK, s\<lparr>columnMap := [], wholeColumnNames := [], isClosed := True, rowPos := INIT_POS,
              rowCount := NO_COUNT, columnCount := -1\<rparr>)"

definition AbsResultSet_GetColumnNames :: "'a abs_result_set_scheme \<Rightarrow> int \<times> string list" where
  "AbsResultSet_GetColumnNames s = (E_NOT_SUPPORT, [])"

section \<open>The contract of a cursor\<close>

text \<open>
  What a client of a result set relies on: \<open>seek\<close> goes to any existing row, \<open>step\<close> to the next
  one, \<open>peek\<close> reads the row the cursor is at, and none of them changes the rows. \<open>valid\<close> is
  what every call keeps; a call outside the range of the rows may leave the cursor anywhere.
\<close>

locale cursor =
  fixes valid :: "'s \<Rightarrow> bool"
    and rows :: "'s \<Rightarrow> 'r list"
    and pos :: "'s \<Rightarrow> int"
    and seek :: "int \<Rightarrow> 's \<Rightarrow> int \<times> 's"
    and step :: "'s \<Rightarrow> int \<times> 's"
    and peek :: "'s \<Rightarrow> 'r option"
  assumes seek_valid: "valid s \<Longrightarrow> valid (snd (seek p s)) \<and> rows (snd (seek p s)) = rows s"
    and step_valid: "valid s \<Longrightarrow> valid (snd (step s)) \<and> rows (snd (step s)) = rows s"
    and seek_row: "valid s \<Longrightarrow> 0 \<le> p \<Longrightarrow> p < int (length (rows s)) \<Longrightarrow>
      fst (seek p s) = E_OK \<and> pos (snd (seek p s)) = p"
    and step_row: "valid s \<Longrightarrow> -1 \<le> pos s \<Longrightarrow> pos s + 1 < int (length (rows s)) \<Longrightarrow>
      fst (step s) = E_OK \<and> pos (snd (step s)) = pos s + 1"
    and step_end: "valid s \<Longrightarrow> pos s + 1 = int (length (rows s)) \<Longrightarrow> fst (step s) = E_ROW_OUT_RANGE"
    and peek_row: "valid s \<Longrightarrow> 0 \<le> pos s \<Longrightarrow> pos s < int (length (rows s)) \<Longrightarrow>
      peek s = Some (rows s ! nat (pos s))"
begin

text \<open>Any mix of calls, \<open>Some p\<close> for a seek and \<open>None\<close> for a step.\<close>

lemma moves_valid:
  "valid s \<Longrightarrow> valid (fold (\<lambda>m. case m of Some p \<Rightarrow> snd \<circ> seek p | None \<Rightarrow> snd \<circ> step) ms s)
     \<and> rows (fold (\<lambda>m. case m of Some p \<Rightarrow> snd \<circ> seek p | None \<Rightarrow> snd \<circ> step) ms s) = rows s"
proof (induction ms arbitrary: s)
  case (Cons m ms)
  then show ?case by (cases m) (use step_valid seek_valid in auto)
qed simp

lemma seek_peek:
  assumes "valid s" "0 \<le> p" "p < int (length (rows s))"
    and "s' = fold (\<lambda>m. case m of Some p \<Rightarrow> snd \<circ> seek p | None \<Rightarrow> snd \<circ> step) ms s"
  shows "fst (seek p s') = E_OK \<and> peek (snd (seek p s')) = Some (rows s ! nat p)"
proof -
  have v: "valid s'" "rows s' = rows s" using moves_valid [OF assms(1)] assms(4) by auto
  with assms have "fst (seek p s') = E_OK" "pos (snd (seek p s')) = p"
    using seek_row [of s' p] by auto
  moreover have "valid (snd (seek p s'))" "rows (snd (seek p s')) = rows s"
    using seek_valid [OF v(1)] v(2) by auto
  ultimately show ?thesis using peek_row [of "snd (seek p s')"] assms by auto
qed

text \<open>The reading loop: read, go on, until the end or \<open>k\<close> rows.\<close>

fun scan :: "nat \<Rightarrow> 's \<Rightarrow> 'r option list" where
  "scan 0 s = []"
| "scan (Suc k) s = peek s # (if fst (step s) = E_OK then scan k (snd (step s)) else [])"

lemma scan_rows:
  assumes "valid s" "0 \<le> pos s" "pos s < int (length (rows s))"
  shows "scan k s = map Some (take k (drop (nat (pos s)) (rows s)))"
  using assms
proof (induction k arbitrary: s)
  case (Suc k)
  let ?i = "nat (pos s)"
  have i: "?i < length (rows s)" using Suc.prems by linarith
  have dropi: "drop ?i (rows s) = rows s ! ?i # drop (Suc ?i) (rows s)"
    using Cons_nth_drop_Suc [OF i] by simp
  show ?case
  proof (cases "Suc ?i < length (rows s)")
    case True
    then have st: "fst (step s) = E_OK" "pos (snd (step s)) = pos s + 1"
      using step_row [OF Suc.prems(1)] Suc.prems by auto
    have "scan k (snd (step s)) = map Some (take k (drop (nat (pos s + 1)) (rows s)))"
      using Suc.IH [of "snd (step s)"] st step_valid [OF Suc.prems(1)] Suc.prems True by auto
    moreover have "nat (pos s + 1) = Suc ?i" using Suc.prems by linarith
    ultimately show ?thesis using st dropi peek_row [OF Suc.prems] by simp
  next
    case False
    then have "pos s + 1 = int (length (rows s))" using i Suc.prems by linarith
    then have "fst (step s) \<noteq> E_OK" using step_end [OF Suc.prems(1)] by (simp add: errno)
    moreover have "drop (Suc ?i) (rows s) = []" using False by simp
    ultimately show ?thesis using dropi peek_row [OF Suc.prems] by simp
  qed
qed simp

end

section \<open>Column positions\<close>

lemma index_columns_fold:
  "index_columns names m =
     fold (\<lambda>(k, v). om_emplace k v) (map (\<lambda>(i, n). (n, int i)) (enumerate 0 names)) m"
  by (simp add: index_columns_def fold_map comp_def case_prod_unfold)

lemma first_position:
  "map_of (map (\<lambda>(i, n). (n, int i)) (enumerate k names)) n = Some j \<longleftrightarrow>
     (\<exists>i < length names. j = int (k + i) \<and> names ! i = n \<and> n \<notin> set (take i names))"
proof (induction names arbitrary: k)
  case (Cons a names)
  show ?case
  proof (cases "a = n")
    case True
    then show ?thesis by (auto simp: less_Suc_eq_0_disj)
  next
    case False
    have "(\<exists>i < length (a # names). j = int (k + i) \<and> (a # names) ! i = n \<and> n \<notin> set (take i (a # names)))
      \<longleftrightarrow> (\<exists>i < length names. j = int (Suc k + i) \<and> names ! i = n \<and> n \<notin> set (take i names))"
      using False by (auto simp: less_Suc_eq_0_disj)
    with False Cons.IH [of "Suc k"] show ?thesis by simp
  qed
qed simp

lemma index_columns_find:
  "map_of (index_columns names []) n = Some j \<longleftrightarrow>
     (\<exists>i < length names. j = int i \<and> names ! i = n \<and> n \<notin> set (take i names))"
  using first_position [of 0 names n j]
  by (simp add: index_columns_fold smap.find_emplace_all_empty)

lemma index_columns_invar: "om_invar (index_columns names [])"
  unfolding index_columns_fold by (intro smap.invar_emplace_all) simp

lemma om_invar_distinct: "om_invar m \<Longrightarrow> distinct (map fst m)"
  by (simp add: om_invar_def strict_sorted_iff)

lemma index_columns_mem:
  "(n, j) \<in> set (index_columns names []) \<longleftrightarrow>
     (\<exists>i < length names. j = int i \<and> names ! i = n \<and> n \<notin> set (take i names))"
  using index_columns_find [of names n j] index_columns_invar [of names] om_invar_distinct
  by (metis map_of_eq_Some_iff)

lemma index_columns_positions: "distinct (map snd (index_columns names []))"
proof -
  have "inj_on snd (set (index_columns names []))"
    by (auto simp: inj_on_def index_columns_mem)
  with om_invar_distinct [OF index_columns_invar [of names]] show ?thesis
    by (simp add: distinct_map)
qed

lemma GetRow_loop_ok:
  assumes "om_invar (re_values r)" "distinct (map fst m)" "distinct (map snd m)"
    "\<forall>(n, i) \<in> set m. 0 \<le> i \<and> i < int (length (re_indexs r)) \<and> map_of (re_values r) n = None"
    "\<forall>(n, i) \<in> set m. v_Get V i s = Some ((E_OK, vals i), s)"
  shows "\<exists>r'. GetRow_loop V m r s = Some ((E_OK, r'), s)
    \<and> length (re_indexs r') = length (re_indexs r)
    \<and> (\<forall>n. map_of (re_values r') n =
        (case map_of m n of Some i \<Rightarrow> Some (vals i) | None \<Rightarrow> map_of (re_values r) n))
    \<and> (\<forall>j < length (re_indexs r). re_indexs r' ! j =
        (case map_of (map prod.swap m) (int j) of Some n \<Rightarrow> Some n | None \<Rightarrow> re_indexs r ! j))"
  using assms
proof (induction m arbitrary: r)
  case (Cons e m)
  obtain n i where e: "e = (n, i)" by fastforce
  let ?r = "RowEntity_Put n i (vals i) r"
  have i: "0 \<le> i" "i < int (length (re_indexs r))" using Cons.prems(4) e by auto
  have vals: "map_of (re_values ?r) x = (if x = n then Some (vals i) else map_of (re_values r) x)" for x
    using i Cons.prems e by (auto simp: RowEntity_Put_def om_emplace_find split: option.splits)
  have idx: "re_indexs ?r = (re_indexs r)[nat i := Some n]" using i by (simp add: RowEntity_Put_def)
  have ninm: "n \<notin> fst ` set m" "i \<notin> snd ` set m" using Cons.prems e by auto
  have "om_invar (re_values ?r)"
    using Cons.prems(1) by (simp add: RowEntity_Put_def om_emplace_invar)
  moreover have "\<forall>(n', i') \<in> set m. 0 \<le> i' \<and> i' < int (length (re_indexs ?r)) \<and> map_of (re_values ?r) n' = None"
    using Cons.prems(4) vals ninm e by (force simp: idx)
  ultimately obtain r' where r': "GetRow_loop V m ?r s = Some ((E_OK, r'), s)"
    "length (re_indexs r') = length (re_indexs ?r)"
    "\<And>x. map_of (re_values r') x = (case map_of m x of Some i \<Rightarrow> Some (vals i) | None \<Rightarrow> map_of (re_values ?r) x)"
    "\<And>j. j < length (re_indexs ?r) \<Longrightarrow> re_indexs r' ! j =
       (case map_of (map prod.swap m) (int j) of Some n \<Rightarrow> Some n | None \<Rightarrow> re_indexs ?r ! j)"
    using Cons.IH [of ?r] Cons.prems(2,3,5) e by auto
  have "GetRow_loop V (e # m) r s = Some ((E_OK, r'), s)"
    using Cons.prems(5) e r'(1) by simp
  moreover have "map_of (re_values r') x =
      (case map_of (e # m) x of Some i \<Rightarrow> Some (vals i) | None \<Rightarrow> map_of (re_values r) x)" for x
  proof -
    have "map_of m n = None" using ninm(1) by (simp add: map_of_eq_None_iff)
    then show ?thesis using r'(3) [of x] vals [of x] e by (auto split: option.splits)
  qed
  moreover have "re_indexs r' ! j =
      (case map_of (map prod.swap (e # m)) (int j) of Some n \<Rightarrow> Some n | None \<Rightarrow> re_indexs r ! j)"
    if "j < length (re_indexs r)" for j
  proof -
    have "map_of (map prod.swap m) i = None"
      using ninm(2) by (force simp: map_of_eq_None_iff)
    then show ?thesis
      using r'(4) [of j] that i e by (auto simp: idx nth_list_update split: option.splits)
  qed
  ultimately show ?case using r'(2) idx by simp
qed simp

section \<open>Properties\<close>

text \<open>
  C22: a row read by \<open>GetRow\<close> gives by position the value of the column at that position, where no
  earlier column has the same name; at the position of a repeated name the row holds a singular
  iterator, and reading it is undefined.
\<close>

theorem GetRow_by_position:
  assumes "columnCount s = int (length names)" "columnMap s = index_columns names []"
    and "\<And>i. 0 \<le> i \<Longrightarrow> i < int (length names) \<Longrightarrow> v_Get V i s = Some ((E_OK, vals i), s)"
  shows "\<exists>r. GetRow V r0 s = Some ((E_OK, r), s)
    \<and> (\<forall>i < length names. RowEntity_Get (int i) r =
        (if names ! i \<in> set (take i names) then None else Some (vals (int i))))"
proof -
  let ?m = "index_columns names []"
  let ?r0 = "RowEntity_Clear (length names) r0"
  have "\<forall>(n, i) \<in> set ?m. 0 \<le> i \<and> i < int (length (re_indexs ?r0)) \<and> map_of (re_values ?r0) n = None"
    "\<forall>(n, i) \<in> set ?m. v_Get V i s = Some ((E_OK, vals i), s)"
    using assms(3) by (auto simp: index_columns_mem RowEntity_Clear_def)
  from GetRow_loop_ok [OF _ om_invar_distinct [OF index_columns_invar] index_columns_positions this]
  obtain r where r: "GetRow_loop V ?m ?r0 s = Some ((E_OK, r), s)"
    "length (re_indexs r) = length names"
    "\<And>n. map_of (re_values r) n = map_option vals (map_of ?m n)"
    "\<And>j. j < length names \<Longrightarrow> re_indexs r ! j = map_of (map prod.swap ?m) (int j)"
    by (force simp: RowEntity_Clear_def map_option_case split: option.splits)
  have "RowEntity_Get (int i) r =
      (if names ! i \<in> set (take i names) then None else Some (vals (int i)))" if "i < length names" for i
  proof (cases "names ! i \<in> set (take i names)")
    case True
    have "map_of (map prod.swap ?m) (int i) = None"
      using True by (auto simp: map_of_eq_None_iff index_columns_mem)
    with True show ?thesis using r(2,4) that by (simp add: RowEntity_Get_def)
  next
    case False
    then have mem: "(names ! i, int i) \<in> set ?m" using that by (auto simp: index_columns_mem)
    have "distinct (map fst (map prod.swap ?m))" using index_columns_positions by (simp add: comp_def)
    moreover have "(int i, names ! i) \<in> set (map prod.swap ?m)" using mem by force
    ultimately have "map_of (map prod.swap ?m) (int i) = Some (names ! i)" by (rule map_of_is_SomeI)
    moreover have "map_of ?m (names ! i) = Some (int i)"
      using mem om_invar_distinct [OF index_columns_invar] by (rule map_of_is_SomeI [rotated])
    ultimately show ?thesis using False r(2,3,4) that by (simp add: RowEntity_Get_def)
  qed
  moreover have "GetRow V r0 s = Some ((E_OK, r), s)"
    using assms(1,2) r(1) by (simp add: GetRow_def need_columns_def)
  ultimately show ?thesis by blast
qed

text \<open>A result set with the columns \<open>a\<close>, \<open>a\<close> and \<open>b\<close>.\<close>

definition dup_columns :: abs_result_set where
  "dup_columns = \<lparr>lastErrMsg = [], rowPos = 0, isClosed = False, rowCount = 1, lastErr = E_OK,
     columnCount = 3, wholeColumnNames = [''a'', ''a'', ''b''],
     columnMap = index_columns [''a'', ''a'', ''b''] []\<rparr>"

definition dup_vtable :: "abs_result_set vtable" where
  "dup_vtable = \<lparr>v_GetColumnNames = (\<lambda>s. ((E_OK, [''a'', ''a'', ''b'']), s)),
     v_Get = (\<lambda>i s. Some ((E_OK, VInt i), s)), v_GoToRow = (\<lambda>p s. Some (E_OK, s)),
     v_GoToNextRow = (\<lambda>s. Some (E_OK, s)), v_GetRowCount = (\<lambda>c s. Some ((E_OK, 1), s)),
     v_GetColumnType = (\<lambda>i t s. Some ((E_OK, CT_INTEGER), s))\<rparr>"

theorem GetRow_by_position_witness:
  "\<exists>r. GetRow dup_vtable RowEntity_new dup_columns = Some ((E_OK, r), dup_columns)
    \<and> RowEntity_Get 1 r = None \<and> RowEntity_Get 2 r = Some (VInt 2)"
proof -
  have "columnCount dup_columns = int (length [''a'', ''a'', ''b''])"
    "columnMap dup_columns = index_columns [''a'', ''a'', ''b''] []"
    "\<And>i. v_Get dup_vtable i dup_columns = Some ((E_OK, VInt i), dup_columns)"
    by (simp_all add: dup_columns_def dup_vtable_def)
  from GetRow_by_position [OF this, of RowEntity_new] obtain r where
    r: "GetRow dup_vtable RowEntity_new dup_columns = Some ((E_OK, r), dup_columns)"
    "\<forall>i < 3. RowEntity_Get (int i) r =
        (if [''a'', ''a'', ''b''] ! i \<in> set (take i [''a'', ''a'', ''b'']) then None else Some (VInt (int i)))"
    by (auto simp: numeral_3_eq_3)
  from r(2) [rule_format, of 1] r(2) [rule_format, of 2] r(1) show ?thesis by auto
qed

end
