(* ===== verification/Step_Result_Set.thy ===== *)
theory Step_Result_Set
  imports Result_Set
begin

text \<open>
  \<open>StepResultSet\<close> (\<open>step_result_set.cpp\<close>, \<open>step_result_set.h\<close>): the cursor that steps a prepared
  statement forward and resets it to go back.

  The class \<open>Statement\<close> is an interface: its methods are the record \<open>statement_ops\<close> over the
  state \<open>'s\<close> of a statement, and \<open>create\<close> stands for \<open>Connection::CreateStatement\<close>. What the
  properties need of a statement that serves a fixed list of rows is \<open>serves\<close>. The locks guard
  single accesses and the sleeps between retries have no effect on the state.
\<close>

section \<open>\<open>Statement\<close>\<close>

abbreviation INVALID_COUNT :: int where "INVALID_COUNT \<equiv> -1"

record 's statement_ops =
  st_Step :: "'s \<Rightarrow> int \<times> 's"
  st_Reset :: "'s \<Rightarrow> int \<times> 's"
  st_Count :: "'s \<Rightarrow> ((int \<times> int) \<times> 's) option"
  st_Bind :: "value_object list \<Rightarrow> 's \<Rightarrow> int \<times> 's"
  st_ReadOnly :: "'s \<Rightarrow> bool"
  st_GetColumnCount :: "'s \<Rightarrow> int"
  st_GetColumnName :: "int \<Rightarrow> 's \<Rightarrow> int \<times> string"
  st_GetColumnType :: "int \<Rightarrow> 's \<Rightarrow> (int \<times> column_type) \<times> 's"
  st_GetSize :: "int \<Rightarrow> 's \<Rightarrow> (int \<times> nat) \<times> 's"
  st_GetColumn :: "int \<Rightarrow> 's \<Rightarrow> (int \<times> value_object) \<times> 's"
  st_GetLastErrorMsg :: "'s \<Rightarrow> string"

section \<open>\<open>StepResultSet\<close>\<close>

record 's step_result_set = abs_result_set +
  isSupportCountRow :: bool
  isGotoNextRowReturnLastError :: bool
  statement :: "'s option"
  conn :: bool
  srs_sql :: string
  srs_args :: "value_object list"

definition GetStatement :: "'s step_result_set \<Rightarrow> 's option" where
  "GetStatement s = (if isClosed s \<or> \<not> conn s then None else statement s)"

definition PrepareStep ::
    "'s statement_ops \<Rightarrow> (string \<Rightarrow> int \<times> 's option) \<Rightarrow> 's step_result_set \<Rightarrow> int \<times> 's step_result_set" where
  "PrepareStep S create s =
     (if statement s \<noteq> None then (E_OK, s)
      else if isClosed s \<or> \<not> conn s then (E_ALREADY_CLOSED, s\<lparr>lastErr := E_ALREADY_CLOSED\<rparr>)
      else if GetSqlStatementType (srs_sql s) = STATEMENT_ERROR
      then (E_INVALID_ARGS, s\<lparr>lastErr := E_INVALID_ARGS\<rparr>)
      else
        (case create (srs_sql s) of
           (errCode, None) \<Rightarrow> (E_STATEMENT_NOT_PREPARED, s\<lparr>lastErr := errCode\<rparr>)
         | (errCode, Some t) \<Rightarrow>
             if errCode \<noteq> E_OK then (E_STATEMENT_NOT_PREPARED, s\<lparr>lastErr := errCode\<rparr>)
             else if \<not> st_ReadOnly S t then (E_NOT_SELECT, s\<lparr>lastErr := E_NOT_SELECT\<rparr>)
             else
               (let (errCode1, t1) = st_Bind S (srs_args s) t
                in if errCode1 \<noteq> E_OK then (errCode1, s\<lparr>lastErr := errCode1\<rparr>)
                   else (E_OK, s\<lparr>statement := Some t1\<rparr>))))"

definition StepResultSet_new ::
    "'s statement_ops \<Rightarrow> (string \<Rightarrow> int \<times> 's option) \<Rightarrow> bool \<Rightarrow> string \<Rightarrow> value_object list \<Rightarrow> bool \<Rightarrow> bool \<Rightarrow>
      's step_result_set option" where
  "StepResultSet_new S create hasConn sql args preCount gotoNextRowReturnLastError =
     (let s0 = \<lparr>lastErrMsg = [], rowPos = INIT_POS, isClosed = False, rowCount = NO_COUNT, lastErr = E_OK,
                columnCount = -1, wholeColumnNames = [], columnMap = [], isSupportCountRow = True,
                isGotoNextRowReturnLastError = False, statement = None, conn = hasConn, srs_sql = sql,
                srs_args = args\<rparr>
      in if \<not> conn s0 then Some (s0\<lparr>isClosed := True\<rparr>)
         else
           (let (errCode, s1) = PrepareStep S create
                  (s0\<lparr>isGotoNextRowReturnLastError := gotoNextRowReturnLastError\<rparr>)
            in if errCode \<noteq> E_OK then Some s1
               else (case GetStatement s1 of
                       None \<Rightarrow> Some s1
                     | Some t \<Rightarrow> do {
                         s2 \<leftarrow> (if preCount
                               then do {
                                 ((e, n), t1) \<leftarrow> st_Count S t;
                                 Some (s1\<lparr>lastErr := e, rowCount := n, statement := Some t1\<rparr>)
                               }
                               else Some (s1\<lparr>isSupportCountRow := False\<rparr>));
                         Some (if lastErr s2 = E_NOT_SUPPORT \<and> rowCount s2 = INVALID_COUNT
                               then s2\<lparr>isSupportCountRow := False, lastErr := E_OK\<rparr> else s2)
                       })))"

fun Step_GetColumnNames_loop :: "'s statement_ops \<Rightarrow> 's \<Rightarrow> nat \<Rightarrow> int \<Rightarrow> string list \<Rightarrow> int \<times> string list" where
  "Step_GetColumnNames_loop S t 0 i names = (E_OK, names)"
| "Step_GetColumnNames_loop S t (Suc m) i names =
     (let (code, colName) = st_GetColumnName S i t
      in if code \<noteq> 0 then (code, [])
         else Step_GetColumnNames_loop S t m (i + 1) (names @ [colName]))"

definition Step_GetColumnNames :: "'s statement_ops \<Rightarrow> 's step_result_set \<Rightarrow> int \<times> string list" where
  "Step_GetColumnNames S s =
     (if lastErr s \<noteq> E_OK then (lastErr s, [])
      else (case GetStatement s of
              None \<Rightarrow> (E_ALREADY_CLOSED, [])
            | Some t \<Rightarrow> Step_GetColumnNames_loop S t (nat (st_GetColumnCount S t)) 0 []))"

definition Step_Reset :: "'s statement_ops \<Rightarrow> 's step_result_set \<Rightarrow> int \<times> 's step_result_set" where
  "Step_Reset S s =
     (let s1 = s\<lparr>rowPos := INIT_POS\<rparr>
      in case GetStatement s1 of
           None \<Rightarrow> (E_OK, s1)
         | Some t \<Rightarrow> (let (e, t1) = st_Reset S t in (e, s1\<lparr>statement := Some t1\<rparr>)))"

definition STEP_QUERY_RETRY_MAX_TIMES :: nat where "STEP_QUERY_RETRY_MAX_TIMES = 50"

text \<open>
  The retry loop; the fuel is the number of retries left, \<open>STEP_QUERY_RETRY_MAX_TIMES + 1\<close> at the
  start because the counter is compared with \<open>>\<close>. \<open>None\<close> is the early return on too many.
\<close>

fun step_retry :: "'s statement_ops \<Rightarrow> nat \<Rightarrow> int \<Rightarrow> 's \<Rightarrow> int option \<times> 's" where
  "step_retry S left errCode t =
     (if errCode = E_SQLITE_LOCKED \<or> errCode = E_SQLITE_BUSY
      then (case left of
              0 \<Rightarrow> (None, t)
            | Suc m \<Rightarrow> (let (e, t1) = st_Step S t in step_retry S m e t1))
      else (Some errCode, t))"

declare step_retry.simps [simp del]

definition Step_GoToNextRow :: "'s statement_ops \<Rightarrow> 's step_result_set \<Rightarrow> int \<times> 's step_result_set" where
  "Step_GoToNextRow S s =
     (if isGotoNextRowReturnLastError s \<and> lastErr s \<noteq> E_OK then (lastErr s, s)
      else if isClosed s then (E_ALREADY_CLOSED, s)
      else
        (case GetStatement s of
           None \<Rightarrow> (E_ALREADY_CLOSED, s)
         | Some t \<Rightarrow>
             (let (e0, t0) = st_Step S t;
                  (res, t1) = step_retry S (STEP_QUERY_RETRY_MAX_TIMES + 1) e0 t0;
                  s1 = s\<lparr>statement := Some t1\<rparr>
              in case res of
                   None \<Rightarrow> (E_STEP_RESULT_QUERY_EXCEEDED, s1)
                 | Some errCode \<Rightarrow>
                     if errCode = E_OK then (E_OK, s1\<lparr>rowPos := rowPos s1 + 1\<rparr>)
                     else if errCode = E_NO_MORE_ROWS
                     then
                       (let s2 = (if isSupportCountRow s1 \<or> rowCount s1 \<noteq> INVALID_COUNT
                                  then s1\<lparr>rowPos := (if rowCount s1 \<noteq> 0 then rowCount s1 else rowPos s1)\<rparr>
                                  else s1\<lparr>rowPos := rowPos s1 + 1, rowCount := rowPos s1 + 1\<rparr>)
                        in (E_ROW_OUT_RANGE, SetLastErrorMsg (BuildRowRangeCtx s2) s2))
                     else
                       (let s2 = snd (Step_Reset S (SetLastErrorMsg (st_GetLastErrorMsg S t1) s1))
                        in (errCode, s2\<lparr>rowPos := rowCount s2\<rparr>)))))"

lemma Step_GoToNextRow_OK:
  "fst (Step_GoToNextRow S s) = E_OK \<Longrightarrow> rowPos (snd (Step_GoToNextRow S s)) = rowPos s + 1"
  by (auto simp: Step_GoToNextRow_def Let_def errno split: if_splits option.splits prod.splits)

text \<open>
  The forward loop of \<open>GoToRow\<close>. It is entered with \<open>rowPos_ \<le> position\<close>, where
  \<open>position != rowPos_\<close> is \<open>rowPos_ < position\<close>; every successful step brings the position one
  nearer.
\<close>

function GoToRow_loop :: "'s statement_ops \<Rightarrow> int \<Rightarrow> 's step_result_set \<Rightarrow> int \<times> 's step_result_set" where
  "GoToRow_loop S position s =
     (if position \<le> rowPos s then (E_OK, s)
      else
        (let (errCode, s1) = Step_GoToNextRow S s
         in if errCode \<noteq> E_OK then (errCode, s1) else GoToRow_loop S position s1))"
  by pat_completeness auto
termination
proof (relation "measure (\<lambda>(S, position, s). nat (position - rowPos s))")
  fix S position s x errCode s1
  assume "\<not> position \<le> rowPos s" "x = Step_GoToNextRow S s" "(errCode, s1) = x" "\<not> errCode \<noteq> E_OK"
  then show "((S, position, s1), (S, position, s)) \<in> measure (\<lambda>(S, position, s). nat (position - rowPos s))"
    using Step_GoToNextRow_OK [of S s] by (simp add: prod_eq_iff)
qed simp

declare GoToRow_loop.simps [simp del]

lemma Step_Reset_pos [simp]: "rowPos (snd (Step_Reset S s)) = INIT_POS"
  by (auto simp: Step_Reset_def Let_def split: option.splits prod.splits)

function Step_GoToRow :: "'s statement_ops \<Rightarrow> int \<Rightarrow> 's step_result_set \<Rightarrow> int \<times> 's step_result_set" where
  "Step_GoToRow S position s =
     (if isClosed s then (E_ALREADY_CLOSED, s)
      else if lastErr s \<noteq> E_OK then (lastErr s, s)
      else if isSupportCountRow s \<and> position \<ge> rowCount s
      then
        (let s1 = s\<lparr>rowPos := (if position \<ge> rowCount s \<and> rowCount s \<noteq> 0 then rowCount s else rowPos s)\<rparr>
         in (E_ROW_OUT_RANGE, SetLastErrorMsg (BuildRowRangeCtx s1) s1))
      else if position < 0 then (E_ROW_OUT_RANGE, SetLastErrorMsg (BuildRowRangeCtx s) s)
      else if position < rowPos s then Step_GoToRow S position (snd (Step_Reset S s))
      else GoToRow_loop S position s)"
  by pat_completeness auto
termination
  by (relation "measure (\<lambda>(S, position, s). if position < rowPos s then 1 else 0)") auto

declare Step_GoToRow.simps [simp del]

definition Step_Close :: "'s statement_ops \<Rightarrow> 's step_result_set \<Rightarrow> int \<times> 's step_result_set" where
  "Step_Close S s =
     (if isClosed s then (E_OK, s)
      else (E_OK, snd (Step_Reset S
        (s\<lparr>isClosed := True, conn := False, statement := None, srs_args := [], srs_sql := []\<rparr>))))"

text \<open>
  The counting loop of \<open>GetRowCount\<close>. A statement may serve rows for ever, so the loop need not
  return; the code of the break is \<open>E_ROW_OUT_RANGE\<close>.
\<close>

partial_function (option) count_loop ::
    "'s statement_ops \<Rightarrow> 's step_result_set \<Rightarrow> (int \<times> 's step_result_set) option" where
  "count_loop S s =
     (let (ret, s1) = Step_GoToNextRow S s
      in if ret = E_ROW_OUT_RANGE then Some (ret, s1\<lparr>rowCount := rowPos s1\<rparr>)
         else if ret \<noteq> E_OK then Some (ret, s1)
         else count_loop S s1)"

definition Step_GetRowCount :: "'s statement_ops \<Rightarrow> int \<Rightarrow> 's step_result_set \<Rightarrow>
    ((int \<times> int) \<times> 's step_result_set) option" where
  "Step_GetRowCount S count s =
     (if isSupportCountRow s \<or> rowCount s \<noteq> INVALID_COUNT
      then Some (AbsResultSet_GetRowCount count s, s)
      else do {
        (ret, s1) \<leftarrow> count_loop S s;
        Some (if ret \<noteq> E_ROW_OUT_RANGE then ((ret, count), s1)
              else ((E_OK, rowCount s1),
                    if rowPos s \<noteq> INIT_POS then snd (Step_GoToRow S (rowPos s) s1)
                    else snd (Step_Reset S s1)))
      })"

text \<open>The guard of the operations on the current row: before the first row or past the last.\<close>

definition out_of_row :: "'s statement_ops \<Rightarrow> 's step_result_set \<Rightarrow> (bool \<times> 's step_result_set) option" where
  "out_of_row S s =
     (if rowPos s = INIT_POS then Some (True, s)
      else if isSupportCountRow s \<or> rowCount s \<noteq> INVALID_COUNT
      then do {
        ((ret, ended), s1) \<leftarrow> IsEnded_with (Step_GetRowCount S) s;
        Some (ended, s1)
      }
      else Some (False, s))"

definition Step_GetColumnType :: "'s statement_ops \<Rightarrow> int \<Rightarrow> column_type \<Rightarrow> 's step_result_set \<Rightarrow>
    ((int \<times> column_type) \<times> 's step_result_set) option" where
  "Step_GetColumnType S columnIndex columnType s =
     (if isClosed s then Some ((E_ALREADY_CLOSED, columnType), s)
      else do {
        (out, s1) \<leftarrow> out_of_row S s;
        if out then Some ((E_ROW_OUT_RANGE, columnType), SetLastErrorMsg (BuildRowRangeCtx s1) s1)
        else (case GetStatement s1 of
                None \<Rightarrow> Some ((E_ALREADY_CLOSED, columnType), s1)
              | Some t \<Rightarrow>
                  (let ((errCode, outPutType), t1) = st_GetColumnType S columnIndex t;
                       s2 = s1\<lparr>statement := Some t1\<rparr>
                   in Some (if errCode \<noteq> E_OK then (errCode, columnType) else (E_OK, outPutType), s2)))
      })"

definition GetValueObject :: "'s statement_ops \<Rightarrow> int \<Rightarrow> nat \<Rightarrow> 's step_result_set \<Rightarrow>
    ((int \<times> value_object) \<times> 's step_result_set) option" where
  "GetValueObject S col index s = do {
     (out, s1) \<leftarrow> out_of_row S s;
     if out then Some ((E_ROW_OUT_RANGE, VNull), SetLastErrorMsg (BuildRowRangeCtx s1) s1)
     else (case GetStatement s1 of
             None \<Rightarrow> Some ((E_ALREADY_CLOSED, VNull), s1)
           | Some t \<Rightarrow>
               (let ((ret, val), t1) = st_GetColumn S col t;
                    s2 = s1\<lparr>statement := Some t1\<rparr>;
                    s3 = (if ret = E_COLUMN_OUT_RANGE
                          then SetLastErrorMsg (''The columnIndex: '' @ to_string_int col @ '' is out of range'') s2
                          else s2)
                in Some (if index < TYPE_MAX \<and> GetType val \<noteq> index then (E_INVALID_COLUMN_TYPE, VNull)
                         else (ret, val), s3)))
   }"

text \<open>\<open>Get\<close> calls \<open>GetValue<ValueObject>\<close>, whose type index is \<open>TYPE_MAX\<close>.\<close>

definition Step_Get :: "'s statement_ops \<Rightarrow> int \<Rightarrow> 's step_result_set \<Rightarrow>
    ((int \<times> value_object) \<times> 's step_result_set) option" where
  "Step_Get S col s =
     (if isClosed s then Some ((E_ALREADY_CLOSED, VNull), s)
      else do {
        ((errCode, object), s1) \<leftarrow> GetValueObject S col TYPE_MAX s;
        Some (if errCode \<noteq> E_OK then (errCode, VNull) else (E_OK, object), s1)
      })"

definition Step_GetSize :: "'s statement_ops \<Rightarrow> int \<Rightarrow> nat \<Rightarrow> 's step_result_set \<Rightarrow>
    ((int \<times> nat) \<times> 's step_result_set) option" where
  "Step_GetSize S columnIndex sz s =
     (if isClosed s then Some ((E_ALREADY_CLOSED, sz), s)
      else do {
        (out, s1) \<leftarrow> out_of_row S s;
        if out then Some ((E_ROW_OUT_RANGE, 0), SetLastErrorMsg (BuildRowRangeCtx s1) s1)
        else (case GetStatement s1 of
                None \<Rightarrow> Some ((E_ALREADY_CLOSED, sz), s1)
              | Some t \<Rightarrow> (let (r, t1) = st_GetSize S columnIndex t in Some (r, s1\<lparr>statement := Some t1\<rparr>)))
      })"

definition Step_GetLastErrorMsg :: "string \<Rightarrow> 's step_result_set \<Rightarrow> string" where
  "Step_GetLastErrorMsg connMsg s =
     (if lastErrMsg s \<noteq> [] then lastErrMsg s else if conn s then connMsg else [])"

definition step_vtable :: "'s statement_ops \<Rightarrow> ('s step_result_set) vtable" where
  "step_vtable S =
     \<lparr>v_GetColumnNames = (\<lambda>s. (Step_GetColumnNames S s, s)), v_Get = Step_Get S,
      v_GoToRow = (\<lambda>p s. Some (Step_GoToRow S p s)), v_GoToNextRow = (\<lambda>s. Some (Step_GoToNextRow S s)), v_GetRowCount = Step_GetRowCount S,
      v_GetColumnType = Step_GetColumnType S\<rparr>"

lemma step_vtable_simps [simp]:
  "v_GetColumnNames (step_vtable S) s = (Step_GetColumnNames S s, s)" "v_Get (step_vtable S) = Step_Get S"
  "v_GoToRow (step_vtable S) p s = Some (Step_GoToRow S p s)" "v_GoToNextRow (step_vtable S) s = Some (Step_GoToNextRow S s)"
  "v_GetRowCount (step_vtable S) = Step_GetRowCount S"
  "v_GetColumnType (step_vtable S) = Step_GetColumnType S"
  by (simp_all add: step_vtable_def)

section \<open>A statement that serves a list of rows\<close>

text \<open>
  \<open>at\<close> counts the rows stepped since the last reset. Stepping past the last row reports the end
  and leaves the statement ready to start over, as SQLite does.
\<close>

definition serves ::
    "'s statement_ops \<Rightarrow> ('s \<Rightarrow> bool) \<Rightarrow> ('s \<Rightarrow> nat) \<Rightarrow> string list \<Rightarrow> value_object list list \<Rightarrow> bool" where
  "serves S ok at names rows \<longleftrightarrow>
     (\<forall>t. ok t \<longrightarrow> at t < length rows \<longrightarrow>
        fst (st_Step S t) = E_OK \<and> ok (snd (st_Step S t)) \<and> at (snd (st_Step S t)) = Suc (at t)) \<and>
     (\<forall>t. ok t \<longrightarrow> at t = length rows \<longrightarrow>
        fst (st_Step S t) = E_NO_MORE_ROWS \<and> ok (snd (st_Step S t)) \<and> at (snd (st_Step S t)) = 0) \<and>
     (\<forall>t. ok t \<longrightarrow> ok (snd (st_Reset S t)) \<and> at (snd (st_Reset S t)) = 0) \<and>
     (\<forall>t i. ok t \<longrightarrow> 0 < at t \<longrightarrow> at t \<le> length rows \<longrightarrow> i < length names \<longrightarrow>
        fst (st_GetColumn S (int i) t) = (E_OK, rows ! (at t - 1) ! i) \<and>
        ok (snd (st_GetColumn S (int i) t)) \<and> at (snd (st_GetColumn S (int i) t)) = at t) \<and>
     (\<forall>t. ok t \<longrightarrow> st_GetColumnCount S t = int (length names)) \<and>
     (\<forall>t i. ok t \<longrightarrow> i < length names \<longrightarrow> st_GetColumnName S (int i) t = (E_OK, names ! i)) \<and>
     list_all (\<lambda>row. length row = length names) rows"

lemma serves_step:
  "serves S ok at names rows \<Longrightarrow> ok t \<Longrightarrow> at t < length rows \<Longrightarrow>
     \<exists>t1. st_Step S t = (E_OK, t1) \<and> ok t1 \<and> at t1 = Suc (at t)"
  unfolding serves_def by (metis prod.collapse)

lemma serves_end:
  "serves S ok at names rows \<Longrightarrow> ok t \<Longrightarrow> at t = length rows \<Longrightarrow>
     \<exists>t1. st_Step S t = (E_NO_MORE_ROWS, t1) \<and> ok t1 \<and> at t1 = 0"
  unfolding serves_def by (metis prod.collapse)

lemma serves_reset:
  "serves S ok at names rows \<Longrightarrow> ok t \<Longrightarrow> \<exists>e t1. st_Reset S t = (e, t1) \<and> ok t1 \<and> at t1 = 0"
  unfolding serves_def by (metis prod.collapse)

lemma serves_column:
  "serves S ok at names rows \<Longrightarrow> ok t \<Longrightarrow> 0 < at t \<Longrightarrow> at t \<le> length rows \<Longrightarrow> i < length names \<Longrightarrow>
     \<exists>t1. st_GetColumn S (int i) t = ((E_OK, rows ! (at t - 1) ! i), t1) \<and> ok t1 \<and> at t1 = at t"
  unfolding serves_def by (metis prod.collapse)

lemma serves_names:
  "serves S ok at names rows \<Longrightarrow> ok t \<Longrightarrow> st_GetColumnCount S t = int (length names)"
  "serves S ok at names rows \<Longrightarrow> ok t \<Longrightarrow> i < length names \<Longrightarrow> st_GetColumnName S (int i) t = (E_OK, names ! i)"
  unfolding serves_def by auto

section \<open>The invariant of the cursor\<close>

text \<open>
  Before the end the statement is at the row of the cursor; at the end or past it the position
  of the statement is arbitrary, but the number of rows is known.
\<close>

definition srs_inv ::
    "('s \<Rightarrow> bool) \<Rightarrow> ('s \<Rightarrow> nat) \<Rightarrow> string list \<Rightarrow> 'r list \<Rightarrow> 's step_result_set \<Rightarrow> bool" where
  "srs_inv ok at names rows s \<longleftrightarrow>
     \<not> isClosed s \<and> conn s \<and> lastErr s = E_OK
     \<and> (\<exists>t. statement s = Some t \<and> ok t \<and> at t \<le> length rows
          \<and> (rowPos s = int (at t) - 1 \<and> rowPos s < int (length rows)
             \<or> rowPos s \<ge> int (length rows) \<and> rowCount s = int (length rows)))
     \<and> (isSupportCountRow s \<longrightarrow> rowCount s = int (length rows))
     \<and> (rowCount s = -1 \<or> rowCount s = int (length rows))
     \<and> (columnCount s = -1 \<or> columnCount s = int (length names) \<and> length (wholeColumnNames s) = length names)"

lemma srs_inv_msg [simp]: "srs_inv ok at names rows (SetLastErrorMsg m s) = srs_inv ok at names rows s"
  by (simp add: srs_inv_def SetLastErrorMsg_def)

lemma SetLastErrorMsg_selectors [simp]:
  "rowPos (SetLastErrorMsg m s) = rowPos s" "rowCount (SetLastErrorMsg m s) = rowCount s"
  "isSupportCountRow (SetLastErrorMsg m s) = isSupportCountRow s"
  by (simp_all add: SetLastErrorMsg_def)

lemma step_retry_quiet [simp]:
  "step_retry S n E_OK t = (Some E_OK, t)" "step_retry S n E_NO_MORE_ROWS t = (Some E_NO_MORE_ROWS, t)"
  by (simp_all add: step_retry.simps errno)

lemma next_within:
  assumes "serves S ok at names rows" "srs_inv ok at names rows s" "rowPos s + 1 < int (length rows)"
  shows "\<exists>s1. Step_GoToNextRow S s = (E_OK, s1) \<and> srs_inv ok at names rows s1 \<and> rowPos s1 = rowPos s + 1"
proof -
  obtain t where t: "statement s = Some t" "ok t" "rowPos s = int (at t) - 1"
    using assms(2,3) by (auto simp: srs_inv_def)
  with assms(3) have "at t < length rows" by linarith
  from serves_step [OF assms(1) t(2) this] obtain t1 where "st_Step S t = (E_OK, t1)" "ok t1" "at t1 = Suc (at t)"
    by blast
  with t assms(2,3) show ?thesis
    by (auto simp: Step_GoToNextRow_def GetStatement_def srs_inv_def)
qed

lemma next_at_last:
  assumes "serves S ok at names rows" "srs_inv ok at names rows s" "rowPos s + 1 = int (length rows)"
  shows "\<exists>s1. Step_GoToNextRow S s = (E_ROW_OUT_RANGE, s1) \<and> srs_inv ok at names rows s1
    \<and> (rows \<noteq> [] \<or> \<not> isSupportCountRow s \<and> rowCount s = -1 \<longrightarrow>
        rowPos s1 = int (length rows) \<and> rowCount s1 = int (length rows))
    \<and> (\<exists>t1. statement s1 = Some t1 \<and> at t1 = 0)"
proof -
  obtain t where t: "statement s = Some t" "ok t" "at t = length rows"
    using assms(2,3) by (auto simp: srs_inv_def)
  from serves_end [OF assms(1) t(2,3)] obtain t1 where "st_Step S t = (E_NO_MORE_ROWS, t1)" "ok t1" "at t1 = 0"
    by blast
  moreover have "E_NO_MORE_ROWS \<noteq> E_OK" by (simp add: errno)
  ultimately show ?thesis using t assms(2,3)
    by (auto simp: Step_GoToNextRow_def GetStatement_def srs_inv_def Let_def SetLastErrorMsg_def)
qed

lemma next_past_end:
  assumes "serves S ok at names rows" "srs_inv ok at names rows s" "rowPos s \<ge> int (length rows)"
  shows "srs_inv ok at names rows (snd (Step_GoToNextRow S s))"
proof -
  obtain t where t: "statement s = Some t" "ok t" "at t \<le> length rows" "rowCount s = int (length rows)"
    using assms(2,3) by (auto simp: srs_inv_def)
  have ne: "E_NO_MORE_ROWS \<noteq> E_OK" by (simp add: errno)
  show ?thesis
  proof (cases "at t = length rows")
    case True
    from serves_end [OF assms(1) t(2) True] obtain t1 where "st_Step S t = (E_NO_MORE_ROWS, t1)" "ok t1" "at t1 = 0"
      by blast
    with t ne assms(2,3) show ?thesis
      by (auto simp: Step_GoToNextRow_def GetStatement_def srs_inv_def Let_def SetLastErrorMsg_def)
  next
    case False
    with t(3) have "at t < length rows" by simp
    from serves_step [OF assms(1) t(2) this] obtain t1 where "st_Step S t = (E_OK, t1)" "ok t1" "at t1 = Suc (at t)"
      by blast
    with t assms(2,3) False show ?thesis
      by (auto simp: Step_GoToNextRow_def GetStatement_def srs_inv_def)
  qed
qed

lemma next_inv:
  assumes "serves S ok at names rows" "srs_inv ok at names rows s"
  shows "srs_inv ok at names rows (snd (Step_GoToNextRow S s))"
proof -
  consider "rowPos s + 1 < int (length rows)" | "rowPos s + 1 = int (length rows)" | "rowPos s \<ge> int (length rows)"
    by linarith
  then show ?thesis
    using next_within [OF assms] next_at_last [OF assms] next_past_end [OF assms] by cases auto
qed

lemma Reset_inv:
  assumes "serves S ok at names rows" "srs_inv ok at names rows s"
  shows "srs_inv ok at names rows (snd (Step_Reset S s))"
proof -
  obtain t where t: "statement s = Some t" "ok t" using assms(2) by (auto simp: srs_inv_def)
  from serves_reset [OF assms(1) t(2)] obtain e t1 where "st_Reset S t = (e, t1)" "ok t1" "at t1 = 0"
    by blast
  with t assms(2) show ?thesis
    by (auto simp: Step_Reset_def GetStatement_def srs_inv_def)
qed

lemma GoToRow_loop_inv:
  assumes "serves S ok at names rows" "srs_inv ok at names rows s"
  shows "srs_inv ok at names rows (snd (GoToRow_loop S p s))"
  using assms
proof (induction S p s rule: GoToRow_loop.induct)
  case (1 S p s)
  show ?case
  proof (cases "p \<le> rowPos s")
    case True
    with 1 show ?thesis by (simp add: GoToRow_loop.simps)
  next
    case False
    obtain e s1 where n: "Step_GoToNextRow S s = (e, s1)" by fastforce
    have "srs_inv ok at names rows s1" using next_inv [OF 1(2,3)] n by simp
    with 1 False n show ?thesis by (subst GoToRow_loop.simps) auto
  qed
qed

lemma GoToRow_loop_row:
  assumes "serves S ok at names rows" "srs_inv ok at names rows s" "rowPos s \<le> p" "p < int (length rows)"
  shows "\<exists>s1. GoToRow_loop S p s = (E_OK, s1) \<and> srs_inv ok at names rows s1 \<and> rowPos s1 = p"
  using assms
proof (induction S p s rule: GoToRow_loop.induct)
  case (1 S p s)
  show ?case
  proof (cases "p \<le> rowPos s")
    case True
    with 1 show ?thesis by (simp add: GoToRow_loop.simps)
  next
    case False
    with 1 obtain s1 where "Step_GoToNextRow S s = (E_OK, s1)" "srs_inv ok at names rows s1" "rowPos s1 = rowPos s + 1"
      using next_within [of S ok at names rows s] by auto
    with 1 False show ?thesis by (subst GoToRow_loop.simps) auto
  qed
qed

lemma GoToRow_inv:
  assumes "serves S ok at names rows" "srs_inv ok at names rows s"
  shows "srs_inv ok at names rows (snd (Step_GoToRow S p s))"
  using assms
proof (induction S p s rule: Step_GoToRow.induct)
  case (1 S p s)
  have live: "\<not> isClosed s" "lastErr s = E_OK" using 1(3) by (auto simp: srs_inv_def)
  show ?case
  proof (cases "isSupportCountRow s \<and> p \<ge> rowCount s")
    case True
    have "srs_inv ok at names rows (s\<lparr>rowPos := rowCount s\<rparr>)" if "rowCount s \<noteq> 0"
      using 1(3) True that by (auto simp: srs_inv_def)
    with True live 1(3) show ?thesis by (subst Step_GoToRow.simps) (simp add: Let_def)
  next
    case inside: False
    show ?thesis
    proof (cases "p < 0")
      case True
      with inside live 1(3) show ?thesis by (subst Step_GoToRow.simps) auto
    next
      case False
      show ?thesis
      proof (cases "p < rowPos s")
        case True
        then show ?thesis
          using 1 inside live False Reset_inv [OF 1(2,3)] by (subst Step_GoToRow.simps) auto
      next
        case fwd: False
        then show ?thesis
          using inside live False GoToRow_loop_inv [OF 1(2,3), of p] by (subst Step_GoToRow.simps) auto
      qed
    qed
  qed
qed

lemma GoToRow_row:
  assumes "serves S ok at names rows" "srs_inv ok at names rows s" "0 \<le> p" "p < int (length rows)"
  shows "\<exists>s1. Step_GoToRow S p s = (E_OK, s1) \<and> srs_inv ok at names rows s1 \<and> rowPos s1 = p"
  using assms
proof (induction S p s rule: Step_GoToRow.induct)
  case (1 S p s)
  have live: "\<not> isClosed s" "lastErr s = E_OK" "\<not> (isSupportCountRow s \<and> p \<ge> rowCount s)"
    using 1(3,5) by (auto simp: srs_inv_def)
  show ?case
  proof (cases "p < rowPos s")
    case True
    then show ?thesis
      using 1 live Reset_inv [OF 1(2,3)] by (subst Step_GoToRow.simps) auto
  next
    case False
    then show ?thesis
      using live 1(4) GoToRow_loop_row [OF 1(2,3) _ 1(5)] by (subst Step_GoToRow.simps) auto
  qed
qed

section \<open>Reading the row\<close>

lemma out_of_row_inside:
  assumes "srs_inv ok at names rows s" "0 \<le> rowPos s" "rowPos s < int (length rows)"
  shows "out_of_row S s = Some (False, s)"
  using assms by (auto simp: out_of_row_def IsEnded_with_def Step_GetRowCount_def
      AbsResultSet_GetRowCount_def srs_inv_def)

lemma Get_inside:
  assumes "serves S ok at names rows" "srs_inv ok at names rows s"
    "0 \<le> rowPos s" "rowPos s < int (length rows)" "i < length names"
  shows "\<exists>s1. Step_Get S (int i) s = Some ((E_OK, rows ! nat (rowPos s) ! i), s1)
    \<and> srs_inv ok at names rows s1 \<and> rowPos s1 = rowPos s \<and> columnCount s1 = columnCount s
    \<and> wholeColumnNames s1 = wholeColumnNames s"
proof -
  obtain t where t: "statement s = Some t" "ok t" "at t \<le> length rows" "rowPos s = int (at t) - 1"
    using assms(2,4) by (auto simp: srs_inv_def)
  with assms(3) have pos: "0 < at t" "nat (rowPos s) = at t - 1" by linarith+
  from serves_column [OF assms(1) t(2) pos(1) t(3) assms(5)] obtain t1 where
    t1: "st_GetColumn S (int i) t = ((E_OK, rows ! (at t - 1) ! i), t1)" "ok t1" "at t1 = at t" by blast
  have "srs_inv ok at names rows (s\<lparr>statement := Some t1\<rparr>)"
    using assms(2) t t1 by (auto simp: srs_inv_def)
  moreover have "GetStatement s = Some t" "\<not> isClosed s"
    using assms(2) t by (auto simp: srs_inv_def GetStatement_def)
  moreover have "E_OK \<noteq> E_COLUMN_OUT_RANGE" by (simp add: errno)
  ultimately show ?thesis
    using t1 pos(2) by (simp add: Step_Get_def GetValueObject_def out_of_row_inside [OF assms(2-4)] Let_def)
qed

lemma GetColumnNames_loop:
  assumes "serves S ok at names rows" "ok t" "i + m = length names"
  shows "Step_GetColumnNames_loop S t m (int i) acc = (E_OK, acc @ drop i names)"
  using assms(3)
proof (induction m arbitrary: i acc)
  case (Suc m)
  then have "i < length names" by simp
  moreover have "drop i names = names ! i # drop (Suc i) names"
    using Suc.prems by (intro Cons_nth_drop_Suc [symmetric]) simp
  ultimately show ?case
    using Suc.IH [of "Suc i" "acc @ [names ! i]"] Suc.prems serves_names(2) [OF assms(1,2)]
    by (simp add: errno add.commute)
qed simp

lemma need_columns_ok:
  assumes "serves S ok at names rows" "srs_inv ok at names rows s"
  shows "\<exists>s1. need_columns (step_vtable S) s = (E_OK, s1) \<and> srs_inv ok at names rows s1
    \<and> rowPos s1 = rowPos s \<and> columnCount s1 = int (length names) \<and> length (wholeColumnNames s1) = length names"
proof -
  obtain t where t: "statement s = Some t" "ok t" "\<not> isClosed s" "lastErr s = E_OK" "conn s"
    using assms(2) by (auto simp: srs_inv_def)
  have "Step_GetColumnNames S s = (E_OK, names)"
    using t GetColumnNames_loop [OF assms(1) t(2), of 0 "length names" "[]"] serves_names(1) [OF assms(1) t(2)]
    by (simp add: Step_GetColumnNames_def GetStatement_def)
  with t assms(2) show ?thesis
    by (auto simp: need_columns_def InitColumnNames_def srs_inv_def)
qed

lemma GetRowData_loop_ok:
  assumes "serves S ok at names rows" "srs_inv ok at names rows s"
    "0 \<le> rowPos s" "rowPos s < int (length rows)" "i + m = length names"
  shows "\<exists>s1. GetRowData_loop (step_vtable S) m (int i) acc s
      = Some ((E_OK, acc @ drop i (rows ! nat (rowPos s))), s1)
    \<and> srs_inv ok at names rows s1 \<and> rowPos s1 = rowPos s"
  using assms(2-)
proof (induction m arbitrary: i acc s)
  case 0
  have "length (rows ! nat (rowPos s)) = length names"
    using assms(1) 0 by (auto simp: serves_def list_all_length)
  with 0 show ?case by simp
next
  case (Suc m)
  have "length (rows ! nat (rowPos s)) = length names"
    using assms(1) Suc.prems by (auto simp: serves_def list_all_length)
  then have d: "drop i (rows ! nat (rowPos s)) = rows ! nat (rowPos s) ! i # drop (Suc i) (rows ! nat (rowPos s))"
    using Suc.prems by (intro Cons_nth_drop_Suc [symmetric]) simp
  from Get_inside [OF assms(1) Suc.prems(1-3), of i] Suc.prems obtain s1 where
    s1: "Step_Get S (int i) s = Some ((E_OK, rows ! nat (rowPos s) ! i), s1)"
    "srs_inv ok at names rows s1" "rowPos s1 = rowPos s" by auto
  with Suc.IH [of s1 "Suc i" "acc @ [rows ! nat (rowPos s) ! i]"] Suc.prems d show ?case
    by (simp add: add.commute)
qed

lemma GetRowData_ok:
  assumes "serves S ok at names rows" "srs_inv ok at names rows s"
    "0 \<le> rowPos s" "rowPos s < int (length rows)"
  shows "\<exists>s1. GetRowData (step_vtable S) s = Some ((E_OK, rows ! nat (rowPos s)), s1)
    \<and> srs_inv ok at names rows s1 \<and> rowPos s1 = rowPos s"
proof -
  have "lastErr s = E_OK" using assms(2) by (simp add: srs_inv_def)
  moreover from need_columns_ok [OF assms(1,2)] obtain s1 where
    s1: "need_columns (step_vtable S) s = (E_OK, s1)" "srs_inv ok at names rows s1"
    "rowPos s1 = rowPos s" "columnCount s1 = int (length names)" "length (wholeColumnNames s1) = length names"
    by blast
  moreover from GetRowData_loop_ok [OF assms(1) s1(2), of 0 "length names" "[]"] s1 assms obtain s2 where
    "GetRowData_loop (step_vtable S) (length names) 0 [] s1 = Some ((E_OK, rows ! nat (rowPos s)), s2)"
    "srs_inv ok at names rows s2" "rowPos s2 = rowPos s" by auto
  ultimately show ?thesis by (simp add: GetRowData_def)
qed

lemma GetRowsData_loop_ok:
  assumes "serves S ok at names rows" "srs_inv ok at names rows s"
    "0 \<le> rowPos s" "rowPos s < int (length rows)"
  shows "\<exists>s1. GetRowsData_loop (step_vtable S) k acc s
      = Some ((E_OK, acc @ take k (drop (nat (rowPos s)) rows)), s1)
    \<and> srs_inv ok at names rows s1
    \<and> (nat (rowPos s) + k < length rows \<longrightarrow> rowPos s1 = rowPos s + int k)"
  using assms(2-)
proof (induction k arbitrary: acc s)
  case (Suc k)
  let ?i = "nat (rowPos s)"
  have i: "?i < length rows" using Suc.prems by linarith
  have d: "drop ?i rows = rows ! ?i # drop (Suc ?i) rows" using Cons_nth_drop_Suc [OF i] by simp
  have codes: "E_OK \<noteq> E_ROW_OUT_RANGE" by (simp add: errno)
  from GetRowData_ok [OF assms(1) Suc.prems] obtain s1 where
    s1: "GetRowData (step_vtable S) s = Some ((E_OK, rows ! ?i), s1)" "srs_inv ok at names rows s1"
    "rowPos s1 = rowPos s" by blast
  show ?case
  proof (cases "Suc ?i < length rows")
    case True
    then have "rowPos s1 + 1 < int (length rows)" using s1(3) Suc.prems by linarith
    from next_within [OF assms(1) s1(2) this] obtain s2 where
      s2: "Step_GoToNextRow S s1 = (E_OK, s2)" "srs_inv ok at names rows s2" "rowPos s2 = rowPos s1 + 1"
      by blast
    moreover have "nat (rowPos s2) = Suc ?i" "0 \<le> rowPos s2" "rowPos s2 < int (length rows)"
      using s2(3) s1(3) Suc.prems True by linarith+
    ultimately show ?thesis
      using Suc.IH [of s2 "acc @ [rows ! ?i]"] s1 d codes by (simp add: add.assoc)
  next
    case False
    then have "rowPos s1 + 1 = int (length rows)" using s1(3) Suc.prems by linarith
    from next_at_last [OF assms(1) s1(2) this] obtain s2 where
      "Step_GoToNextRow S s1 = (E_ROW_OUT_RANGE, s2)" "srs_inv ok at names rows s2" by blast
    with s1 d codes False show ?thesis by simp
  qed
qed simp

section \<open>The contract of a cursor\<close>

text \<open>What a client sees of the row the cursor is at.\<close>

definition current_row :: "'s statement_ops \<Rightarrow> 's step_result_set \<Rightarrow> value_object list option" where
  "current_row S s =
     (case GetRowData (step_vtable S) s of
        Some ((e, row), s1) \<Rightarrow> if e = E_OK then Some row else None
      | None \<Rightarrow> None)"

lemma step_result_set_cursor:
  assumes "serves S ok at names rows"
  shows "cursor (srs_inv ok at names rows) (\<lambda>_. rows) rowPos (Step_GoToRow S) (Step_GoToNextRow S)
    (current_row S)"
proof
  fix s p
  assume inv: "srs_inv ok at names rows s"
  show "srs_inv ok at names rows (snd (Step_GoToRow S p s)) \<and> rows = rows"
    using GoToRow_inv [OF assms inv] by simp
  show "srs_inv ok at names rows (snd (Step_GoToNextRow S s)) \<and> rows = rows"
    using next_inv [OF assms inv] by simp
  show "fst (Step_GoToRow S p s) = E_OK \<and> rowPos (snd (Step_GoToRow S p s)) = p"
    if "0 \<le> p" "p < int (length rows)" using GoToRow_row [OF assms inv that] by auto
  show "fst (Step_GoToNextRow S s) = E_OK \<and> rowPos (snd (Step_GoToNextRow S s)) = rowPos s + 1"
    if "-1 \<le> rowPos s" "rowPos s + 1 < int (length rows)" using next_within [OF assms inv that(2)] by auto
  show "fst (Step_GoToNextRow S s) = E_ROW_OUT_RANGE" if "rowPos s + 1 = int (length rows)"
    using next_at_last [OF assms inv that] by auto
  show "current_row S s = Some (rows ! nat (rowPos s))" if "0 \<le> rowPos s" "rowPos s < int (length rows)"
    using GetRowData_ok [OF assms inv that] by (auto simp: current_row_def)
qed

section \<open>Counting\<close>

lemma count_loop_returns:
  assumes "serves S ok at names rows" "srs_inv ok at names rows s" "\<not> isSupportCountRow s" "rowCount s = -1"
  shows "\<exists>s1. count_loop S s = Some (E_ROW_OUT_RANGE, s1) \<and> srs_inv ok at names rows s1
    \<and> rowCount s1 = int (length rows) \<and> rowPos s1 = int (length rows)"
  using assms(2-)
proof (induction "nat (int (length rows) - rowPos s)" arbitrary: s rule: less_induct)
  case less
  have "rowPos s < int (length rows)" using less.prems by (auto simp: srs_inv_def)
  then consider "rowPos s + 1 < int (length rows)" | "rowPos s + 1 = int (length rows)" by linarith
  then show ?case
  proof cases
    case 1
    from next_within [OF assms(1) less.prems(1) 1] obtain s1 where
      s1: "Step_GoToNextRow S s = (E_OK, s1)" "srs_inv ok at names rows s1" "rowPos s1 = rowPos s + 1" by blast
    have "\<not> isSupportCountRow s1" "rowCount s1 = -1"
      using s1(1) less.prems(2,3)
      by (auto simp: Step_GoToNextRow_def Let_def errno split: if_splits option.splits prod.splits)
    moreover have "nat (int (length rows) - rowPos s1) < nat (int (length rows) - rowPos s)"
      using s1(3) 1 by linarith
    ultimately obtain s2 where "count_loop S s1 = Some (E_ROW_OUT_RANGE, s2) \<and> srs_inv ok at names rows s2
      \<and> rowCount s2 = int (length rows) \<and> rowPos s2 = int (length rows)"
      using less.hyps s1(2) by blast
    moreover have "E_OK \<noteq> E_ROW_OUT_RANGE" by (simp add: errno)
    ultimately show ?thesis using s1(1) by (subst count_loop.simps) simp
  next
    case 2
    from next_at_last [OF assms(1) less.prems(1) 2] less.prems obtain s1 where
      s1: "Step_GoToNextRow S s = (E_ROW_OUT_RANGE, s1)" "srs_inv ok at names rows s1"
      "rowPos s1 = int (length rows)" "rowCount s1 = int (length rows)" by auto
    then have "srs_inv ok at names rows (s1\<lparr>rowCount := int (length rows)\<rparr>)"
      by (auto simp: srs_inv_def)
    with s1 show ?thesis by (subst count_loop.simps) simp
  qed
qed

section \<open>Retries\<close>

fun busy_for :: "'s statement_ops \<Rightarrow> nat \<Rightarrow> 's \<Rightarrow> bool" where
  "busy_for S 0 t = (fst (st_Step S t) \<notin> {E_SQLITE_LOCKED, E_SQLITE_BUSY})"
| "busy_for S (Suc k) t =
     (fst (st_Step S t) \<in> {E_SQLITE_LOCKED, E_SQLITE_BUSY} \<and> busy_for S k (snd (st_Step S t)))"

lemma step_retry_exceeds:
  "busy_for S k t \<Longrightarrow> fst (step_retry S n (fst (st_Step S t)) (snd (st_Step S t))) = None \<longleftrightarrow> n < k"
proof (induction k arbitrary: n t)
  case 0
  then show ?case by (simp add: step_retry.simps)
next
  case (Suc k)
  then show ?case
    by (cases n) (auto simp: step_retry.simps case_prod_unfold Let_def)
qed

section \<open>A new result set\<close>

lemma new_result_set_inv:
  assumes "serves S ok at names rows" "GetSqlStatementType sql \<noteq> STATEMENT_ERROR"
    and "create sql = (E_OK, Some t)" "st_ReadOnly S t" "st_Bind S args t = (E_OK, t1)" "ok t1" "at t1 = 0"
    and "preCount \<Longrightarrow> st_Count S t1 = Some ((E_OK, int (length rows)), t2) \<and> ok t2 \<and> at t2 = 0"
  shows "\<exists>s. StepResultSet_new S create True sql args preCount f = Some s \<and> srs_inv ok at names rows s
    \<and> isSupportCountRow s = preCount \<and> rowPos s = -1 \<and> (\<not> preCount \<longrightarrow> rowCount s = -1)"
  using assms
  by (cases preCount) (auto simp: StepResultSet_new_def PrepareStep_def GetStatement_def srs_inv_def errno Let_def)

text \<open>A statement over a list of rows; its state is the number of rows stepped.\<close>

definition list_statement :: "string list \<Rightarrow> value_object list list \<Rightarrow> nat statement_ops" where
  "list_statement names rows =
     \<lparr>st_Step = (\<lambda>t. if t < length rows then (E_OK, Suc t) else (E_NO_MORE_ROWS, 0)),
      st_Reset = (\<lambda>t. (E_OK, 0)), st_Count = (\<lambda>t. Some ((E_OK, int (length rows)), 0)),
      st_Bind = (\<lambda>args t. (E_OK, t)), st_ReadOnly = (\<lambda>t. True),
      st_GetColumnCount = (\<lambda>t. int (length names)),
      st_GetColumnName = (\<lambda>i t. (E_OK, names ! nat i)),
      st_GetColumnType = (\<lambda>i t. ((E_OK, CT_INTEGER), t)),
      st_GetSize = (\<lambda>i t. ((E_INVALID_COLUMN_TYPE, 0), t)),
      st_GetColumn = (\<lambda>i t. ((E_OK, rows ! (t - 1) ! nat i), t)),
      st_GetLastErrorMsg = (\<lambda>t. [])\<rparr>"

lemma list_statement_serves:
  "list_all (\<lambda>row. length row = length names) rows \<Longrightarrow>
     serves (list_statement names rows) (\<lambda>t. t \<le> length rows) id names rows"
  by (auto simp: serves_def list_statement_def)

abbreviation sample_statement :: "nat statement_ops" where
  "sample_statement \<equiv> list_statement [''a''] [[VInt 5], [VInt 7]]"

definition sample_result :: "bool \<Rightarrow> nat step_result_set" where
  "sample_result preCount =
     the (StepResultSet_new sample_statement (\<lambda>_. (E_OK, Some 0)) True ''SELECT a'' [] preCount False)"

lemma sample_serves: "serves sample_statement (\<lambda>t. t \<le> 2) id [''a''] [[VInt 5], [VInt 7]]"
  using list_statement_serves [of "[''a'']" "[[VInt 5], [VInt 7]]"] by (simp add: numeral_2_eq_2)

lemma sample_result_inv:
  "srs_inv (\<lambda>t. t \<le> 2) id [''a''] [[VInt 5], [VInt 7]] (sample_result preCount)"
  "isSupportCountRow (sample_result preCount) = preCount" "rowPos (sample_result preCount) = -1"
  "\<not> preCount \<Longrightarrow> rowCount (sample_result preCount) = -1"
proof -
  have "GetSqlStatementType ''SELECT a'' \<noteq> STATEMENT_ERROR" by code_simp
  from new_result_set_inv [OF sample_serves this, where t = 0 and ?t1.0 = 0 and ?t2.0 = 0
      and create = "\<lambda>_. (E_OK, Some 0)" and args = "[]" and preCount = preCount and f = False]
  show "srs_inv (\<lambda>t. t \<le> 2) id [''a''] [[VInt 5], [VInt 7]] (sample_result preCount)"
    "isSupportCountRow (sample_result preCount) = preCount" "rowPos (sample_result preCount) = -1"
    "\<not> preCount \<Longrightarrow> rowCount (sample_result preCount) = -1"
    by (auto simp: sample_result_def list_statement_def)
qed

section \<open>Properties\<close>

text \<open>
  C6: over a statement that serves a list of rows, after any sequence of \<open>GoToRow\<close> and
  \<open>GoToNextRow\<close> calls, in or out of range, \<open>GoToRow\<close> to an existing row succeeds and the row read
  there is that row.
\<close>

theorem GoToRow_reads_row:
  assumes "serves S ok at names rows" "srs_inv ok at names rows s" "0 \<le> p" "p < int (length rows)"
    and "s' = fold (\<lambda>m. case m of Some q \<Rightarrow> snd \<circ> Step_GoToRow S q | None \<Rightarrow> snd \<circ> Step_GoToNextRow S) ms s"
  shows "fst (Step_GoToRow S p s') = E_OK \<and> current_row S (snd (Step_GoToRow S p s')) = Some (rows ! nat p)"
  using cursor.seek_peek [OF step_result_set_cursor [OF assms(1)] assms(2-4) assms(5)] .

theorem GoToRow_reads_row_witness:
  "fst (Step_GoToRow sample_statement 1 (snd (Step_GoToRow sample_statement 9 (sample_result True)))) = E_OK"
  using GoToRow_reads_row [OF sample_serves sample_result_inv(1), of 1 _ "[Some 9]"] by simp

text \<open>
  C7: \<open>GetRowsData\<close> pages through the rows: from an existing row it returns that row and those
  after it, up to the number asked for, and leaves the cursor on the row after the last returned
  while there is one.
\<close>

theorem GetRowsData_page:
  assumes "serves S ok at names rows" "srs_inv ok at names rows s"
    and "0 \<le> p" "p < int (length rows)" "0 < k"
  shows "\<exists>s1. GetRowsData (step_vtable S) k p s = Some ((E_OK, take (nat k) (drop (nat p) rows)), s1)
    \<and> srs_inv ok at names rows s1 \<and> (p + k < int (length rows) \<longrightarrow> rowPos s1 = p + k)"
proof -
  have live: "lastErr s = E_OK" using assms(2) by (simp add: srs_inv_def)
  obtain s0 where s0: "srs_inv ok at names rows s0" "rowPos s0 = p"
    "GetRowsData (step_vtable S) k p s = GetRowsData_loop (step_vtable S) (nat k) [] s0"
  proof (cases "p = rowPos s")
    case True
    with live assms show thesis by (intro that [of s]) (auto simp: GetRowsData_def)
  next
    case False
    from GoToRow_row [OF assms(1-4)] obtain s1 where
      "Step_GoToRow S p s = (E_OK, s1)" "srs_inv ok at names rows s1" "rowPos s1 = p" by blast
    with False live assms show thesis by (intro that [of s1]) (auto simp: GetRowsData_def)
  qed
  from GetRowsData_loop_ok [OF assms(1) s0(1), of "nat k" "[]"] s0 assms(3,4) obtain s1 where
    "GetRowsData_loop (step_vtable S) (nat k) [] s0 = Some ((E_OK, take (nat k) (drop (nat p) rows)), s1)"
    "srs_inv ok at names rows s1" "nat p + nat k < length rows \<longrightarrow> rowPos s1 = p + int (nat k)" by auto
  with s0(3) assms(3,5) show ?thesis by (intro exI [of _ s1]) auto
qed

theorem GetRowsData_page_witness:
  "\<exists>s1. GetRowsData (step_vtable sample_statement) 9 1 (sample_result True) = Some ((E_OK, [[VInt 7]]), s1)"
  using GetRowsData_page [OF sample_serves sample_result_inv(1), of 1 9] by auto

text \<open>
  C8: without a count made up front, \<open>GetRowCount\<close> on a finite result returns, with the number of
  rows, and the cursor is back on the row it was at.
\<close>

theorem GetRowCount_returns:
  assumes "serves S ok at names rows" "srs_inv ok at names rows s"
    and "\<not> isSupportCountRow s" "rowCount s = -1"
  shows "\<exists>s1. Step_GetRowCount S c s = Some ((E_OK, int (length rows)), s1)
    \<and> srs_inv ok at names rows s1 \<and> rowPos s1 = rowPos s"
proof -
  from count_loop_returns [OF assms] obtain s1 where
    s1: "count_loop S s = Some (E_ROW_OUT_RANGE, s1)" "srs_inv ok at names rows s1"
    "rowCount s1 = int (length rows)" by blast
  have pos: "-1 \<le> rowPos s" "rowPos s < int (length rows)" using assms(2,4) by (auto simp: srs_inv_def)
  show ?thesis
  proof (cases "rowPos s = -1")
    case True
    with s1 assms(3,4) Reset_inv [OF assms(1) s1(2)] show ?thesis by (simp add: Step_GetRowCount_def)
  next
    case False
    with pos have "0 \<le> rowPos s" by simp
    from GoToRow_row [OF assms(1) s1(2) this pos(2)] s1 False assms(3,4) show ?thesis
      by (auto simp: Step_GetRowCount_def)
  qed
qed

theorem GetRowCount_returns_witness:
  "\<exists>s1. Step_GetRowCount sample_statement 0 (sample_result False) = Some ((E_OK, 2), s1)"
  using GetRowCount_returns [OF sample_serves sample_result_inv(1), of False 0] sample_result_inv(2,4)
  by auto

text \<open>
  A step past the end starts the statement over: from the last row the first \<open>GoToNextRow\<close>
  reports the end, but the second succeeds, at a position past the number of rows, and reads the
  first row again.
\<close>

lemma GoToNextRow_restarts:
  assumes "serves S ok at names rows" "srs_inv ok at names rows s"
    and "0 \<le> rowPos s" "rowPos s + 1 = int (length rows)" "0 < length names"
    and "Step_GoToNextRow S s = (e1, s1)" "Step_GoToNextRow S s1 = (e2, s2)"
  shows "e1 = E_ROW_OUT_RANGE \<and> e2 = E_OK \<and> rowPos s2 = int (length rows) + 1
    \<and> (\<exists>s3. Step_Get S 0 s2 = Some ((E_OK, rows ! 0 ! 0), s3))"
proof -
  have ne: "rows \<noteq> []" using assms(3,4) by auto
  from next_at_last [OF assms(1,2,4)] assms(6) ne obtain t1 where
    s1: "e1 = E_ROW_OUT_RANGE" "srs_inv ok at names rows s1" "rowPos s1 = int (length rows)"
    "rowCount s1 = int (length rows)" "statement s1 = Some t1" "at t1 = 0" by auto
  have "ok t1" using s1 by (auto simp: srs_inv_def)
  from serves_step [OF assms(1) this] s1(6) ne obtain t2 where
    t2: "st_Step S t1 = (E_OK, t2)" "ok t2" "at t2 = 1" by auto
  have live: "\<not> isClosed s1" "conn s1" "lastErr s1 = E_OK" using s1(2) by (auto simp: srs_inv_def)
  have s2: "e2 = E_OK" "s2 = s1\<lparr>statement := Some t2, rowPos := int (length rows) + 1\<rparr>"
    using assms(7) s1 t2 live by (auto simp: Step_GoToNextRow_def GetStatement_def)
  from serves_column [OF assms(1) t2(2), of 0] t2(3) ne assms(5) obtain t3 where
    "st_GetColumn S 0 t2 = ((E_OK, rows ! 0 ! 0), t3)" by (auto simp: Suc_le_eq)
  moreover have "out_of_row S s2 = Some (False, s2)"
    using s2 s1(4) live ne
    by (simp add: out_of_row_def IsEnded_with_def Step_GetRowCount_def AbsResultSet_GetRowCount_def)
  moreover have "E_OK \<noteq> E_COLUMN_OUT_RANGE" by (simp add: errno)
  ultimately show ?thesis
    using s1(1) s2 live by (simp add: Step_Get_def GetValueObject_def GetStatement_def Let_def)
qed



end
