(* ===== verification/Cache_Result_Set.thy ===== *)
theory Cache_Result_Set
  imports Result_Set Values_Buckets
begin

text \<open>
  \<open>CacheResultSet\<close> (\<open>cache_result_set.cpp\<close>, \<open>cache_result_set.h\<close>): a cursor over rows held in
  memory, one \<open>ValuesBucket\<close> each. The names and types of the columns are those of the first row.
  A read goes through \<open>operator[]\<close> of the row's map, which inserts a null where the row lacks the
  column, so the reads return the new state.
\<close>

record cache_result_set =
  crs_row :: int
  crs_maxRow :: int
  crs_maxCol :: int
  crs_isClosed :: bool
  crs_colNames :: "string list"
  crs_colTypes :: "nat list"
  crs_valueBuckets :: "(string \<times> value_object) list list"

definition CacheResultSet_empty :: cache_result_set where
  "CacheResultSet_empty = \<lparr>crs_row = 0, crs_maxRow = 0, crs_maxCol = 0, crs_isClosed = False,
     crs_colNames = [], crs_colTypes = [], crs_valueBuckets = []\<rparr>"

definition CacheResultSet_new :: "(string \<times> value_object) list list \<Rightarrow> int \<Rightarrow> cache_result_set" where
  "CacheResultSet_new valueBuckets initPos =
     (let s = \<lparr>crs_row = initPos, crs_maxRow = int (length valueBuckets), crs_maxCol = 0,
               crs_isClosed = False, crs_colNames = [], crs_colTypes = [],
               crs_valueBuckets = valueBuckets\<rparr>
      in if crs_maxRow s > 0
         then (let first = valueBuckets ! 0
               in s\<lparr>crs_colNames := map fst first, crs_colTypes := map (GetType \<circ> snd) first,
                    crs_maxCol := int (length first)\<rparr>)
         else s)"

definition Cache_GetRowCount :: "int \<Rightarrow> cache_result_set \<Rightarrow> int \<times> int" where
  "Cache_GetRowCount count s =
     (if crs_isClosed s then (E_ALREADY_CLOSED, count) else (E_OK, crs_maxRow s))"

definition Cache_GetAllColumnNames :: "string list \<Rightarrow> cache_result_set \<Rightarrow> int \<times> string list" where
  "Cache_GetAllColumnNames columnNames s =
     (if crs_isClosed s then (E_ALREADY_CLOSED, columnNames) else (E_OK, crs_colNames s))"

section \<open>Reads\<close>

text \<open>\<open>valueBuckets_[row_].values_[name]\<close>.\<close>

definition subscript :: "string \<Rightarrow> cache_result_set \<Rightarrow> value_object \<times> cache_result_set" where
  "subscript name s =
     (let r = nat (crs_row s);
          b = crs_valueBuckets s ! r
      in case map_of b name of
           Some v \<Rightarrow> (v, s)
         | None \<Rightarrow> (VNull, s\<lparr>crs_valueBuckets := (crs_valueBuckets s)[r := om_emplace name VNull b]\<rparr>))"

text \<open>The guards shared by the reads, and the reads.\<close>

definition with_cell ::
    "(value_object \<Rightarrow> int \<times> 'v) \<Rightarrow> int \<Rightarrow> 'v \<Rightarrow> cache_result_set \<Rightarrow> (int \<times> 'v) \<times> cache_result_set" where
  "with_cell f columnIndex val s =
     (if crs_isClosed s then ((E_ALREADY_CLOSED, val), s)
      else if columnIndex < 0 \<or> columnIndex \<ge> crs_maxCol s then ((E_COLUMN_OUT_RANGE, val), s)
      else if crs_row s < 0 \<or> crs_row s \<ge> crs_maxRow s then ((E_ROW_OUT_RANGE, val), s)
      else (let (v, s1) = subscript (crs_colNames s ! nat columnIndex) s in (f v, s1)))"

definition Cache_GetBlob where
  "Cache_GetBlob columnIndex blob s = with_cell (\<lambda>v. vo_GetBlob v blob) columnIndex blob s"
definition Cache_GetString where
  "Cache_GetString columnIndex val s = with_cell (\<lambda>v. vo_GetString v val) columnIndex val s"
definition Cache_GetInt where
  "Cache_GetInt columnIndex val s = with_cell (\<lambda>v. vo_GetInt v val) columnIndex val s"
definition Cache_GetLong where
  "Cache_GetLong columnIndex val s = with_cell (\<lambda>v. vo_GetLong v val) columnIndex val s"
definition Cache_GetDouble where
  "Cache_GetDouble columnIndex val s = with_cell (\<lambda>v. vo_GetDouble v val) columnIndex val s"
definition Cache_IsColumnNull where
  "Cache_IsColumnNull columnIndex isNull s = with_cell (\<lambda>v. (E_OK, GetType v = 0)) columnIndex isNull s"
definition Cache_GetAsset where
  "Cache_GetAsset col val s = with_cell (\<lambda>v. vo_GetAsset v val) col val s"
definition Cache_GetAssets where
  "Cache_GetAssets col val s = with_cell (\<lambda>v. vo_GetAssets v val) col val s"
definition Cache_GetFloat32Array where
  "Cache_GetFloat32Array index vecs s = with_cell (\<lambda>v. vo_GetVecs v vecs) index vecs s"
definition Cache_Get where
  "Cache_Get col val s = with_cell (\<lambda>v. (E_OK, v)) col val s"

fun Cache_GetRow_loop ::
    "(string \<times> value_object) list \<Rightarrow> int \<Rightarrow> string list \<Rightarrow> row_entity \<Rightarrow> int \<times> row_entity" where
  "Cache_GetRow_loop b index [] r = (E_OK, r)"
| "Cache_GetRow_loop b index (columnName # ns) r =
     (case GetObject columnName b VNull of
        (found, object) \<Rightarrow>
          if \<not> found then (E_ERROR, r)
          else Cache_GetRow_loop b (index + 1) ns (RowEntity_Put columnName index object r))"

definition Cache_GetRow :: "row_entity \<Rightarrow> cache_result_set \<Rightarrow> int \<times> row_entity" where
  "Cache_GetRow rowEntity s =
     (if crs_isClosed s then (E_ALREADY_CLOSED, rowEntity)
      else if crs_row s < 0 \<or> crs_row s \<ge> crs_maxRow s then (E_ROW_OUT_RANGE, rowEntity)
      else Cache_GetRow_loop (crs_valueBuckets s ! nat (crs_row s)) 0 (crs_colNames s)
             (RowEntity_Clear (length (crs_colNames s)) rowEntity))"

section \<open>Navigation\<close>

definition Cache_GoToRow :: "int \<Rightarrow> cache_result_set \<Rightarrow> int \<times> cache_result_set" where
  "Cache_GoToRow position s =
     (if crs_isClosed s then (E_ALREADY_CLOSED, s)
      else if position \<ge> crs_maxRow s then (E_ROW_OUT_RANGE, s\<lparr>crs_row := crs_maxRow s\<rparr>)
      else if position < 0 then (E_ROW_OUT_RANGE, s\<lparr>crs_row := -1\<rparr>)
      else (E_OK, s\<lparr>crs_row := position\<rparr>))"

definition Cache_GetRowIndex :: "int \<Rightarrow> cache_result_set \<Rightarrow> int \<times> int" where
  "Cache_GetRowIndex position s =
     (if crs_isClosed s then (E_ALREADY_CLOSED, position) else (E_OK, crs_row s))"

definition Cache_GoTo :: "int \<Rightarrow> cache_result_set \<Rightarrow> (int \<times> cache_result_set) option" where
  "Cache_GoTo offset s = map_option (\<lambda>target. Cache_GoToRow target s) (add_i32 offset (crs_row s))"

definition Cache_GoToFirstRow :: "cache_result_set \<Rightarrow> int \<times> cache_result_set" where
  "Cache_GoToFirstRow s = Cache_GoToRow 0 s"

definition Cache_GoToLastRow :: "cache_result_set \<Rightarrow> int \<times> cache_result_set" where
  "Cache_GoToLastRow s = Cache_GoToRow (crs_maxRow s - 1) s"

definition Cache_GoToNextRow :: "cache_result_set \<Rightarrow> (int \<times> cache_result_set) option" where
  "Cache_GoToNextRow s = Cache_GoTo 1 s"

definition Cache_GoToPreviousRow :: "cache_result_set \<Rightarrow> (int \<times> cache_result_set) option" where
  "Cache_GoToPreviousRow s = Cache_GoTo (-1) s"

definition Cache_IsAtFirstRow :: "bool \<Rightarrow> cache_result_set \<Rightarrow> int \<times> bool" where
  "Cache_IsAtFirstRow result s =
     (if crs_isClosed s then (E_ALREADY_CLOSED, result) else (E_OK, crs_row s = 0))"

definition Cache_IsAtLastRow :: "bool \<Rightarrow> cache_result_set \<Rightarrow> int \<times> bool" where
  "Cache_IsAtLastRow result s =
     (if crs_isClosed s then (E_ALREADY_CLOSED, result) else (E_OK, crs_row s = crs_maxRow s - 1))"

definition Cache_IsStarted :: "bool \<Rightarrow> cache_result_set \<Rightarrow> int \<times> bool" where
  "Cache_IsStarted result s =
     (if crs_isClosed s then (E_ALREADY_CLOSED, result) else (E_OK, crs_row s = -1))"

definition Cache_IsEnded :: "bool \<Rightarrow> cache_result_set \<Rightarrow> int \<times> bool" where
  "Cache_IsEnded result s =
     (if crs_isClosed s then (E_ALREADY_CLOSED, result)
      else (E_OK, crs_maxRow s = 0 \<or> crs_row s = crs_maxRow s))"

section \<open>Columns\<close>

definition Cache_GetColumnCount :: "int \<Rightarrow> cache_result_set \<Rightarrow> int \<times> int" where
  "Cache_GetColumnCount count s =
     (if crs_isClosed s then (E_ALREADY_CLOSED, count) else (E_OK, crs_maxCol s))"

fun Cache_GetColumnIndex_loop :: "string \<Rightarrow> int \<Rightarrow> string list \<Rightarrow> int option" where
  "Cache_GetColumnIndex_loop columnName i [] = None"
| "Cache_GetColumnIndex_loop columnName i (c # cs) =
     (if c = columnName then Some i else Cache_GetColumnIndex_loop columnName (i + 1) cs)"

definition Cache_GetColumnIndex :: "string \<Rightarrow> int \<Rightarrow> cache_result_set \<Rightarrow> int \<times> int" where
  "Cache_GetColumnIndex columnName columnIndex s =
     (if crs_isClosed s then (E_ALREADY_CLOSED, columnIndex)
      else (case Cache_GetColumnIndex_loop columnName 0 (crs_colNames s) of
              Some i \<Rightarrow> (E_OK, i)
            | None \<Rightarrow> (E_ERROR, columnIndex)))"

definition Cache_GetColumnName :: "int \<Rightarrow> string \<Rightarrow> cache_result_set \<Rightarrow> int \<times> string" where
  "Cache_GetColumnName columnIndex columnName s =
     (if crs_isClosed s then (E_ALREADY_CLOSED, columnName)
      else if columnIndex < 0 \<or> columnIndex \<ge> crs_maxCol s then (E_COLUMN_OUT_RANGE, columnName)
      else (E_OK, crs_colNames s ! nat columnIndex))"

definition COLUMNTYPES :: "column_type list" where
  "COLUMNTYPES = [CT_NULL, CT_INTEGER, CT_FLOAT, CT_STRING, CT_INTEGER, CT_BLOB, CT_ASSET, CT_ASSETS,
     CT_FLOAT32_ARRAY, CT_BIGINT]"

definition Cache_GetColumnType :: "int \<Rightarrow> column_type \<Rightarrow> cache_result_set \<Rightarrow> int \<times> column_type" where
  "Cache_GetColumnType columnIndex columnType s =
     (if crs_isClosed s then (E_ALREADY_CLOSED, columnType)
      else if columnIndex < 0 \<or> columnIndex \<ge> crs_maxCol s then (E_COLUMN_OUT_RANGE, columnType)
      else
        (let index = crs_colTypes s ! nat columnIndex
         in if index \<ge> TYPE_MAX then (E_INVALID_COLUMN_TYPE, columnType) else (E_OK, COLUMNTYPES ! index)))"

text \<open>The string conversion inside may be undefined on a double.\<close>

definition Cache_GetSize :: "int \<Rightarrow> nat \<Rightarrow> cache_result_set \<Rightarrow> ((int \<times> nat) \<times> cache_result_set) option" where
  "Cache_GetSize columnIndex sz s =
     (if crs_isClosed s then Some ((E_ALREADY_CLOSED, sz), s)
      else
        (let (errCode, type) = Cache_GetColumnType columnIndex CT_NULL s
         in if errCode \<noteq> E_OK then Some ((errCode, sz), s)
            else
              (let ((errCode1, object), s1) = Cache_Get columnIndex VNull s
               in if errCode1 \<noteq> E_OK then Some ((errCode1, sz), s1)
                  else if type = CT_BLOB then Some ((E_OK, length (operator_blob object)), s1)
                  else if type = CT_STRING
                  then map_option (\<lambda>v. ((E_OK, length v + 1), s1)) (operator_string object)
                  else if type = CT_NULL then Some ((E_OK, 0), s1)
                  else Some ((E_INVALID_COLUMN_TYPE, sz), s1))))"

definition Cache_Close :: "cache_result_set \<Rightarrow> int \<times> cache_result_set" where
  "Cache_Close s =
     (if \<not> crs_isClosed s
      then (E_OK, s\<lparr>crs_colNames := [], crs_colTypes := [], crs_valueBuckets := [], crs_row := -1,
                    crs_maxRow := -1, crs_maxCol := -1, crs_isClosed := True\<rparr>)
      else (E_OK, s))"

section \<open>The contract of a cursor\<close>

text \<open>Rows of the same columns, and fewer of them than an \<open>int\<close> can count.\<close>

definition cache_valid :: "cache_result_set \<Rightarrow> bool" where
  "cache_valid s \<longleftrightarrow>
     \<not> crs_isClosed s \<and> crs_maxRow s = int (length (crs_valueBuckets s)) \<and> crs_maxRow s < 2 ^ 31 - 1
     \<and> crs_maxCol s = int (length (crs_colNames s)) \<and> -1 \<le> crs_row s \<and> crs_row s \<le> crs_maxRow s
     \<and> list_all (\<lambda>b. om_invar b \<and> map fst b = crs_colNames s) (crs_valueBuckets s)"

definition cache_step :: "cache_result_set \<Rightarrow> int \<times> cache_result_set" where
  "cache_step s = (case Cache_GoToNextRow s of Some r \<Rightarrow> r | None \<Rightarrow> (E_ERROR, s))"

definition cache_row :: "cache_result_set \<Rightarrow> (string \<times> value_object) list option" where
  "cache_row s = (let (e, r) = Cache_GetRow RowEntity_new s in if e = E_OK then Some (re_values r) else None)"

lemma om_emplace_snoc: "om_invar (m @ [(k, v)]) \<Longrightarrow> om_emplace k v m = m @ [(k, v)]"
  by (induction k v m rule: om_emplace.induct) auto

lemma om_invar_append: "om_invar (a @ b) \<Longrightarrow> om_invar a"
  by (simp add: om_invar_def sorted_wrt_append)

lemma om_invar_mem: "om_invar m \<Longrightarrow> (k, v) \<in> set m \<Longrightarrow> map_of m k = Some v"
  by (simp add: om_invar_distinct)

lemma Cache_GetRow_loop_ok:
  assumes "om_invar (pre @ rest)" "re_values r = pre" "length (re_indexs r) = length (pre @ rest)"
  shows "\<exists>r'. Cache_GetRow_loop (pre @ rest) (int (length pre)) (map fst rest) r = (E_OK, r')
    \<and> re_values r' = pre @ rest"
  using assms
proof (induction rest arbitrary: pre r)
  case (Cons e rest)
  obtain k v where e: "e = (k, v)" by fastforce
  let ?r = "RowEntity_Put k (int (length pre)) v r"
  have full: "om_invar ((pre @ [(k, v)]) @ rest)" using Cons.prems(1) e by simp
  have "re_values ?r = pre @ [(k, v)]" "length (re_indexs ?r) = length ((pre @ [(k, v)]) @ rest)"
    using Cons.prems om_emplace_snoc [OF om_invar_append [OF full]] by (auto simp: RowEntity_Put_def)
  with Cons.IH [OF full] obtain r' where
    "Cache_GetRow_loop ((pre @ [(k, v)]) @ rest) (int (length (pre @ [(k, v)]))) (map fst rest) ?r = (E_OK, r')"
    "re_values r' = (pre @ [(k, v)]) @ rest" by blast
  moreover have "map_of (pre @ e # rest) k = Some v"
    using om_invar_mem [OF Cons.prems(1)] e by auto
  ultimately show ?case using e by (auto simp: GetObject_def add.commute)
qed simp

lemma cache_row_inside:
  assumes "cache_valid s" "0 \<le> crs_row s" "crs_row s < int (length (crs_valueBuckets s))"
  shows "cache_row s = Some (crs_valueBuckets s ! nat (crs_row s))"
proof -
  let ?b = "crs_valueBuckets s ! nat (crs_row s)"
  have "nat (crs_row s) < length (crs_valueBuckets s)" using assms by linarith
  then have b: "om_invar ?b" "map fst ?b = crs_colNames s"
    using assms(1) by (auto simp: cache_valid_def list_all_length)
  have "length (crs_colNames s) = length ?b" using b(2) by (metis length_map)
  with Cache_GetRow_loop_ok [of "[]" ?b "RowEntity_Clear (length (crs_colNames s)) RowEntity_new"] b
  obtain r where "Cache_GetRow_loop ?b 0 (crs_colNames s)
      (RowEntity_Clear (length (crs_colNames s)) RowEntity_new) = (E_OK, r)" "re_values r = ?b"
    by (auto simp: RowEntity_Clear_def)
  then show ?thesis using assms by (simp add: cache_row_def Cache_GetRow_def cache_valid_def)
qed

interpretation cache: cursor cache_valid crs_valueBuckets crs_row Cache_GoToRow cache_step cache_row
proof
  fix s p
  assume v: "cache_valid s"
  have step: "cache_step s = Cache_GoToRow (1 + crs_row s) s"
    using v by (simp add: cache_step_def Cache_GoToNextRow_def Cache_GoTo_def add_i32_def cache_valid_def)
  show "cache_valid (snd (Cache_GoToRow p s))
      \<and> crs_valueBuckets (snd (Cache_GoToRow p s)) = crs_valueBuckets s" for p
    using v by (simp add: Cache_GoToRow_def cache_valid_def)
  then show "cache_valid (snd (cache_step s)) \<and> crs_valueBuckets (snd (cache_step s)) = crs_valueBuckets s"
    by (simp add: step)
  show "fst (Cache_GoToRow p s) = E_OK \<and> crs_row (snd (Cache_GoToRow p s)) = p"
    if "0 \<le> p" "p < int (length (crs_valueBuckets s))"
    using v that by (simp add: Cache_GoToRow_def cache_valid_def)
  show "fst (cache_step s) = E_OK \<and> crs_row (snd (cache_step s)) = crs_row s + 1"
    if "-1 \<le> crs_row s" "crs_row s + 1 < int (length (crs_valueBuckets s))"
    using v that by (simp add: step Cache_GoToRow_def cache_valid_def)
  show "fst (cache_step s) = E_ROW_OUT_RANGE" if "crs_row s + 1 = int (length (crs_valueBuckets s))"
    using v that by (simp add: step Cache_GoToRow_def cache_valid_def)
  show "cache_row s = Some (crs_valueBuckets s ! nat (crs_row s))"
    if "0 \<le> crs_row s" "crs_row s < int (length (crs_valueBuckets s))"
    using cache_row_inside [OF v that] .
qed

section \<open>Properties\<close>



text \<open>
  Reading a column that the current row lacks succeeds with a null and writes that null into
  the row, so a read changes what a later \<open>GetRow\<close> of the same row returns.
\<close>

lemma cache_read_writes_null:
  assumes "\<not> crs_isClosed s" "0 \<le> c" "c < crs_maxCol s" "0 \<le> crs_row s" "crs_row s < crs_maxRow s"
    and "nat (crs_row s) < length (crs_valueBuckets s)"
    and "map_of (crs_valueBuckets s ! nat (crs_row s)) (crs_colNames s ! nat c) = None"
    and "Cache_Get c v s = ((e, w), s1)"
  shows "e = E_OK \<and> w = VNull
    \<and> om_emplace (crs_colNames s ! nat c) VNull (crs_valueBuckets s ! nat (crs_row s))
      = crs_valueBuckets s1 ! nat (crs_row s1)"
  using assms by (auto simp: Cache_Get_def with_cell_def subscript_def Let_def)

text \<open>
  \<open>IsStarted\<close> of the two cursors disagree: the cached one answers true exactly when the row
  index is -1, where \<open>AbsResultSet\<close> answers false.
\<close>

lemma cache_IsStarted_inverted:
  assumes "\<not> crs_isClosed s" "crs_row s = rowPos a"
  shows "snd (Cache_IsStarted r s) \<longleftrightarrow> \<not> snd (IsStarted a)"
  using assms by (simp add: Cache_IsStarted_def IsStarted_def)

end
