(* ===== verification/Connection_Pool.thy ===== *)
theory Connection_Pool
  imports Rdb_Prelude
begin

text \<open>
  \<open>ConnectionPool\<close> (\<open>connection_pool.cpp\<close>, \<open>connection_pool.h\<close>): the writer, the readers and the
  transaction connections of a store, each kind in a \<open>Container\<close> that hands nodes out and takes
  them back.

  A node is in the list of its container or held by one client, so it is passed by value. What the
  environment decides is an argument: \<open>mk\<close> is the outcome of creating the connection that would
  get a given number, the functions in \<open>ws\<close> are what other threads do to the container between
  two evaluations of the condition a thread waits for (the last evaluation is the one at the
  timeout), \<open>alive\<close> tells which weak references of \<open>details_\<close> can be locked. A handle is the
  shared pointer whose deleter returns the node: the node and the flag \<open>isTrans\<close>.
\<close>

section \<open>\<open>ConnNode\<close> and \<open>Container\<close>\<close>

record connection =
  c_writer :: bool
  c_recyclable :: bool

record conn_node =
  cn_tid :: int
  cn_id :: int
  cn_time :: int
  cn_connect :: connection

record container =
  ct_disable :: bool
  ct_max :: int
  ct_total :: int
  ct_count :: int
  ct_left :: int
  ct_right :: int
  ct_timeout :: int
  ct_nodes :: "conn_node list"
  ct_details :: "int list"
  ct_creator :: bool

type_synonym creator = "int \<Rightarrow> int \<times> connection option"

definition MAX_RIGHT :: int where "MAX_RIGHT = 0x4FFFFFFF"
definition MIN_TRANS_ID :: int where "MIN_TRANS_ID = 10000"
definition MAX_TRANS :: nat where "MAX_TRANS = 4"

definition Container_new :: container where
  "Container_new = \<lparr>ct_disable = True, ct_max = 0, ct_total = 0, ct_count = 0, ct_left = 0, ct_right = 0,
     ct_timeout = 0, ct_nodes = [], ct_details = [], ct_creator = False\<rparr>"

definition GetConnect :: "int \<Rightarrow> int \<Rightarrow> conn_node \<Rightarrow> conn_node" where
  "GetConnect tid now n = n\<lparr>cn_tid := tid, cn_time := now\<rparr>"

text \<open>\<open>Unused\<close>: a checkpoint is tried only when no transaction is left.\<close>

definition Unused :: "int \<Rightarrow> (bool \<Rightarrow> int) \<Rightarrow> int \<Rightarrow> bool \<Rightarrow> conn_node \<Rightarrow> int \<times> conn_node" where
  "Unused now tryCheckPoint cnt timeout n =
     (let errCode = (if cnt \<le> 0 then tryCheckPoint timeout else E_INNER_WARNING);
          n1 = n\<lparr>cn_time := now\<rparr>
      in (errCode, if \<not> c_writer (cn_connect n) then n1\<lparr>cn_tid := 0\<rparr> else n1))"

definition InitMembers :: "int \<Rightarrow> int \<Rightarrow> bool \<Rightarrow> container \<Rightarrow> container" where
  "InitMembers limit timeout disable c =
     c\<lparr>ct_disable := disable, ct_max := limit, ct_creator := True, ct_timeout := timeout\<rparr>"

definition ExtendNode :: "creator \<Rightarrow> container \<Rightarrow> int \<times> container" where
  "ExtendNode mk c =
     (if \<not> ct_creator c then (E_ERROR, c)
      else
        (case mk (ct_right c) of
           (errCode, None) \<Rightarrow> (errCode, c)
         | (errCode, Some conn) \<Rightarrow>
             (let node = \<lparr>cn_tid = 0, cn_id = ct_right c, cn_time = 0, cn_connect = conn\<rparr>
              in (E_OK, c\<lparr>ct_right := ct_right c + 1, ct_nodes := ct_nodes c @ [node],
                          ct_details := ct_details c @ [cn_id node],
                          ct_count := ct_count c + 1, ct_total := ct_total c + 1\<rparr>))))"

fun Initialize_loop :: "creator \<Rightarrow> nat \<Rightarrow> container \<Rightarrow> int \<times> container" where
  "Initialize_loop mk 0 c = (E_OK, c)"
| "Initialize_loop mk (Suc m) c =
     (let (errCode, c1) = ExtendNode mk c
      in if errCode \<noteq> E_OK then (errCode, c1\<lparr>ct_nodes := [], ct_details := []\<rparr>)
         else Initialize_loop mk m c1)"

definition Initialize :: "creator \<Rightarrow> int \<Rightarrow> int \<Rightarrow> bool \<Rightarrow> bool \<Rightarrow> container \<Rightarrow>
    (int \<times> conn_node option) \<times> container" where
  "Initialize mk limit timeout disable acquire c =
     (let (errCode, c1) = Initialize_loop mk (nat limit) (InitMembers limit timeout disable c)
      in if errCode \<noteq> E_OK then ((errCode, None), c1)
         else if acquire \<and> ct_count c1 > 0
         then ((E_OK, Some (last (ct_nodes c1))),
               c1\<lparr>ct_nodes := butlast (ct_nodes c1), ct_count := ct_count c1 - 1\<rparr>)
         else ((E_OK, None), c1))"

text \<open>The condition of \<open>Acquire\<close>: an idle node, or an extension of the container.\<close>

definition waiter :: "creator \<Rightarrow> int \<Rightarrow> container \<Rightarrow> bool \<times> int \<times> container" where
  "waiter mk errCode c =
     (if ct_count c > 0 then (True, errCode, c)
      else if ct_disable c then (False, errCode, c)
      else (let (e, c1) = ExtendNode mk c in (e = E_OK, e, c1)))"

fun wait_for :: "creator \<Rightarrow> (container \<Rightarrow> container) list \<Rightarrow> int \<Rightarrow> container \<Rightarrow> bool \<times> int \<times> container" where
  "wait_for mk [] errCode c = waiter mk errCode c"
| "wait_for mk (w # ws) errCode c =
     (let (ready, e, c1) = waiter mk errCode c
      in if ready then (True, e, c1) else wait_for mk ws e (w c1))"

definition Container_Acquire ::
    "creator \<Rightarrow> (container \<Rightarrow> container) list \<Rightarrow> container \<Rightarrow> (int \<times> conn_node option) \<times> container" where
  "Container_Acquire mk ws c =
     (if ct_max c = 0 then ((E_ERROR, None), c)
      else
        (let (ready, errCode, c1) = wait_for mk ws E_OK c
         in if ready
            then
              (if ct_nodes c1 = [] then ((E_ERROR, None), c1\<lparr>ct_count := 0\<rparr>)
               else ((E_OK, Some (last (ct_nodes c1))),
                     c1\<lparr>ct_nodes := butlast (ct_nodes c1), ct_count := ct_count c1 - 1\<rparr>))
            else ((errCode, None), c1)))"

text \<open>
  \<open>AcquireAll\<close> collects the idle nodes until it has all of them or the time is up. Merging the
  lists keeps every node; its order is that of addresses and is not modelled.
\<close>

function collect_all :: "(container \<Rightarrow> container) list \<Rightarrow> conn_node list \<Rightarrow> int \<Rightarrow> container \<Rightarrow>
    conn_node list \<times> int \<times> container" where
  "collect_all ws nodes cnt c =
     (if \<not> cnt < ct_total c then (nodes, cnt, c)
      else if ct_count c > 0
      then collect_all ws (nodes @ ct_nodes c) (cnt + ct_count c) (c\<lparr>ct_nodes := [], ct_count := 0\<rparr>)
      else (case ws of [] \<Rightarrow> (nodes, cnt, c) | w # ws' \<Rightarrow> collect_all ws' nodes cnt (w c)))"
  by pat_completeness auto
termination
  by (relation "measures [\<lambda>(ws, nodes, cnt, c). length ws, \<lambda>(ws, nodes, cnt, c). if ct_count c > 0 then 1 else 0]")
    auto

declare collect_all.simps [simp del]

text \<open>
  Whether a connection is still referenced from outside the pool is asked until it is not or the
  time is up; \<open>referenced\<close> is the last answer.
\<close>

definition Container_AcquireAll :: "(container \<Rightarrow> container) list \<Rightarrow> (int \<Rightarrow> bool) \<Rightarrow> container \<Rightarrow>
    (bool \<times> conn_node list) \<times> container" where
  "Container_AcquireAll ws referenced c =
     (let (nodes, cnt, c1) = collect_all ws [] 0 c
      in if cnt \<noteq> ct_total c1 then ((False, []), c1\<lparr>ct_count := cnt, ct_nodes := nodes\<rparr>)
         else if list_ex (\<lambda>n. referenced (cn_id n)) nodes
         then ((False, []), c1\<lparr>ct_count := cnt, ct_nodes := nodes\<rparr>)
         else ((True, nodes), c1))"

text \<open>\<open>AcquireById\<close>: the idle node with the least number above \<open>id\<close>, the first of them.\<close>

fun least_above :: "int \<Rightarrow> conn_node option \<Rightarrow> conn_node list \<Rightarrow> conn_node option" where
  "least_above i res [] = res"
| "least_above i res (n # ns) =
     (if cn_id n \<le> i then least_above i res ns
      else (case res of
              None \<Rightarrow> least_above i (Some n) ns
            | Some r \<Rightarrow> least_above i (if cn_id r > cn_id n then Some n else res) ns))"

definition Container_AcquireById :: "int \<Rightarrow> container \<Rightarrow> conn_node option \<times> container" where
  "Container_AcquireById i c =
     (if ct_count c = 0 then (None, c)
      else (case least_above i None (ct_nodes c) of
              None \<Rightarrow> (None, c)
            | Some n \<Rightarrow> (Some n, c\<lparr>ct_count := ct_count c - 1, ct_nodes := remove1 n (ct_nodes c)\<rparr>)))"

definition Disable :: "container \<Rightarrow> container" where "Disable c = c\<lparr>ct_disable := True\<rparr>"
definition Enable :: "container \<Rightarrow> container" where "Enable c = c\<lparr>ct_disable := False\<rparr>"

definition RelDetails :: "(int \<Rightarrow> bool) \<Rightarrow> conn_node \<Rightarrow> container \<Rightarrow> container" where
  "RelDetails alive node c =
     c\<lparr>ct_details := filter (\<lambda>d. \<not> (\<not> alive d \<or> d = cn_id node)) (ct_details c)\<rparr>"

definition Release :: "(int \<Rightarrow> bool) \<Rightarrow> conn_node \<Rightarrow> container \<Rightarrow> container" where
  "Release alive node c =
     (if cn_id node < ct_left c \<or> cn_id node \<ge> ct_right c then c
      else if ct_count c = ct_max c
      then RelDetails alive node
             (c\<lparr>ct_total := (if ct_total c > ct_count c then ct_total c - 1 else ct_count c)\<rparr>)
      else c\<lparr>ct_nodes := node # ct_nodes c, ct_count := ct_count c + 1\<rparr>)"

definition ReleaseTrans :: "(int \<Rightarrow> bool) \<Rightarrow> conn_node \<Rightarrow> container \<Rightarrow> container" where
  "ReleaseTrans alive node c =
     (if cn_id node < ct_left c \<or> cn_id node \<ge> ct_right c then c
      else if c_recyclable (cn_connect node)
      then c\<lparr>ct_nodes := ct_nodes c @ [node], ct_count := ct_count c + 1\<rparr>
      else RelDetails alive node (c\<lparr>ct_total := ct_total c - 1\<rparr>))"

definition Container_Clear :: "container \<Rightarrow> container" where
  "Container_Clear c =
     (let r = (if ct_right c > MAX_RIGHT then 0 else ct_right c)
      in c\<lparr>ct_nodes := [], ct_details := [], ct_disable := True, ct_total := 0, ct_count := 0,
           ct_right := r, ct_left := r, ct_creator := False\<rparr>)"

definition IsFull :: "container \<Rightarrow> bool" where "IsFull c = (ct_total c = ct_count c)"
definition Empty :: "container \<Rightarrow> bool" where "Empty c = (ct_total c = 0)"

text \<open>\<open>ClearUnusedTrans\<close>, with the clock in milliseconds; the flag asks for the next round.\<close>

fun ClearUnusedTrans_loop :: "(int \<Rightarrow> bool) \<Rightarrow> int \<Rightarrow> conn_node list \<Rightarrow> conn_node list \<Rightarrow> container \<Rightarrow> container" where
  "ClearUnusedTrans_loop alive now kept [] c = c\<lparr>ct_nodes := kept\<rparr>"
| "ClearUnusedTrans_loop alive now kept (n # ns) c =
     (if now - cn_time n < 150000 then ClearUnusedTrans_loop alive now (kept @ [n]) ns c
      else ClearUnusedTrans_loop alive now kept ns
             ((RelDetails alive n c)\<lparr>ct_total := ct_total c - 1, ct_count := ct_count c - 1\<rparr>))"

definition ClearUnusedTrans :: "(int \<Rightarrow> bool) \<Rightarrow> int \<Rightarrow> container \<Rightarrow> bool \<times> container" where
  "ClearUnusedTrans alive now c =
     (let c1 = ClearUnusedTrans_loop alive now [] (ct_nodes c) c in (ct_total c1 \<noteq> 0, c1))"

text \<open>\<open>Interrupt\<close>, \<open>ConfigLocale\<close> and \<open>SetTokenizer\<close> visit the live nodes and forget the others.\<close>

definition Container_Interrupt :: "(int \<Rightarrow> bool) \<Rightarrow> container \<Rightarrow> int list \<times> container" where
  "Container_Interrupt alive c =
     (filter alive (ct_details c), c\<lparr>ct_details := filter alive (ct_details c)\<rparr>)"

fun visit_details :: "(int \<Rightarrow> bool) \<Rightarrow> (int \<Rightarrow> int) \<Rightarrow> int list \<Rightarrow> int \<times> int list" where
  "visit_details alive act [] = (E_OK, [])"
| "visit_details alive act (d # ds) =
     (if \<not> alive d then visit_details alive act ds
      else if act d \<noteq> E_OK then (act d, d # ds)
      else (let (e, ds1) = visit_details alive act ds in (e, d # ds1)))"

definition Container_ConfigLocale :: "(int \<Rightarrow> bool) \<Rightarrow> (int \<Rightarrow> int) \<Rightarrow> container \<Rightarrow> int \<times> container" where
  "Container_ConfigLocale alive act c =
     (let (e, ds) = visit_details alive act (ct_details c) in (e, c\<lparr>ct_details := ds\<rparr>))"

definition Container_SetTokenizer :: "(int \<Rightarrow> bool) \<Rightarrow> (int \<Rightarrow> int) \<Rightarrow> container \<Rightarrow> int \<times> container" where
  "Container_SetTokenizer alive act c =
     (let (e, ds) = visit_details alive act (ct_details c) in (e, c\<lparr>ct_details := ds\<rparr>))"

section \<open>\<open>ConnectionPool\<close>\<close>

text \<open>What the pool asks of \<open>RdbStoreConfig\<close>.\<close>

record pool_config =
  cfg_Initialize :: int
  cfg_writable :: bool
  cfg_memory :: bool
  cfg_wal :: bool
  cfg_readConSize :: int
  cfg_writeTime :: int
  cfg_readTime :: int
  cfg_transTime :: int

text \<open>\<open>p_failedTime\<close> is \<open>None\<close> for the default time point.\<close>

record pool =
  p_config :: pool_config
  p_writers :: container
  p_readers :: container
  p_trans :: container
  p_maxReader :: int
  p_transactionUsed :: bool
  p_isAttach :: bool
  p_isInTransaction :: bool
  p_transEnable :: bool
  p_transCount :: int
  p_failedTime :: "int option"

type_synonym handle = "conn_node \<times> bool"

definition ConnectionPool_new :: "pool_config \<Rightarrow> pool" where
  "ConnectionPool_new cfg = \<lparr>p_config = cfg, p_writers = Container_new, p_readers = Container_new,
     p_trans = Container_new\<lparr>ct_right := MIN_TRANS_ID, ct_left := MIN_TRANS_ID\<rparr>, p_maxReader = 0,
     p_transactionUsed = False, p_isAttach = False, p_isInTransaction = False, p_transEnable = True,
     p_transCount = 0, p_failedTime = None\<rparr>"

definition pool_cfg :: "bool \<Rightarrow> pool \<Rightarrow> pool_config" where
  "pool_cfg isAttach p = (if isAttach then (p_config p)\<lparr>cfg_wal := False\<rparr> else p_config p)"

definition GetMaxReaders :: "pool_config \<Rightarrow> int" where
  "GetMaxReaders cfg = (if \<not> cfg_memory cfg \<and> cfg_wal cfg then cfg_readConSize cfg else 0)"

definition Convert2AutoConn :: "int \<Rightarrow> int \<Rightarrow> conn_node option \<Rightarrow> bool \<Rightarrow> pool \<Rightarrow> handle option \<times> pool" where
  "Convert2AutoConn tid now node isTrans p =
     (case node of
        None \<Rightarrow> (None, p)
      | Some n \<Rightarrow> (Some (GetConnect tid now n, isTrans),
                   if isTrans then p\<lparr>p_transCount := p_transCount p + 1\<rparr> else p))"

text \<open>A checkpoint interval is five minutes.\<close>

definition ReleaseNode :: "(int \<Rightarrow> bool) \<Rightarrow> int \<Rightarrow> (bool \<Rightarrow> int) \<Rightarrow> conn_node \<Rightarrow> bool \<Rightarrow> pool \<Rightarrow> pool" where
  "ReleaseNode alive now tryCheckPoint node isTrans p =
     (let timeout = (case p_failedTime p of None \<Rightarrow> True | Some t \<Rightarrow> now > t + 300000 \<or> now < t);
          transCount = p_transCount p + (if p_isInTransaction p then 1 else 0);
          remainCount = (if isTrans then transCount - 1 else transCount);
          (errCode, n1) = Unused now tryCheckPoint remainCount timeout node;
          p1 = (if c_writer (cn_connect node) \<and> errCode \<noteq> E_INNER_WARNING \<and> errCode \<noteq> E_NOT_SUPPORT
                then p\<lparr>p_failedTime := (if errCode \<noteq> E_OK then Some now else None)\<rparr> else p)
      in if isTrans then p1\<lparr>p_trans := ReleaseTrans alive n1 (p_trans p1)\<rparr>
         else if c_writer (cn_connect n1) then p1\<lparr>p_writers := Release alive n1 (p_writers p1)\<rparr>
         else p1\<lparr>p_readers := Release alive n1 (p_readers p1)\<rparr>)"

text \<open>The deleter of a handle.\<close>

definition drop_handle :: "(int \<Rightarrow> bool) \<Rightarrow> int \<Rightarrow> (bool \<Rightarrow> int) \<Rightarrow> handle \<Rightarrow> pool \<Rightarrow> pool" where
  "drop_handle alive now tryCheckPoint h p =
     (let p1 = ReleaseNode alive now tryCheckPoint (fst h) (snd h) p
      in if snd h then p1\<lparr>p_transCount := p_transCount p1 - 1\<rparr> else p1)"

definition drop_handles where
  "drop_handles alive now tryCheckPoint hs p = fold (drop_handle alive now tryCheckPoint) hs p"

definition Init :: "(int \<Rightarrow> bool) \<Rightarrow> int \<Rightarrow> int \<Rightarrow> (bool \<Rightarrow> int) \<Rightarrow> creator \<Rightarrow> creator \<Rightarrow> bool \<Rightarrow> bool \<Rightarrow> pool \<Rightarrow>
    (int \<times> handle option) \<times> pool" where
  "Init alive tid now tryCheckPoint mkW mkR isAttach needWriter p =
     (let cfg = pool_cfg isAttach p
      in if cfg_Initialize cfg \<noteq> E_OK then ((cfg_Initialize cfg, None), p)
         else
           (let (errCode, conn, p1) =
                  (if cfg_writable cfg
                   then
                     (let ((e, node), w) = Initialize mkW 1 (cfg_writeTime cfg) True needWriter (p_writers p);
                          (conn, q) = Convert2AutoConn tid now node False (p\<lparr>p_writers := w\<rparr>)
                      in if e \<noteq> E_OK then (e, conn, q)
                         else (E_OK, conn,
                           q\<lparr>p_trans := InitMembers (int MAX_TRANS) (cfg_transTime cfg) False (p_trans q)\<rparr>))
                   else (E_OK, None, p))
            in if errCode \<noteq> E_OK then ((errCode, conn), p1)
               else
                 (let p2 = p1\<lparr>p_isAttach := isAttach, p_maxReader := GetMaxReaders cfg\<rparr>
                  in if p_maxReader p2 > 64
                     then ((E_ARGS_READ_CON_OVERLOAD, None),
                           case conn of None \<Rightarrow> p2 | Some h \<Rightarrow> drop_handle alive now tryCheckPoint h p2)
                     else
                       (let ((ret, node), r) = Initialize mkR (p_maxReader p2) (cfg_readTime cfg)
                              (p_maxReader p2 = 0) False (p_readers p2)
                        in ((ret, conn), p2\<lparr>p_readers := r\<rparr>)))))"

definition CloseAllConnections :: "pool \<Rightarrow> pool" where
  "CloseAllConnections p = p\<lparr>p_writers := Container_Clear (p_writers p),
     p_readers := Container_Clear (p_readers p), p_trans := Container_Clear (p_trans p)\<rparr>"

definition SetInTransaction :: "bool \<Rightarrow> pool \<Rightarrow> pool" where
  "SetInTransaction b p = p\<lparr>p_isInTransaction := b\<rparr>"

definition AcquireAndDisableTrans :: "int \<Rightarrow> int \<Rightarrow> (container \<Rightarrow> container) list \<Rightarrow> (int \<Rightarrow> bool) \<Rightarrow> pool \<Rightarrow>
    (int \<times> handle list) \<times> pool" where
  "AcquireAndDisableTrans tid now ws referenced p =
     (let p1 = p\<lparr>p_transEnable := False\<rparr>;
          ((res, nodes), t) = Container_AcquireAll ws referenced (p_trans p1);
          p2 = p1\<lparr>p_trans := t\<rparr>
      in if \<not> res then ((E_DATABASE_BUSY, []), p2\<lparr>p_transEnable := True\<rparr>)
         else ((E_OK, map (\<lambda>n. (GetConnect tid now n, True)) nodes),
               p2\<lparr>p_transCount := p_transCount p2 + int (length nodes)\<rparr>))"

definition EnableTrans :: "pool \<Rightarrow> pool" where
  "EnableTrans p = p\<lparr>p_transEnable := True\<rparr>"

text \<open>The flag of the result asks for the timer that clears unused transactions.\<close>

definition CreateTransConn :: "creator \<Rightarrow> (container \<Rightarrow> container) list \<Rightarrow> int \<Rightarrow> int \<Rightarrow> bool \<Rightarrow> pool \<Rightarrow>
    (int \<times> handle option \<times> bool) \<times> pool" where
  "CreateTransConn mk ws tid now limited p =
     (if \<not> p_transEnable p \<or> p_transCount p \<ge> int MAX_TRANS \<and> limited
      then ((E_DATABASE_BUSY, None, False), p)
      else
        (let timer = Empty (p_trans p);
             ((errCode, node), t) = Container_Acquire mk ws (p_trans p);
             (conn, p1) = Convert2AutoConn tid now node True (p\<lparr>p_trans := t\<rparr>)
         in ((errCode, conn, timer), p1)))"

definition AcquireContainer :: "int \<Rightarrow> int \<Rightarrow> (container \<Rightarrow> container) list \<Rightarrow> (int \<Rightarrow> bool) \<Rightarrow> container \<Rightarrow>
    (int \<times> handle list) \<times> container" where
  "AcquireContainer tid now ws referenced c =
     (let ((res, nodes), c1) = Container_AcquireAll ws referenced (Disable c)
      in if \<not> res then ((E_ERROR, []), Enable c1)
         else ((E_OK, map (\<lambda>n. (GetConnect tid now n, False)) nodes), c1))"

text \<open>
  \<open>AcquireAll\<close>: \<open>late1\<close> and \<open>late2\<close> tell whether the time was up after the writers and after the
  readers. A return drops the handles that are not in the result, in the reverse order of their
  construction; those of the transaction connections are dropped on every return.
\<close>

definition Pool_AcquireAll ::
    "(int \<Rightarrow> bool) \<Rightarrow> int \<Rightarrow> int \<Rightarrow> (bool \<Rightarrow> int) \<Rightarrow> (container \<Rightarrow> container) list \<Rightarrow> (container \<Rightarrow> container) list \<Rightarrow>
     (container \<Rightarrow> container) list \<Rightarrow> (int \<Rightarrow> bool) \<Rightarrow> bool \<Rightarrow> bool \<Rightarrow> pool \<Rightarrow>
     (handle option \<times> handle list) \<times> pool" where
  "Pool_AcquireAll alive tid now tryCheckPoint wsW wsR wsT referenced late1 late2 p =
     (let drops = drop_handles alive now tryCheckPoint;
          ((res, writerNodes), w) = Container_AcquireAll wsW referenced (p_writers p);
          p1 = p\<lparr>p_writers := w\<rparr>
      in if \<not> res then ((None, []), p1)
         else
           (let writer = (case writerNodes of [] \<Rightarrow> [] | n # _ \<Rightarrow> [(GetConnect tid now n, False)])
            in if late1 then ((None, []), drops writer p1)
               else if p_maxReader p1 = 0
               then ((case writer of [] \<Rightarrow> None | h # _ \<Rightarrow> Some h, []), p1)
               else
                 (let ((readersErr, readers), r) = AcquireContainer tid now wsR referenced (p_readers p1);
                      p2 = p1\<lparr>p_readers := r\<rparr>
                  in if readersErr \<noteq> E_OK then ((None, []), drops writer p2)
                     else if late2 then ((None, []), drops (readers @ writer) p2)
                     else
                       (let ((transErr, trans), t) = AcquireContainer tid now wsT referenced (p_trans p2);
                            p3 = p2\<lparr>p_trans := t\<rparr>
                        in if transErr \<noteq> E_OK then ((None, []), drops (readers @ writer) p3)
                           else ((case writer of [] \<Rightarrow> None | h # _ \<Rightarrow> Some h, readers), drops trans p3)))))"

definition Pool_Acquire :: "creator \<Rightarrow> (container \<Rightarrow> container) list \<Rightarrow> int \<Rightarrow> int \<Rightarrow> bool \<Rightarrow> pool \<Rightarrow>
    handle option \<times> pool" where
  "Pool_Acquire mk ws tid now isReadOnly p =
     (let toReaders = (isReadOnly \<and> p_maxReader p \<noteq> 0);
          ((errCode, node), c) = Container_Acquire mk ws (if toReaders then p_readers p else p_writers p);
          p1 = (if toReaders then p\<lparr>p_readers := c\<rparr> else p\<lparr>p_writers := c\<rparr>)
      in if errCode \<noteq> E_OK \<or> node = None then (None, p1) else Convert2AutoConn tid now node False p1)"

text \<open>\<open>AcquireRef\<close>: without readers the writer is put back at once and shared.\<close>

definition AcquireRef :: "(int \<Rightarrow> bool) \<Rightarrow> creator \<Rightarrow> (container \<Rightarrow> container) list \<Rightarrow> int \<Rightarrow> int \<Rightarrow> bool \<Rightarrow> pool \<Rightarrow>
    (handle + connection) option \<times> pool" where
  "AcquireRef alive mk ws tid now isReadOnly p =
     (if p_maxReader p \<noteq> 0
      then (let (h, p1) = Pool_Acquire mk ws tid now isReadOnly p in (map_option Inl h, p1))
      else
        (let ((errCode, node), w) = Container_Acquire mk ws (p_writers p)
         in case node of
              None \<Rightarrow> (None, p\<lparr>p_writers := w\<rparr>)
            | Some n \<Rightarrow>
                if errCode \<noteq> E_OK then (None, p\<lparr>p_writers := w\<rparr>)
                else (Some (Inr (cn_connect n)), p\<lparr>p_writers := Release alive n w\<rparr>)))"

text \<open>\<open>AcquireTransaction\<close>: \<open>freed\<close> tells whether another thread released it within the timeout.\<close>

definition AcquireTransaction :: "bool \<Rightarrow> pool \<Rightarrow> int \<times> pool" where
  "AcquireTransaction freed p =
     (if \<not> p_transactionUsed p \<or> freed then (E_OK, p\<lparr>p_transactionUsed := True\<rparr>)
      else (E_DATABASE_BUSY, p))"

definition ReleaseTransaction :: "pool \<Rightarrow> pool" where
  "ReleaseTransaction p = p\<lparr>p_transactionUsed := False\<rparr>"

definition RestartConns :: "creator \<Rightarrow> pool \<Rightarrow> int \<times> pool" where
  "RestartConns mkR p =
     (let cfg = pool_cfg (p_isAttach p) p;
          ((errCode, node), r) = Initialize mkR (p_maxReader p) (cfg_readTime cfg) (p_maxReader p = 0) False
            (Container_Clear (p_readers p));
          t = InitMembers (int MAX_TRANS) (cfg_transTime cfg) False (Container_Clear (p_trans p))
      in (errCode, p\<lparr>p_readers := r, p_trans := t\<rparr>))"

definition ReopenConns where
  "ReopenConns alive tid now tryCheckPoint mkW mkR p =
     (let ((errCode, conn), p1) = Init alive tid now tryCheckPoint mkW mkR False False (CloseAllConnections p)
      in (if errCode \<noteq> E_OK then errCode else E_OK, p1))"

definition DisableWal where
  "DisableWal alive tid now tryCheckPoint mkW mkR p = Init alive tid now tryCheckPoint mkW mkR True True p"

definition EnableWal where
  "EnableWal alive tid now tryCheckPoint mkW mkR p =
     (let ((errCode, conn), p1) = Init alive tid now tryCheckPoint mkW mkR False False p in (errCode, p1))"

definition Pool_AcquireById :: "bool \<Rightarrow> int \<Rightarrow> pool \<Rightarrow> conn_node option \<times> pool" where
  "Pool_AcquireById isReadOnly i p =
     (if isReadOnly
      then (let (n, c) = Container_AcquireById i (p_readers p) in (n, p\<lparr>p_readers := c\<rparr>))
      else (let (n, c) = Container_AcquireById i (p_writers p) in (n, p\<lparr>p_writers := c\<rparr>)))"

definition Pool_Interrupt :: "(int \<Rightarrow> bool) \<Rightarrow> 32 word \<Rightarrow> pool \<Rightarrow> pool" where
  "Pool_Interrupt alive type p =
     (let p1 = (if and type 1 \<noteq> 0 then p\<lparr>p_readers := snd (Container_Interrupt alive (p_readers p))\<rparr> else p);
          p2 = (if and type 2 \<noteq> 0 then p1\<lparr>p_writers := snd (Container_Interrupt alive (p_writers p1))\<rparr> else p1)
      in if and type 4 \<noteq> 0 then p2\<lparr>p_trans := snd (Container_Interrupt alive (p_trans p2))\<rparr> else p2)"

definition Pool_ConfigLocale :: "(int \<Rightarrow> bool) \<Rightarrow> (int \<Rightarrow> int) \<Rightarrow> pool \<Rightarrow> int \<times> pool" where
  "Pool_ConfigLocale alive act p =
     (let (e1, r) = Container_ConfigLocale alive act (p_readers p);
          p1 = p\<lparr>p_readers := r\<rparr>
      in if e1 \<noteq> E_OK then (e1, p1)
         else
           (let (e2, w) = Container_ConfigLocale alive act (p_writers p1);
                p2 = p1\<lparr>p_writers := w\<rparr>
            in if e2 \<noteq> E_OK then (e2, p2)
               else (let (e3, t) = Container_ConfigLocale alive act (p_trans p2) in (e3, p2\<lparr>p_trans := t\<rparr>))))"

definition Pool_SetTokenizer :: "(int \<Rightarrow> bool) \<Rightarrow> (int \<Rightarrow> int) \<Rightarrow> pool \<Rightarrow> int \<times> pool" where
  "Pool_SetTokenizer alive act p =
     (let (e1, r) = Container_SetTokenizer alive act (p_readers p);
          p1 = p\<lparr>p_readers := r\<rparr>
      in if e1 \<noteq> E_OK then (e1, p1)
         else
           (let (e2, w) = Container_SetTokenizer alive act (p_writers p1);
                p2 = p1\<lparr>p_writers := w\<rparr>
            in if e2 \<noteq> E_OK then (e2, p2)
               else (let (e3, t) = Container_SetTokenizer alive act (p_trans p2) in (e3, p2\<lparr>p_trans := t\<rparr>))))"

section \<open>A container and its clients\<close>

text \<open>
  The state is the container with the nodes its clients hold. A thread that waits evaluates its
  condition again and again, each time as one step; a thread that collects all nodes holds what it
  has collected, and puts it back on a timeout, when the container has none. A holder may change a
  node but not its number. \<open>Initialize\<close> is a step when it succeeds, and \<open>Clear\<close> as long as the
  numbers have not wrapped.
\<close>

definition current :: "container \<Rightarrow> conn_node \<Rightarrow> bool" where
  "current c n = (ct_left c \<le> cn_id n \<and> cn_id n < ct_right c)"

inductive cstep :: "container \<times> conn_node list \<Rightarrow> container \<times> conn_node list \<Rightarrow> bool" where
  acquire: "Container_Acquire mk [] c = ((e, Some n), c') \<Longrightarrow> cstep (c, H) (c', n # H)"
| acquire_none: "Container_Acquire mk [] c = ((e, None), c') \<Longrightarrow> cstep (c, H) (c', H)"
| collect: "ct_count c > 0 \<Longrightarrow> cstep (c, H) (c\<lparr>ct_nodes := [], ct_count := 0\<rparr>, ct_nodes c @ H)"
| put_back: "ct_count c = 0 \<Longrightarrow> list_all (current c) N \<Longrightarrow>
    cstep (c, N @ H) (c\<lparr>ct_nodes := N, ct_count := int (length N)\<rparr>, H)"
| acquire_id: "Container_AcquireById i c = (Some n, c') \<Longrightarrow> cstep (c, H) (c', n # H)"
| touch: "cn_id n' = cn_id n \<Longrightarrow> cstep (c, A @ n # B) (c, A @ n' # B)"
| release: "cstep (c, A @ n # B) (Release alive n c, A @ B)"
| release_trans: "cstep (c, A @ n # B) (ReleaseTrans alive n c, A @ B)"
| members: "cstep (c, H) (InitMembers m t d c, H)"
| initialize: "Initialize mk m t d False c = ((E_OK, None), c') \<Longrightarrow> cstep (c, H) (c', H)"
| initialize_take: "Initialize mk m t d True c = ((E_OK, Some n), c') \<Longrightarrow> cstep (c, H) (c', n # H)"
| disable: "cstep (c, H) (Disable c, H)"
| enable: "cstep (c, H) (Enable c, H)"
| clear: "ct_right c \<le> MAX_RIGHT \<Longrightarrow> cstep (c, H) (Container_Clear c, H)"
| clear_unused: "cstep (c, H) (snd (ClearUnusedTrans alive now c), H)"
| interrupt: "cstep (c, H) (snd (Container_Interrupt alive c), H)"

definition cinv :: "container \<times> conn_node list \<Rightarrow> bool" where
  "cinv s \<longleftrightarrow> (case s of (c, H) \<Rightarrow>
     ct_count c = int (length (ct_nodes c))
     \<and> ct_total c = int (length (ct_nodes c)) + int (length (filter (current c) H))
     \<and> list_all (current c) (ct_nodes c)
     \<and> distinct (map cn_id (ct_nodes c @ H))
     \<and> list_all (\<lambda>n. cn_id n < ct_right c) H
     \<and> ct_left c \<le> ct_right c)"

lemma cinvI:
  assumes "ct_count c = int (length (ct_nodes c))"
    "ct_total c = int (length (ct_nodes c)) + int (length (filter (current c) H))"
    "list_all (current c) (ct_nodes c)" "distinct (map cn_id (ct_nodes c @ H))"
    "list_all (\<lambda>n. cn_id n < ct_right c) H" "ct_left c \<le> ct_right c"
  shows "cinv (c, H)"
  using assms by (simp add: cinv_def)

text \<open>The container matters to the invariant only through these fields.\<close>

lemma cinv_same:
  assumes "cinv (c, H)" "ct_nodes c' = ct_nodes c" "ct_count c' = ct_count c" "ct_total c' = ct_total c"
    "ct_left c' = ct_left c" "ct_right c' = ct_right c"
  shows "cinv (c', H)"
proof -
  have "current c' = current c" using assms by (simp add: current_def fun_eq_iff)
  with assms show ?thesis by (simp add: cinv_def)
qed

lemma extend_inv:
  assumes "cinv (c, H)"
  shows "cinv (snd (ExtendNode mk c), H)"
proof (cases "ct_creator c \<and> snd (mk (ct_right c)) \<noteq> None")
  case False
  then have "snd (ExtendNode mk c) = c" by (auto simp: ExtendNode_def split: prod.splits option.splits)
  with assms show ?thesis by simp
next
  case True
  then obtain e conn where mk: "mk (ct_right c) = (e, Some conn)" by (cases "mk (ct_right c)") auto
  define n where "n = \<lparr>cn_tid = 0, cn_id = ct_right c, cn_time = 0, cn_connect = conn\<rparr>"
  define c1 where "c1 = snd (ExtendNode mk c)"
  have c1: "ct_nodes c1 = ct_nodes c @ [n]" "ct_count c1 = ct_count c + 1" "ct_total c1 = ct_total c + 1"
    "ct_left c1 = ct_left c" "ct_right c1 = ct_right c + 1"
    using True mk by (simp_all add: c1_def ExtendNode_def n_def Let_def)
  have cur: "current c1 x = current c x" if "cn_id x < ct_right c" for x
    using that c1 by (auto simp: current_def)
  have "filter (current c1) H = filter (current c) H"
    using assms cur by (intro filter_cong) (auto simp: cinv_def list_all_iff)
  moreover have "list_all (current c1) (ct_nodes c1)"
    using assms cur c1 by (auto simp: cinv_def list_all_iff current_def n_def)
  moreover have "cn_id n \<notin> cn_id ` set (ct_nodes c @ H)"
    using assms by (auto simp: cinv_def list_all_iff current_def n_def)
  ultimately have "cinv (c1, H)"
    using assms c1 by (intro cinvI) (auto simp: cinv_def list_all_iff n_def)
  then show ?thesis by (simp add: c1_def)
qed

lemma take_last_inv:
  assumes "cinv (c, H)" "ct_nodes c \<noteq> []"
  shows "cinv (c\<lparr>ct_nodes := butlast (ct_nodes c), ct_count := ct_count c - 1\<rparr>, last (ct_nodes c) # H)"
proof -
  obtain ns n where ns: "ct_nodes c = ns @ [n]" using assms(2) by (cases "ct_nodes c" rule: rev_cases) auto
  have "current (c\<lparr>ct_nodes := x, ct_count := y\<rparr>) = current c" for x y by (simp add: current_def fun_eq_iff)
  with assms ns show ?thesis by (auto simp: cinv_def current_def)
qed

lemma waiter_inv:
  "cinv (c, H) \<Longrightarrow> waiter mk e c = (r, e', c') \<Longrightarrow> cinv (c', H)"
  using extend_inv [of c H mk] by (auto simp: waiter_def split: if_splits prod.splits)

lemma acquire_inv:
  assumes "cinv (c, H)" "Container_Acquire mk [] c = ((e, r), c')"
  shows "cinv (c', case r of Some n \<Rightarrow> n # H | None \<Rightarrow> H)"
proof (cases "ct_max c = 0")
  case True
  with assms show ?thesis by (auto simp: Container_Acquire_def)
next
  case False
  obtain ready e1 c1 where w: "waiter mk E_OK c = (ready, e1, c1)" by (cases "waiter mk E_OK c") auto
  have inv: "cinv (c1, H)" using waiter_inv [OF assms(1) w] .
  show ?thesis
  proof (cases ready)
    case True
    have "cinv (c1\<lparr>ct_count := 0\<rparr>, H)" if "ct_nodes c1 = []"
      using inv that by (intro cinv_same [OF inv]) (auto simp: cinv_def)
    with True take_last_inv [OF inv] w assms(2) False show ?thesis
      by (auto simp: Container_Acquire_def split: if_splits)
  next
    case False
    with inv w assms(2) \<open>ct_max c \<noteq> 0\<close> show ?thesis by (auto simp: Container_Acquire_def)
  qed
qed

lemma initialize_loop_inv:
  "cinv (c, H) \<Longrightarrow> Initialize_loop mk m c = (E_OK, c') \<Longrightarrow> cinv (c', H)"
proof (induction mk m c arbitrary: c' rule: Initialize_loop.induct)
  case (2 mk m c)
  obtain e c1 where x: "ExtendNode mk c = (e, c1)" by fastforce
  with 2 extend_inv [OF 2(2), of mk] show ?case by (auto split: if_splits)
qed simp

lemma members_inv: "cinv (c, H) \<Longrightarrow> cinv (InitMembers m t d c, H)"
  by (erule cinv_same) (simp_all add: InitMembers_def)

lemma initialize_inv:
  assumes "cinv (c, H)" "Initialize mk m t d a c = ((E_OK, r), c')"
  shows "cinv (c', case r of Some n \<Rightarrow> n # H | None \<Rightarrow> H)"
proof -
  obtain e c1 where l: "Initialize_loop mk (nat m) (InitMembers m t d c) = (e, c1)" by fastforce
  with assms(2) have e: "e = E_OK" by (auto simp: Initialize_def split: if_splits)
  have inv: "cinv (c1, H)" using initialize_loop_inv [OF members_inv [OF assms(1)]] l e by blast
  then have "ct_nodes c1 \<noteq> []" if "ct_count c1 > 0" using that by (auto simp: cinv_def)
  with take_last_inv [OF inv] inv l e assms(2) show ?thesis
    by (auto simp: Initialize_def split: if_splits)
qed

lemma least_above_mem: "least_above i res ns = Some n \<Longrightarrow> n \<in> set ns \<or> res = Some n"
  by (induction i res ns rule: least_above.induct) (auto split: if_splits option.splits)

lemma split_held:
  "cinv (c, A @ n # B) \<Longrightarrow>
     ct_total c = int (length (ct_nodes c)) + int (length (filter (current c) (A @ B)))
       + (if current c n then 1 else 0)"
  by (simp add: cinv_def)

lemma release_inv:
  assumes "cinv (c, A @ n # B)"
  shows "cinv (Release alive n c, A @ B)"
proof -
  have cur: "current (c\<lparr>ct_nodes := x, ct_count := y\<rparr>) = current c"
    "current (RelDetails alive n (c\<lparr>ct_total := y\<rparr>)) = current c" for x y
    by (simp_all add: current_def RelDetails_def fun_eq_iff)
  show ?thesis
  proof (cases "current c n")
    case False
    then have "Release alive n c = c" by (auto simp: Release_def current_def)
    with assms False show ?thesis by (auto simp: cinv_def)
  next
    case True
    show ?thesis
    proof (cases "ct_count c = ct_max c")
      case full: True
      have "ct_total c > ct_count c" using assms True by (simp add: cinv_def)
      with full True have r: "Release alive n c = RelDetails alive n (c\<lparr>ct_total := ct_total c - 1\<rparr>)"
        by (simp add: Release_def current_def)
      show ?thesis unfolding r
        using assms True by (intro cinvI) (auto simp: cur cinv_def, auto simp: RelDetails_def)
    next
      case False
      with True have r: "Release alive n c = c\<lparr>ct_nodes := n # ct_nodes c, ct_count := ct_count c + 1\<rparr>"
        by (simp add: Release_def current_def)
      show ?thesis unfolding r using assms True by (intro cinvI) (auto simp: cur cinv_def)
    qed
  qed
qed

lemma release_trans_inv:
  assumes "cinv (c, A @ n # B)"
  shows "cinv (ReleaseTrans alive n c, A @ B)"
proof -
  have cur: "current (c\<lparr>ct_nodes := x, ct_count := y\<rparr>) = current c"
    "current (RelDetails alive n (c\<lparr>ct_total := y\<rparr>)) = current c" for x y
    by (simp_all add: current_def RelDetails_def fun_eq_iff)
  show ?thesis
  proof (cases "current c n")
    case False
    then have "ReleaseTrans alive n c = c" by (auto simp: ReleaseTrans_def current_def)
    with assms False show ?thesis by (auto simp: cinv_def)
  next
    case True
    show ?thesis
    proof (cases "c_recyclable (cn_connect n)")
      case recyclable: True
      with True have r: "ReleaseTrans alive n c = c\<lparr>ct_nodes := ct_nodes c @ [n], ct_count := ct_count c + 1\<rparr>"
        by (simp add: ReleaseTrans_def current_def)
      show ?thesis unfolding r using assms True by (intro cinvI) (auto simp: cur cinv_def)
    next
      case False
      with True have r: "ReleaseTrans alive n c = RelDetails alive n (c\<lparr>ct_total := ct_total c - 1\<rparr>)"
        by (simp add: ReleaseTrans_def current_def)
      show ?thesis unfolding r
        using assms True by (intro cinvI) (auto simp: cur cinv_def, auto simp: RelDetails_def)
    qed
  qed
qed

lemma acquire_id_inv:
  assumes "cinv (c, H)" "Container_AcquireById i c = (Some n, c')"
  shows "cinv (c', n # H)"
proof -
  have c': "c' = c\<lparr>ct_count := ct_count c - 1, ct_nodes := remove1 n (ct_nodes c)\<rparr>"
    and "least_above i None (ct_nodes c) = Some n"
    using assms(2) by (auto simp: Container_AcquireById_def split: if_splits option.splits)
  then have n: "n \<in> set (ct_nodes c)" using least_above_mem by fastforce
  then obtain A B where ns: "ct_nodes c = A @ n # B" "n \<notin> set A" by (meson split_list_first)
  have "current c' = current c" by (simp add: c' current_def fun_eq_iff)
  with assms(1) ns show ?thesis
    by (intro cinvI) (auto simp: c' cinv_def remove1_append current_def)
qed

lemma clear_unused_loop_inv:
  assumes "cinv (c\<lparr>ct_nodes := kept @ ns\<rparr>, H)"
  shows "cinv (ClearUnusedTrans_loop alive now kept ns c, H)"
  using assms
proof (induction alive now kept ns c rule: ClearUnusedTrans_loop.induct)
  case (2 alive now kept n ns c)
  let ?c = "(RelDetails alive n c)\<lparr>ct_total := ct_total c - 1, ct_count := ct_count c - 1\<rparr>"
  have "current (?c\<lparr>ct_nodes := kept @ ns\<rparr>) = current (c\<lparr>ct_nodes := kept @ n # ns\<rparr>)"
    by (simp add: current_def RelDetails_def fun_eq_iff)
  moreover from 2(3) have "cinv (c\<lparr>ct_nodes := kept @ n # ns\<rparr>, H)" .
  ultimately have "cinv (?c\<lparr>ct_nodes := kept @ ns\<rparr>, H)"
    by (intro cinvI) (auto simp: cinv_def, auto simp: RelDetails_def)
  with 2 show ?case by simp
qed simp

lemma clear_inv:
  assumes "cinv (c, H)" "ct_right c \<le> MAX_RIGHT"
  shows "cinv (Container_Clear c, H)"
proof -
  let ?c = "Container_Clear c"
  have f: "ct_nodes ?c = []" "ct_count ?c = 0" "ct_total ?c = 0" "ct_left ?c = ct_right c" "ct_right ?c = ct_right c"
    using assms(2) by (simp_all add: Container_Clear_def Let_def)
  have "filter (current ?c) H = []" by (auto simp: filter_empty_conv current_def f)
  with assms(1) show ?thesis by (intro cinvI) (auto simp: f cinv_def)
qed

lemma cstep_inv: "cstep s s' \<Longrightarrow> cinv s \<Longrightarrow> cinv s'"
proof (induction rule: cstep.induct)
  case (acquire mk c e n c' H)
  then show ?case using acquire_inv by fastforce
next
  case (acquire_none mk c e c' H)
  then show ?case using acquire_inv by fastforce
next
  case (collect c H)
  have "current (c\<lparr>ct_nodes := [], ct_count := 0\<rparr>) = current c" by (simp add: current_def fun_eq_iff)
  with collect show ?case by (intro cinvI) (auto simp: cinv_def list_all_iff current_def)
next
  case (put_back c N H)
  have "current (c\<lparr>ct_nodes := N, ct_count := int (length N)\<rparr>) = current c"
    by (simp add: current_def fun_eq_iff)
  moreover have "ct_nodes c = []" using put_back by (simp add: cinv_def)
  moreover have "filter (current c) N = N" using put_back(2) by (simp add: list_all_iff)
  ultimately show ?case using put_back by (intro cinvI) (auto simp: cinv_def)
next
  case (acquire_id i c n c' H)
  then show ?case by (metis acquire_id_inv)
next
  case (touch n' n c A B)
  then have "current c n' = current c n" by (simp add: current_def)
  with touch show ?case by (auto simp: cinv_def)
next
  case (initialize mk m t d c c' H)
  then show ?case using initialize_inv by fastforce
next
  case (initialize_take mk m t d c n c' H)
  then show ?case using initialize_inv by fastforce
next
  case (disable c H)
  then show ?case by (rule cinv_same) (simp_all add: Disable_def)
next
  case (enable c H)
  then show ?case by (rule cinv_same) (simp_all add: Enable_def)
next
  case (clear_unused c H alive now)
  then show ?case using clear_unused_loop_inv [where c = c and kept = "[]" and ns = "ct_nodes c"]
    by (simp add: ClearUnusedTrans_def Let_def)
next
  case (interrupt c H alive)
  then show ?case by (rule cinv_same) (simp_all add: Container_Interrupt_def)
qed (auto intro: release_inv release_trans_inv members_inv clear_inv)

lemma csteps_inv: "cstep\<^sup>*\<^sup>* s s' \<Longrightarrow> cinv s \<Longrightarrow> cinv s'"
  by (induction rule: rtranclp_induct) (auto intro: cstep_inv)

text \<open>A container as the pool constructs it: new, with its numbers starting at \<open>k\<close>.\<close>

abbreviation fresh_container :: "int \<Rightarrow> container" where
  "fresh_container k \<equiv> Container_new\<lparr>ct_right := k, ct_left := k\<rparr>"

lemma fresh_inv: "cinv (fresh_container k, [])"
  by (simp add: cinv_def Container_new_def)

lemma AcquireAll_atomic:
  assumes "cinv (c, H)"
  shows "Container_AcquireAll [] referenced c =
    (if filter (current c) H = [] \<and> \<not> list_ex (\<lambda>n. referenced (cn_id n)) (ct_nodes c)
     then ((True, ct_nodes c), c\<lparr>ct_nodes := [], ct_count := 0\<rparr>) else ((False, []), c))"
proof -
  have c: "ct_count c = int (length (ct_nodes c))"
    "ct_total c = int (length (ct_nodes c)) + int (length (filter (current c) H))"
    using assms by (auto simp: cinv_def)
  have all: "collect_all [] [] 0 c = (ct_nodes c, ct_count c, c\<lparr>ct_nodes := [], ct_count := 0\<rparr>)"
  proof (cases "ct_nodes c = []")
    case True
    then have "c\<lparr>ct_nodes := [], ct_count := 0\<rparr> = c" using c(1) by (cases c) auto
    with True c show ?thesis by (subst collect_all.simps) auto
  next
    case False
    then have "collect_all [] [] 0 c = collect_all [] (ct_nodes c) (ct_count c) (c\<lparr>ct_nodes := [], ct_count := 0\<rparr>)"
      using c by (subst collect_all.simps) (auto simp: add_pos_nonneg)
    also have "\<dots> = (ct_nodes c, ct_count c, c\<lparr>ct_nodes := [], ct_count := 0\<rparr>)"
      by (subst collect_all.simps) auto
    finally show ?thesis .
  qed
  have restore: "c\<lparr>ct_nodes := ct_nodes c, ct_count := int (length (ct_nodes c))\<rparr> = c"
    using c(1) by (cases c) auto
  show ?thesis
    using c restore by (auto simp: Container_AcquireAll_def all Let_def)
qed

lemma drop_handle_trans [simp]:
  "p_trans (drop_handle alive now cp (n, False) p) = p_trans p"
  by (simp add: drop_handle_def ReleaseNode_def Let_def case_prod_unfold)

lemma drop_handles_trans:
  "p_trans (drop_handles alive now cp (map (\<lambda>n. (f n, False)) ns) p) = p_trans p"
  unfolding drop_handles_def by (induction ns arbitrary: p) auto

lemma AcquireContainer_idle:
  assumes "cinv (c, [])"
  shows "AcquireContainer tid now [] (\<lambda>_. False) c =
    ((E_OK, map (\<lambda>n. (GetConnect tid now n, False)) (ct_nodes c)),
     c\<lparr>ct_disable := True, ct_nodes := [], ct_count := 0\<rparr>)"
proof -
  have d: "cinv (Disable c, [])" by (rule cinv_same [OF assms]) (simp_all add: Disable_def)
  have "\<not> list_ex (\<lambda>n. False) ns" for ns :: "conn_node list" by (induction ns) auto
  then show ?thesis
    using AcquireAll_atomic [OF d, of "\<lambda>_. False"] by (simp add: AcquireContainer_def Disable_def)
qed

section \<open>Properties\<close>







lemma initialize_loop_fails:
  assumes "\<forall>i < k. \<exists>e' conn. mk (ct_right c + int i) = (e', Some conn)" "mk (ct_right c + int k) = (e, None)"
    "e \<noteq> E_OK" "k < m" "ct_creator c"
  shows "\<exists>c'. Initialize_loop mk m c = (e, c') \<and> ct_nodes c' = []
    \<and> ct_count c' = ct_count c + int k \<and> ct_total c' = ct_total c + int k"
  using assms
proof (induction k arbitrary: c m)
  case 0
  then obtain m' where "m = Suc m'" by (cases m) auto
  with 0 show ?case by (auto simp: ExtendNode_def)
next
  case (Suc k)
  from Suc.prems(4) obtain m' where m: "m = Suc m'" by (cases m) auto
  obtain e' conn where mk: "mk (ct_right c) = (e', Some conn)"
    using Suc.prems(1) [rule_format, of 0] by auto
  define c1 where "c1 = snd (ExtendNode mk c)"
  have x: "ExtendNode mk c = (E_OK, c1)" "ct_right c1 = ct_right c + 1" "ct_creator c1"
    "ct_count c1 = ct_count c + 1" "ct_total c1 = ct_total c + 1"
    using mk Suc.prems(5) by (simp_all add: c1_def ExtendNode_def Let_def)
  have "\<forall>i < k. \<exists>e' conn. mk (ct_right c1 + int i) = (e', Some conn)"
  proof (intro allI impI)
    fix i assume "i < k"
    then show "\<exists>e' conn. mk (ct_right c1 + int i) = (e', Some conn)"
      using Suc.prems(1) [rule_format, of "Suc i"] x(2) by (simp add: add.assoc)
  qed
  moreover have "mk (ct_right c1 + int k) = (e, None)" using Suc.prems(2) x(2) by (simp add: add.assoc)
  ultimately obtain c' where "Initialize_loop mk m' c1 = (e, c')" "ct_nodes c' = []"
    "ct_count c' = ct_count c1 + int k" "ct_total c' = ct_total c1 + int k"
    using Suc.IH [of c1 m'] Suc.prems(3,4) x(3) m by auto
  with x m show ?case by simp
qed

text \<open>
  An initialisation that fails after \<open>k\<close> connections were created drops their nodes and keeps
  them in the books, so count and total are \<open>k\<close> too large from then on.
\<close>

lemma initialize_failure_miscounts:
  assumes "\<forall>i < k. \<exists>e' conn. mk (ct_right c + int i) = (e', Some conn)" "mk (ct_right c + int k) = (e, None)"
    and "e \<noteq> E_OK" "k < nat m"
  shows "\<exists>c'. Initialize mk m t d a c = ((e, None), c') \<and> ct_nodes c' = []
    \<and> ct_count c' = ct_count c + int k \<and> ct_total c' = ct_total c + int k"
  using initialize_loop_fails [of k mk "InitMembers m t d c" e "nat m"] assms
  by (auto simp: Initialize_def InitMembers_def)

text \<open>
  C25: \<open>AcquireAll\<close> of an idle pool with readers does not give the transaction connections back:
  afterwards the transaction container is disabled and empty but still counts them, and acquiring it
  as a whole again, without another step in between, fails.
\<close>

theorem acquire_all_loses_transactions:
  assumes "cinv (p_writers p, [])" "cinv (p_readers p, [])" "cinv (p_trans p, [])"
    and "p_maxReader p \<noteq> 0" "ct_nodes (p_trans p) \<noteq> []"
    and "p' = snd (Pool_AcquireAll alive tid now cp [] [] [] (\<lambda>_. False) False False p)"
  shows "ct_nodes (p_trans p') = [] \<and> ct_count (p_trans p') = 0 \<and> ct_disable (p_trans p')
    \<and> ct_total (p_trans p') = ct_total (p_trans p) \<and> 0 < ct_total (p_trans p')
    \<and> fst (fst (AcquireContainer tid now [] r (p_trans p'))) = E_ERROR"
proof -
  have "\<not> list_ex (\<lambda>n. False) ns" for ns :: "conn_node list" by (induction ns) auto
  then have w: "Container_AcquireAll [] (\<lambda>_. False) (p_writers p) =
      ((True, ct_nodes (p_writers p)), (p_writers p)\<lparr>ct_nodes := [], ct_count := 0\<rparr>)"
    using AcquireAll_atomic [OF assms(1), of "\<lambda>_. False"] by simp
  have t: "p_trans p' = (p_trans p)\<lparr>ct_disable := True, ct_nodes := [], ct_count := 0\<rparr>"
    unfolding assms(6) Pool_AcquireAll_def
    using w assms(4)
    by (simp add: AcquireContainer_idle [OF assms(2)] AcquireContainer_idle [OF assms(3)] drop_handles_trans
        Let_def)
  have pos: "0 < ct_total (p_trans p)" using assms(3,5) by (simp add: cinv_def)
  let ?c = "Disable (p_trans p')"
  have d: "ct_total ?c = ct_total (p_trans p)" "ct_count ?c = 0" by (simp_all add: t Disable_def)
  have "collect_all [] [] 0 ?c = ([], 0, ?c)"
    using d pos by (subst collect_all.simps) simp
  then have "Container_AcquireAll [] r ?c = ((False, []), ?c\<lparr>ct_count := 0, ct_nodes := []\<rparr>)"
    using d pos by (simp add: Container_AcquireAll_def)
  then have "fst (fst (AcquireContainer tid now [] r (p_trans p'))) = E_ERROR"
    by (simp add: AcquireContainer_def)
  with t pos show ?thesis by simp
qed

definition pool_with_transaction :: pool where
  "pool_with_transaction =
     (let cfg = \<lparr>cfg_Initialize = E_OK, cfg_writable = True, cfg_memory = False, cfg_wal = True, cfg_readConSize = 4,
          cfg_writeTime = 2, cfg_readTime = 1, cfg_transTime = 2\<rparr>;
          p = ConnectionPool_new cfg;
          node = \<lparr>cn_tid = 0, cn_id = MIN_TRANS_ID, cn_time = 0, cn_connect = \<lparr>c_writer = True, c_recyclable = True\<rparr>\<rparr>
      in p\<lparr>p_maxReader := 4, p_trans := (p_trans p)\<lparr>ct_nodes := [node], ct_count := 1, ct_total := 1,
           ct_right := MIN_TRANS_ID + 1, ct_details := [MIN_TRANS_ID]\<rparr>\<rparr>)"

theorem acquire_all_loses_transactions_witness:
  "ct_nodes (p_trans (snd (Pool_AcquireAll (\<lambda>_. True) 7 0 (\<lambda>_. E_OK) [] [] [] (\<lambda>_. False) False False
     pool_with_transaction))) = []"
proof -
  have "cinv (p_writers pool_with_transaction, [])" "cinv (p_readers pool_with_transaction, [])"
    "cinv (p_trans pool_with_transaction, [])" "p_maxReader pool_with_transaction \<noteq> 0"
    "ct_nodes (p_trans pool_with_transaction) \<noteq> []"
    by (simp_all add: pool_with_transaction_def ConnectionPool_new_def Container_new_def MIN_TRANS_ID_def
        cinv_def current_def Let_def)
  from acquire_all_loses_transactions [OF this refl] show ?thesis by blast
qed

text \<open>
  A wait on a disabled container with no idle node ends without a node and without an error code.
\<close>

lemma timed_out_acquire_reports_ok:
  assumes "ct_max c \<noteq> 0" "ct_count c \<le> 0" "ct_disable c"
  shows "Container_Acquire mk [] c = ((E_OK, None), c)"
  using assms by (simp add: Container_Acquire_def waiter_def)

end
