(* ===== verification/Sqlite_Api.thy ===== *)
theory Sqlite_Api
  imports Sqlite_Utils Raw_Data_Parser
begin

text \<open>
  What the code uses of the sqlite library, which is not part of the repository: the record
  \<open>sqlite3\<close> of its operations on a database handle and on a prepared statement, an argument of the
  definitions that call it. The laws that theorems rely on state what the library's
  documentation says: a value read from a column has the type and the bytes it has, an empty
  blob is read as a null pointer, and stepping a query gives its rows one after the other.
\<close>

section \<open>Operations\<close>

abbreviation SQLITE_BUSY :: int where "SQLITE_BUSY \<equiv> 5"
abbreviation SQLITE_LOCKED :: int where "SQLITE_LOCKED \<equiv> 6"
abbreviation SQLITE_INTEGER :: int where "SQLITE_INTEGER \<equiv> 1"
abbreviation SQLITE_FLOAT :: int where "SQLITE_FLOAT \<equiv> 2"
abbreviation SQLITE_TEXT :: int where "SQLITE_TEXT \<equiv> 3"
abbreviation SQLITE_BLOB :: int where "SQLITE_BLOB \<equiv> 4"
abbreviation SQLITE_NULL :: int where "SQLITE_NULL \<equiv> 5"

text \<open>A value as sqlite stores it.\<close>

datatype sql_value =
    S_Null
  | S_Integer "64 word"
  | S_Float f64
  | S_Text string
  | S_Blob "byte list"

record ('d, 't) sqlite3 =
  sqlite3_null :: 't
  sqlite3_prepare_v2 :: "'d \<Rightarrow> string \<Rightarrow> int \<times> 't"
  sqlite3_db_handle :: "'t \<Rightarrow> 'd"
  sqlite3_step :: "'t \<Rightarrow> int \<times> 't"
  sqlite3_reset :: "'t \<Rightarrow> int \<times> 't"
  sqlite3_finalize :: "'t \<Rightarrow> int"
  sqlite3_clear_bindings :: "'t \<Rightarrow> 't"
  sqlite3_bind :: "int \<Rightarrow> sql_value \<Rightarrow> 't \<Rightarrow> int \<times> 't"
  sqlite3_bind_parameter_count :: "'t \<Rightarrow> int"
  sqlite3_column_count :: "'t \<Rightarrow> int"
  sqlite3_column_name :: "'t \<Rightarrow> int \<Rightarrow> string option"
  sqlite3_column_decltype :: "'t \<Rightarrow> int \<Rightarrow> string option"
  sqlite3_column_type :: "'t \<Rightarrow> int \<Rightarrow> int"
  sqlite3_column_int64 :: "'t \<Rightarrow> int \<Rightarrow> 64 word"
  sqlite3_column_double :: "'t \<Rightarrow> int \<Rightarrow> f64"
  sqlite3_column_text :: "'t \<Rightarrow> int \<Rightarrow> string option"
  sqlite3_column_blob :: "'t \<Rightarrow> int \<Rightarrow> byte list option"
  sqlite3_column_bytes :: "'t \<Rightarrow> int \<Rightarrow> int"
  sqlite3_stmt_readonly :: "'t \<Rightarrow> bool"
  sqlite3_changes :: "'d \<Rightarrow> int"
  sqlite3_last_insert_rowid :: "'d \<Rightarrow> int"
  sqlite3_system_errno :: "'d \<Rightarrow> int"
  sqlite3_errmsg :: "'d \<Rightarrow> string"
  sqlite3_use_sharedblock :: "'d \<Rightarrow> bool"

section \<open>Laws\<close>

text \<open>Column \<open>i\<close> of the current row holds the value.\<close>

fun column_is :: "('d, 't) sqlite3 \<Rightarrow> 't \<Rightarrow> int \<Rightarrow> sql_value \<Rightarrow> bool" where
  "column_is Q t i S_Null \<longleftrightarrow> sqlite3_column_type Q t i = SQLITE_NULL \<and> sqlite3_column_bytes Q t i = 0"
| "column_is Q t i (S_Integer w) \<longleftrightarrow>
     sqlite3_column_type Q t i = SQLITE_INTEGER \<and> sqlite3_column_int64 Q t i = w"
| "column_is Q t i (S_Float d) \<longleftrightarrow>
     sqlite3_column_type Q t i = SQLITE_FLOAT \<and> sqlite3_column_double Q t i = d"
| "column_is Q t i (S_Text s) \<longleftrightarrow>
     sqlite3_column_type Q t i = SQLITE_TEXT \<and> sqlite3_column_bytes Q t i = int (length s)
     \<and> sqlite3_column_text Q t i = Some s"
| "column_is Q t i (S_Blob b) \<longleftrightarrow>
     sqlite3_column_type Q t i = SQLITE_BLOB \<and> sqlite3_column_bytes Q t i = int (length b)
     \<and> sqlite3_column_blob Q t i = (if b = [] then None else Some b)"

text \<open>
  The statement is a query of these columns and rows: \<open>at\<close> counts the rows read since it was reset,
  \<open>ok\<close> is kept by all its operations. A step past the end finishes and starts it over.
\<close>

definition sqlite_query ::
    "('d, 't) sqlite3 \<Rightarrow> ('t \<Rightarrow> bool) \<Rightarrow> ('t \<Rightarrow> nat) \<Rightarrow> string list \<Rightarrow> sql_value list list \<Rightarrow> bool" where
  "sqlite_query Q ok at names rows \<longleftrightarrow>
     (\<forall>t. ok t \<longrightarrow> at t < length rows \<longrightarrow>
        fst (sqlite3_step Q t) = SQLITE_ROW \<and> ok (snd (sqlite3_step Q t))
        \<and> at (snd (sqlite3_step Q t)) = Suc (at t)) \<and>
     (\<forall>t. ok t \<longrightarrow> at t = length rows \<longrightarrow>
        fst (sqlite3_step Q t) = SQLITE_DONE \<and> ok (snd (sqlite3_step Q t))
        \<and> at (snd (sqlite3_step Q t)) = 0) \<and>
     (\<forall>t. ok t \<longrightarrow> ok (snd (sqlite3_reset Q t)) \<and> at (snd (sqlite3_reset Q t)) = 0) \<and>
     (\<forall>t i. ok t \<longrightarrow> 0 < at t \<longrightarrow> at t \<le> length rows \<longrightarrow> i < length names \<longrightarrow>
        column_is Q t (int i) (rows ! (at t - 1) ! i)) \<and>
     (\<forall>t. ok t \<longrightarrow> sqlite3_column_count Q t = int (length names)) \<and>
     (\<forall>t i. ok t \<longrightarrow> i < length names \<longrightarrow> sqlite3_column_name Q t (int i) = Some (names ! i)) \<and>
     list_all (\<lambda>row. length row = length names) rows \<and> \<not> ok (sqlite3_null Q)"

lemma sqlite_queryD:
  assumes "sqlite_query Q ok at names rows" "ok t"
  shows "at t < length rows \<Longrightarrow> \<exists>t1. sqlite3_step Q t = (SQLITE_ROW, t1) \<and> ok t1 \<and> at t1 = Suc (at t)"
    "at t = length rows \<Longrightarrow> \<exists>t1. sqlite3_step Q t = (SQLITE_DONE, t1) \<and> ok t1 \<and> at t1 = 0"
    "ok (snd (sqlite3_reset Q t))" "at (snd (sqlite3_reset Q t)) = 0"
    "0 < at t \<Longrightarrow> at t \<le> length rows \<Longrightarrow> i < length names \<Longrightarrow> column_is Q t (int i) (rows ! (at t - 1) ! i)"
    "sqlite3_column_count Q t = int (length names)"
    "i < length names \<Longrightarrow> sqlite3_column_name Q t (int i) = Some (names ! i)"
    "t \<noteq> sqlite3_null Q"
  using assms unfolding sqlite_query_def by (metis prod.collapse)+

section \<open>Declared types\<close>

text \<open>\<open>DECLARE_TYPES\<close> of \<open>ValueObject\<close>, and the kind of a blob column by its declaration.\<close>

abbreviation DECL_ASSET :: string where "DECL_ASSET \<equiv> ''ASSET''"
abbreviation DECL_ASSETS :: string where "DECL_ASSETS \<equiv> ''ASSETS''"
abbreviation DECL_FLOATS :: string where "DECL_FLOATS \<equiv> ''FLOATVECTOR''"
abbreviation DECL_BIGINT :: string where "DECL_BIGINT \<equiv> ''UNLIMITED INT''"

section \<open>A query over a list of rows\<close>

text \<open>
  A concrete library that satisfies the laws: the state of a statement is the number of rows read,
  \<open>None\<close> is the null pointer.
\<close>

fun rows_read :: "nat option \<Rightarrow> nat" where
  "rows_read (Some n) = n" | "rows_read None = 0"

definition list_cell :: "sql_value list list \<Rightarrow> nat option \<Rightarrow> int \<Rightarrow> sql_value" where
  "list_cell rows t i = rows ! (rows_read t - 1) ! nat i"

definition list_query :: "string list \<Rightarrow> string option list \<Rightarrow> sql_value list list \<Rightarrow> (unit, nat option) sqlite3" where
  "list_query names decls rows =
     \<lparr>sqlite3_null = None, sqlite3_prepare_v2 = (\<lambda>_ _. (0, Some 0)), sqlite3_db_handle = (\<lambda>_. ()),
      sqlite3_step = (\<lambda>t. if rows_read t < length rows then (SQLITE_ROW, Some (Suc (rows_read t))) else (SQLITE_DONE, Some 0)),
      sqlite3_reset = (\<lambda>t. (0, Some 0)), sqlite3_finalize = (\<lambda>t. 0), sqlite3_clear_bindings = (\<lambda>t. t),
      sqlite3_bind = (\<lambda>i v t. (0, t)), sqlite3_bind_parameter_count = (\<lambda>t. 0),
      sqlite3_column_count = (\<lambda>t. int (length names)),
      sqlite3_column_name = (\<lambda>t i. Some (names ! nat i)),
      sqlite3_column_decltype = (\<lambda>t i. decls ! nat i),
      sqlite3_column_type = (\<lambda>t i. case list_cell rows t i of S_Null \<Rightarrow> SQLITE_NULL | S_Integer _ \<Rightarrow> SQLITE_INTEGER
        | S_Float _ \<Rightarrow> SQLITE_FLOAT | S_Text _ \<Rightarrow> SQLITE_TEXT | S_Blob _ \<Rightarrow> SQLITE_BLOB),
      sqlite3_column_int64 = (\<lambda>t i. case list_cell rows t i of S_Integer w \<Rightarrow> w | _ \<Rightarrow> 0),
      sqlite3_column_double = (\<lambda>t i. case list_cell rows t i of S_Float w \<Rightarrow> w | _ \<Rightarrow> 0),
      sqlite3_column_text = (\<lambda>t i. case list_cell rows t i of S_Text s \<Rightarrow> Some s | _ \<Rightarrow> None),
      sqlite3_column_blob = (\<lambda>t i. case list_cell rows t i of S_Blob b \<Rightarrow> if b = [] then None else Some b | _ \<Rightarrow> None),
      sqlite3_column_bytes = (\<lambda>t i. case list_cell rows t i of S_Text s \<Rightarrow> int (length s) | S_Blob b \<Rightarrow> int (length b) | _ \<Rightarrow> 0),
      sqlite3_stmt_readonly = (\<lambda>t. True), sqlite3_changes = (\<lambda>d. 0), sqlite3_last_insert_rowid = (\<lambda>d. 0),
      sqlite3_system_errno = (\<lambda>d. 0), sqlite3_errmsg = (\<lambda>d. []), sqlite3_use_sharedblock = (\<lambda>d. False)\<rparr>"

abbreviation list_query_ok :: "nat \<Rightarrow> nat option \<Rightarrow> bool" where
  "list_query_ok n t \<equiv> t \<noteq> None \<and> rows_read t \<le> n"

lemma list_query_is_query:
  assumes "list_all (\<lambda>row. length row = length names) rows"
  shows "sqlite_query (list_query names decls rows) (list_query_ok (length rows)) rows_read names rows"
proof -
  have "column_is (list_query names decls rows) t (int i) (rows ! (rows_read t - 1) ! i)" for t i
    by (cases "rows ! (rows_read t - 1) ! i") (simp_all add: list_query_def list_cell_def)
  then show ?thesis using assms by (simp add: sqlite_query_def list_query_def)
qed

end
