(* ===== verification/Shared_Block.thy ===== *)
theory Shared_Block
  imports Byte_Memory
begin

text \<open>
  \<open>SharedBlock\<close> (\<open>shared_block.cpp\<close>, \<open>shared_block.h\<close>): the rows of a result set laid out in a
  piece of shared memory. The header, the tables of row offsets, the field directories and the
  bytes of strings and blobs all live in one flat memory, allocated by moving \<open>unusedOffset\<close>;
  the code reaches them through offsets that are themselves stored in that memory. Every access
  of the code is an access of the memory here, at the address the code computes, so that
  overlapping objects would overwrite each other here as well.

  The header is that of a little-endian host: six fields and 128 group offsets of four bytes,
  536 bytes in all; a group of row offsets has 512 bytes and a packed cell 12. The mapping of the
  memory (\<open>Ashmem\<close>) and the message parcel are not modelled: a block starts with its memory
  mapped and its header present.
\<close>

section \<open>The block and its header\<close>

record shared_block =
  mData :: memory
  mSize :: nat
  mReadOnly :: bool

definition SHARED_BLOCK_OK :: int where "SHARED_BLOCK_OK = 0"
definition SHARED_BLOCK_BAD_VALUE :: int where "SHARED_BLOCK_BAD_VALUE = 1"
definition SHARED_BLOCK_NO_MEMORY :: int where "SHARED_BLOCK_NO_MEMORY = 2"
definition SHARED_BLOCK_INVALID_OPERATION :: int where "SHARED_BLOCK_INVALID_OPERATION = 3"

lemmas block_status = SHARED_BLOCK_OK_def SHARED_BLOCK_BAD_VALUE_def SHARED_BLOCK_NO_MEMORY_def
  SHARED_BLOCK_INVALID_OPERATION_def

abbreviation CELL_UNIT_TYPE_NULL :: nat where "CELL_UNIT_TYPE_NULL \<equiv> 0"
abbreviation CELL_UNIT_TYPE_INTEGER :: nat where "CELL_UNIT_TYPE_INTEGER \<equiv> 1"
abbreviation CELL_UNIT_TYPE_FLOAT :: nat where "CELL_UNIT_TYPE_FLOAT \<equiv> 2"
abbreviation CELL_UNIT_TYPE_STRING :: nat where "CELL_UNIT_TYPE_STRING \<equiv> 3"
abbreviation CELL_UNIT_TYPE_BLOB :: nat where "CELL_UNIT_TYPE_BLOB \<equiv> 4"
abbreviation CELL_UNIT_TYPE_ASSET :: nat where "CELL_UNIT_TYPE_ASSET \<equiv> 5"
abbreviation CELL_UNIT_TYPE_ASSETS :: nat where "CELL_UNIT_TYPE_ASSETS \<equiv> 6"
abbreviation CELL_UNIT_TYPE_FLOATS :: nat where "CELL_UNIT_TYPE_FLOATS \<equiv> 7"
abbreviation CELL_UNIT_TYPE_BIGINT :: nat where "CELL_UNIT_TYPE_BIGINT \<equiv> 8"

abbreviation HEADER_SIZE :: nat where "HEADER_SIZE \<equiv> 536"
abbreviation GROUP_SIZE :: nat where "GROUP_SIZE \<equiv> 512"
abbreviation CELL_SIZE :: nat where "CELL_SIZE \<equiv> 12"
abbreviation ROW_NUM_IN_A_GROUP :: nat where "ROW_NUM_IN_A_GROUP \<equiv> 128"
abbreviation GROUP_NUM :: nat where "GROUP_NUM \<equiv> 128"
abbreviation COL_MAX_NUM :: nat where "COL_MAX_NUM \<equiv> 32767"

text \<open>Conversion to \<open>uint32_t\<close>.\<close>

definition u32 :: "nat \<Rightarrow> nat" where
  "u32 x = x mod 2 ^ 32"

definition unusedOffset :: "memory \<Rightarrow> nat" where "unusedOffset m = load 4 0 m"
definition rowNums :: "memory \<Rightarrow> nat" where "rowNums m = load 4 4 m"
definition columnNums :: "memory \<Rightarrow> nat" where "columnNums m = load 4 8 m"
definition startPos :: "memory \<Rightarrow> nat" where "startPos m = load 4 12 m"
definition lastPos :: "memory \<Rightarrow> nat" where "lastPos m = load 4 16 m"
definition blockPos :: "memory \<Rightarrow> nat" where "blockPos m = load 4 20 m"
definition groupOffset :: "nat \<Rightarrow> memory \<Rightarrow> nat" where "groupOffset g m = load 4 (24 + 4 * g) m"

abbreviation set_unusedOffset :: "nat \<Rightarrow> memory \<Rightarrow> memory" where "set_unusedOffset \<equiv> store 4 0"
abbreviation set_rowNums :: "nat \<Rightarrow> memory \<Rightarrow> memory" where "set_rowNums \<equiv> store 4 4"
abbreviation set_columnNums :: "nat \<Rightarrow> memory \<Rightarrow> memory" where "set_columnNums \<equiv> store 4 8"
abbreviation set_groupOffset :: "nat \<Rightarrow> nat \<Rightarrow> memory \<Rightarrow> memory" where
  "set_groupOffset g \<equiv> store 4 (24 + 4 * g)"

definition SetStartPos :: "nat \<Rightarrow> shared_block \<Rightarrow> shared_block" where
  "SetStartPos pos B = B\<lparr>mData := store 4 12 pos (mData B)\<rparr>"

definition SetLastPos :: "nat \<Rightarrow> shared_block \<Rightarrow> shared_block" where
  "SetLastPos pos B = B\<lparr>mData := store 4 16 pos (mData B)\<rparr>"

definition SetBlockPos :: "nat \<Rightarrow> shared_block \<Rightarrow> shared_block" where
  "SetBlockPos pos B = B\<lparr>mData := store 4 20 pos (mData B)\<rparr>"

definition OffsetToPtr :: "nat \<Rightarrow> nat \<Rightarrow> shared_block \<Rightarrow> nat option" where
  "OffsetToPtr offset bufferSize B = (if u32 (offset + bufferSize) > mSize B then None else Some offset)"

section \<open>Rows\<close>

definition Clear_block :: "shared_block \<Rightarrow> int \<times> shared_block" where
  "Clear_block B =
     (if mReadOnly B then (SHARED_BLOCK_INVALID_OPERATION, B)
      else
        (let m0 = set_unusedOffset (HEADER_SIZE + GROUP_SIZE) (mData B);
             m1 = set_rowNums 0 m0;
             m2 = set_columnNums 0 m1;
             m3 = store 4 12 0 m2;
             m4 = store 4 16 0 m3;
             m5 = store 4 20 0 m4;
             m6 = memcpy 24 (replicate (4 * GROUP_NUM) 0) m5;
             m7 = set_groupOffset 0 HEADER_SIZE m6
         in (SHARED_BLOCK_OK, B\<lparr>mData := m7\<rparr>)))"

text \<open>\<open>Init\<close> on a freshly mapped memory: the result of \<open>Clear\<close> is not looked at.\<close>

definition Init_block :: "shared_block \<Rightarrow> shared_block" where
  "Init_block B = snd (Clear_block B)"

definition SetColumnNum :: "nat \<Rightarrow> shared_block \<Rightarrow> int \<times> shared_block" where
  "SetColumnNum numColumns B =
     (if mReadOnly B then (SHARED_BLOCK_INVALID_OPERATION, B)
      else
        (let cur = columnNums (mData B)
         in if (cur > 0 \<or> rowNums (mData B) > 0) \<and> cur \<noteq> numColumns then (SHARED_BLOCK_INVALID_OPERATION, B)
            else if numColumns > COL_MAX_NUM then (SHARED_BLOCK_INVALID_OPERATION, B)
            else (SHARED_BLOCK_OK, B\<lparr>mData := set_columnNums numColumns (mData B)\<rparr>)))"

text \<open>
  \<open>Alloc\<close>: \<open>~u + 1\<close> is \<open>2 ^ 32 - u\<close> on 32 bits, and \<open>& 3\<close> its remainder by 4. The result 0 means
  that there is no room.
\<close>

definition Alloc :: "nat \<Rightarrow> shared_block \<Rightarrow> nat \<times> shared_block" where
  "Alloc sz B =
     (let u = unusedOffset (mData B);
          offset = u32 (u + u32 (2 ^ 32 - 1 - u + 1) mod 4);
          nextFreeOffset = u32 (offset + sz)
      in if nextFreeOffset > mSize B then (0, B)
         else (offset, B\<lparr>mData := set_unusedOffset nextFreeOffset (mData B)\<rparr>))"

definition AllocRowOffset :: "shared_block \<Rightarrow> nat option \<times> shared_block" where
  "AllocRowOffset B =
     (let groupPos = rowNums (mData B) div ROW_NUM_IN_A_GROUP
      in if groupPos \<ge> GROUP_NUM then (None, B)
         else
           (let B1 = (if groupOffset groupPos (mData B) = 0
                      then (let (offset, A) = Alloc GROUP_SIZE B
                            in A\<lparr>mData := set_groupOffset groupPos offset (mData A)\<rparr>)
                      else B)
            in if groupOffset groupPos (mData B1) = 0 then (None, B1)
               else
                 (let rowPos = rowNums (mData B1) mod ROW_NUM_IN_A_GROUP;
                      offset = groupOffset groupPos (mData B1);
                      B2 = B1\<lparr>mData := set_rowNums (u32 (rowNums (mData B1) + 1)) (mData B1)\<rparr>
                  in (map_option (\<lambda>grp. grp + 4 * rowPos) (OffsetToPtr offset 0 B1), B2))))"

definition AllocRow :: "shared_block \<Rightarrow> int \<times> shared_block" where
  "AllocRow B =
     (case AllocRowOffset B of
        (None, B1) \<Rightarrow> (SHARED_BLOCK_NO_MEMORY, B1)
      | (Some rowOffset, B1) \<Rightarrow>
          (let fieldDirSize = columnNums (mData B1) * CELL_SIZE;
               (fieldDirOffset, B2) = Alloc fieldDirSize B1
           in if fieldDirOffset = 0
              then (SHARED_BLOCK_NO_MEMORY,
                    B2\<lparr>mData := set_rowNums (u32 (rowNums (mData B2) + 2 ^ 32 - 1)) (mData B2)\<rparr>)
              else (SHARED_BLOCK_OK, B2\<lparr>mData := store 4 rowOffset fieldDirOffset (mData B2)\<rparr>)))"

definition FreeLastRow :: "shared_block \<Rightarrow> int \<times> shared_block" where
  "FreeLastRow B =
     (SHARED_BLOCK_OK,
      if rowNums (mData B) > 0 then B\<lparr>mData := set_rowNums (rowNums (mData B) - 1) (mData B)\<rparr> else B)"

section \<open>Cells\<close>

definition row_dir :: "nat \<Rightarrow> memory \<Rightarrow> nat" where
  "row_dir row m =
     load 4 (groupOffset (row div ROW_NUM_IN_A_GROUP) m + 4 * (row mod ROW_NUM_IN_A_GROUP)) m"

definition cell_addr :: "nat \<Rightarrow> nat \<Rightarrow> memory \<Rightarrow> nat" where
  "cell_addr row column m = row_dir row m + CELL_SIZE * column"

definition GetCellUnit :: "nat \<Rightarrow> nat \<Rightarrow> shared_block \<Rightarrow> nat option" where
  "GetCellUnit row column B =
     (if row \<ge> rowNums (mData B) \<or> column \<ge> columnNums (mData B) then None
      else Some (cell_addr row column (mData B)))"

text \<open>\<open>memcpy_s\<close> refuses more than \<open>RSIZE_MAX\<close> bytes. The value is \<open>None\<close> for a null pointer.\<close>

abbreviation RSIZE_MAX :: nat where "RSIZE_MAX \<equiv> 0x7FFFFFFF"

definition PutBlobOrString ::
    "nat \<Rightarrow> nat \<Rightarrow> byte list option \<Rightarrow> nat \<Rightarrow> shared_block \<Rightarrow> int \<times> shared_block" where
  "PutBlobOrString row column val type B =
     (case val of
        None \<Rightarrow> (SHARED_BLOCK_BAD_VALUE, B)
      | Some bs \<Rightarrow>
          if row \<ge> rowNums (mData B) \<or> column \<ge> columnNums (mData B) then (SHARED_BLOCK_BAD_VALUE, B)
          else
            (let m = mData B;
                 cellUnit = cell_addr row column m;
                 sz = length bs;
                 offset = unusedOffset m;
                 endOff = u32 (offset + sz)
             in if endOff > mSize B then (SHARED_BLOCK_NO_MEMORY, B)
                else
                  (let m1 = set_unusedOffset endOff m
                   in if sz > RSIZE_MAX then (SHARED_BLOCK_NO_MEMORY, B\<lparr>mData := m1\<rparr>)
                      else
                        (let m2 = memcpy offset bs m1;
                             m3 = store 4 cellUnit type m2;
                             m4 = store 4 (cellUnit + 4) offset m3;
                             m5 = store 4 (cellUnit + 8) (u32 sz) m4
                         in (SHARED_BLOCK_OK, B\<lparr>mData := m5\<rparr>)))))"

definition Block_PutBlob where
  "Block_PutBlob row column val = PutBlobOrString row column val CELL_UNIT_TYPE_BLOB"
definition Block_PutString where
  "Block_PutString row column val = PutBlobOrString row column val CELL_UNIT_TYPE_STRING"
definition Block_PutAsset where
  "Block_PutAsset row column val = PutBlobOrString row column val CELL_UNIT_TYPE_ASSET"
definition Block_PutAssets where
  "Block_PutAssets row column val = PutBlobOrString row column val CELL_UNIT_TYPE_ASSETS"
definition Block_PutFloats where
  "Block_PutFloats row column val = PutBlobOrString row column val CELL_UNIT_TYPE_FLOATS"
definition Block_PutBigInt where
  "Block_PutBigInt row column val = PutBlobOrString row column val CELL_UNIT_TYPE_BIGINT"

definition Block_PutLong :: "nat \<Rightarrow> nat \<Rightarrow> 64 word \<Rightarrow> shared_block \<Rightarrow> int \<times> shared_block" where
  "Block_PutLong row column val B =
     (if row \<ge> rowNums (mData B) \<or> column \<ge> columnNums (mData B) then (SHARED_BLOCK_BAD_VALUE, B)
      else
        (let cellUnit = cell_addr row column (mData B);
             m1 = store 4 cellUnit CELL_UNIT_TYPE_INTEGER (mData B)
         in (SHARED_BLOCK_OK, B\<lparr>mData := store 8 (cellUnit + 4) (unat val) m1\<rparr>)))"

definition Block_PutDouble :: "nat \<Rightarrow> nat \<Rightarrow> 64 word \<Rightarrow> shared_block \<Rightarrow> int \<times> shared_block" where
  "Block_PutDouble row column val B =
     (if row \<ge> rowNums (mData B) \<or> column \<ge> columnNums (mData B) then (SHARED_BLOCK_BAD_VALUE, B)
      else
        (let cellUnit = cell_addr row column (mData B);
             m1 = store 4 cellUnit CELL_UNIT_TYPE_FLOAT (mData B)
         in (SHARED_BLOCK_OK, B\<lparr>mData := store 8 (cellUnit + 4) (unat val) m1\<rparr>)))"

definition Block_PutNull :: "nat \<Rightarrow> nat \<Rightarrow> shared_block \<Rightarrow> int \<times> shared_block" where
  "Block_PutNull row column B =
     (if row \<ge> rowNums (mData B) \<or> column \<ge> columnNums (mData B) then (SHARED_BLOCK_BAD_VALUE, B)
      else
        (let cellUnit = cell_addr row column (mData B);
             m1 = store 4 cellUnit CELL_UNIT_TYPE_NULL (mData B);
             m2 = store 4 (cellUnit + 4) 0 m1
         in (SHARED_BLOCK_OK, B\<lparr>mData := store 4 (cellUnit + 8) 0 m2\<rparr>)))"

definition SetRawData :: "byte list option \<Rightarrow> shared_block \<Rightarrow> int \<times> shared_block" where
  "SetRawData rawData B =
     (case rawData of
        None \<Rightarrow> (SHARED_BLOCK_INVALID_OPERATION, B)
      | Some bs \<Rightarrow>
          if length bs = 0 then (SHARED_BLOCK_INVALID_OPERATION, B)
          else if length bs > mSize B then (SHARED_BLOCK_NO_MEMORY, B)
          else if mSize B > RSIZE_MAX then (SHARED_BLOCK_NO_MEMORY, B)
          else (SHARED_BLOCK_OK, B\<lparr>mData := memcpy 0 bs (mData B)\<rparr>))"

section \<open>Reading a cell\<close>

definition cell_type :: "nat \<Rightarrow> memory \<Rightarrow> nat" where "cell_type a m = load 4 a m"
definition cell_bits :: "nat \<Rightarrow> memory \<Rightarrow> 64 word" where "cell_bits a m = of_nat (load 8 (a + 4) m)"
definition cell_offset :: "nat \<Rightarrow> memory \<Rightarrow> nat" where "cell_offset a m = load 4 (a + 4) m"
definition cell_size :: "nat \<Rightarrow> memory \<Rightarrow> nat" where "cell_size a m = load 4 (a + 8) m"

text \<open>
  \<open>CellUnit::GetString\<close> reads up to the first zero byte; without one before the end of the mapping
  the read is undefined. \<open>CellUnit::GetBlob\<close> of a null pointer is undefined unless it is empty.
\<close>

definition CellUnit_GetString :: "nat \<Rightarrow> shared_block \<Rightarrow> byte list option" where
  "CellUnit_GetString a B =
     (let off = cell_offset a (mData B); sz = cell_size a (mData B)
      in if sz < 1 then Some []
         else (case OffsetToPtr off sz B of
                 None \<Rightarrow> Some []
               | Some p \<Rightarrow>
                   (let bs = bytes_at p (mSize B - p) (mData B)
                    in if 0 \<in> set bs then Some (takeWhile (\<lambda>b. b \<noteq> 0) bs) else None)))"

definition CellUnit_GetBlob :: "nat \<Rightarrow> shared_block \<Rightarrow> byte list option" where
  "CellUnit_GetBlob a B =
     (let off = cell_offset a (mData B); sz = cell_size a (mData B)
      in case OffsetToPtr off sz B of
           None \<Rightarrow> if sz = 0 then Some [] else None
         | Some p \<Rightarrow> Some (bytes_at p sz (mData B)))"

definition CellUnit_GetRawData :: "nat \<Rightarrow> shared_block \<Rightarrow> nat option" where
  "CellUnit_GetRawData a B = OffsetToPtr (cell_offset a (mData B)) (cell_size a (mData B)) B"

section \<open>The layout\<close>

text \<open>
  Who owns an address: the header, the offsets of a group, the field directory of a row, the bytes
  of a value, or nobody. Distinct owners are what keeps the objects of the block apart.
\<close>

datatype owner = Hdr | Grp nat | Row nat | Data | Free

definition layout :: "(nat \<Rightarrow> owner) \<Rightarrow> nat \<Rightarrow> memory \<Rightarrow> bool" where
  "layout own sz m \<longleftrightarrow>
     HEADER_SIZE + GROUP_SIZE \<le> unusedOffset m \<and> unusedOffset m \<le> sz \<and> sz \<le> 2 ^ 31
     \<and> columnNums m \<le> COL_MAX_NUM \<and> rowNums m \<le> GROUP_NUM * ROW_NUM_IN_A_GROUP
     \<and> (\<forall>a < HEADER_SIZE. own a = Hdr)
     \<and> (\<forall>g < GROUP_NUM. groupOffset g m \<noteq> 0 \<longrightarrow>
          (\<forall>a. groupOffset g m \<le> a \<longrightarrow> a < groupOffset g m + GROUP_SIZE \<longrightarrow> own a = Grp g))
     \<and> (\<forall>r < rowNums m. groupOffset (r div ROW_NUM_IN_A_GROUP) m \<noteq> 0 \<and>
          (\<forall>a. row_dir r m \<le> a \<longrightarrow> a < row_dir r m + CELL_SIZE * columnNums m \<longrightarrow> own a = Row r))
     \<and> (\<forall>a. unusedOffset m \<le> a \<longrightarrow> own a = Free)"

text \<open>What a block stands for: a grid whose cells, once written, hold a type and bytes.\<close>

record grid =
  g_rows :: nat
  g_cols :: nat
  g_cell :: "nat \<Rightarrow> nat \<Rightarrow> (nat \<times> byte list) option"

definition scalar_type :: "nat \<Rightarrow> bool" where
  "scalar_type t \<longleftrightarrow> t = CELL_UNIT_TYPE_INTEGER \<or> t = CELL_UNIT_TYPE_FLOAT"

definition cell_view :: "nat \<Rightarrow> memory \<Rightarrow> nat \<times> byte list" where
  "cell_view a m =
     (cell_type a m,
      if scalar_type (cell_type a m) then bytes_at (a + 4) 8 m
      else bytes_at (cell_offset a m) (cell_size a m) m)"

definition owned_bytes :: "(nat \<Rightarrow> owner) \<Rightarrow> nat \<Rightarrow> memory \<Rightarrow> bool" where
  "owned_bytes own a m \<longleftrightarrow>
     scalar_type (cell_type a m) \<or>
     (\<forall>i. cell_offset a m \<le> i \<longrightarrow> i < cell_offset a m + cell_size a m \<longrightarrow> own i = Data)"

definition cells :: "(nat \<Rightarrow> owner) \<Rightarrow> memory \<Rightarrow> grid \<Rightarrow> bool" where
  "cells own m G \<longleftrightarrow> g_rows G = rowNums m \<and> g_cols G = columnNums m
     \<and> (\<forall>r < rowNums m. \<forall>c < columnNums m. \<forall>v. g_cell G r c = Some v \<longrightarrow>
          cell_view (cell_addr r c m) m = v \<and> owned_bytes own (cell_addr r c m) m)"

lemma layoutD:
  assumes "layout own sz m"
  shows "HEADER_SIZE + GROUP_SIZE \<le> unusedOffset m" "unusedOffset m \<le> sz" "sz \<le> 2 ^ 31"
    "columnNums m \<le> COL_MAX_NUM" "rowNums m \<le> GROUP_NUM * ROW_NUM_IN_A_GROUP"
    "a < HEADER_SIZE \<Longrightarrow> own a = Hdr"
    "g < GROUP_NUM \<Longrightarrow> groupOffset g m \<noteq> 0 \<Longrightarrow> groupOffset g m \<le> a \<Longrightarrow> a < groupOffset g m + GROUP_SIZE \<Longrightarrow> own a = Grp g"
    "r < rowNums m \<Longrightarrow> groupOffset (r div ROW_NUM_IN_A_GROUP) m \<noteq> 0"
    "r < rowNums m \<Longrightarrow> row_dir r m \<le> a \<Longrightarrow> a < row_dir r m + CELL_SIZE * columnNums m \<Longrightarrow> own a = Row r"
    "unusedOffset m \<le> a \<Longrightarrow> own a = Free"
  using assms unfolding layout_def by blast+

lemma above_header: "layout own sz m \<Longrightarrow> own i \<noteq> Hdr \<Longrightarrow> HEADER_SIZE \<le> i"
  using layoutD(6) not_le by blast

lemma below_unused: "layout own sz m \<Longrightarrow> own i \<noteq> Free \<Longrightarrow> i < unusedOffset m"
  using layoutD(10) not_le by blast

lemma slot_owner:
  assumes "layout own sz m" "r div 128 < GROUP_NUM" "groupOffset (r div 128) m \<noteq> 0"
    and "groupOffset (r div 128) m + 4 * (r mod 128) \<le> i" "i < groupOffset (r div 128) m + 4 * (r mod 128) + 4"
  shows "own i = Grp (r div 128)"
proof (rule layoutD(7) [OF assms(1-3)])
  show "groupOffset (r div 128) m \<le> i" using assms(4) by simp
  have "r mod 128 < 128" by simp
  then show "i < groupOffset (r div 128) m + GROUP_SIZE" using assms(5) by linarith
qed

lemma row_dir_frame:
  assumes "layout own sz m" "r div 128 < GROUP_NUM" "groupOffset (r div 128) m \<noteq> 0"
    and "groupOffset (r div 128) m' = groupOffset (r div 128) m"
    and "\<And>i. own i = Grp (r div 128) \<Longrightarrow>
      groupOffset (r div 128) m + 4 * (r mod 128) \<le> i \<Longrightarrow> i < groupOffset (r div 128) m + 4 * (r mod 128) + 4 \<Longrightarrow> m' i = m i"
  shows "row_dir r m' = row_dir r m"
  unfolding row_dir_def assms(4)
  by (rule load_cong) (metis assms(5) slot_owner [OF assms(1-3)])

lemma row_group:
  assumes "layout own sz m" "r < rowNums m"
  shows "r div 128 < GROUP_NUM"
  using layoutD(5) [OF assms(1)] assms(2) by (simp add: less_mult_imp_div_less)

lemma cell_owner:
  assumes "layout own sz m" "r < rowNums m" "c < columnNums m" "cell_addr r c m \<le> i" "i < cell_addr r c m + CELL_SIZE"
  shows "own i = Row r"
proof (rule layoutD(9) [OF assms(1,2)])
  show "row_dir r m \<le> i" using assms(4) by (simp add: cell_addr_def)
  have "12 * c + 12 \<le> 12 * columnNums m" using assms(3) by simp
  then show "i < row_dir r m + CELL_SIZE * columnNums m" using assms(5) unfolding cell_addr_def by linarith
qed

lemma cell_view_cong:
  assumes "\<And>i. a \<le> i \<Longrightarrow> i < a + CELL_SIZE \<Longrightarrow> m' i = m i"
    and "\<not> scalar_type (cell_type a m) \<Longrightarrow> (\<And>i. cell_offset a m \<le> i \<Longrightarrow> i < cell_offset a m + cell_size a m \<Longrightarrow> m' i = m i)"
  shows "cell_type a m' = cell_type a m" "cell_offset a m' = cell_offset a m" "cell_size a m' = cell_size a m"
    "cell_view a m' = cell_view a m"
proof -
  show t: "cell_type a m' = cell_type a m" "cell_offset a m' = cell_offset a m" "cell_size a m' = cell_size a m"
    unfolding cell_type_def cell_offset_def cell_size_def by (auto intro!: load_cong assms(1))
  have "bytes_at (a + 4) 8 m' = bytes_at (a + 4) 8 m" by (auto intro!: bytes_at_cong assms(1))
  moreover have "\<not> scalar_type (cell_type a m) \<Longrightarrow>
      bytes_at (cell_offset a m) (cell_size a m) m' = bytes_at (cell_offset a m) (cell_size a m) m"
    by (rule bytes_at_cong) (rule assms(2))
  ultimately show "cell_view a m' = cell_view a m" by (simp add: cell_view_def t)
qed

lemma cellsD:
  assumes "cells own m G" "r < rowNums m" "c < columnNums m" "g_cell G r c = Some v"
  shows "cell_view (cell_addr r c m) m = v" "owned_bytes own (cell_addr r c m) m"
  using assms unfolding cells_def by blast+

lemma cell_kept:
  assumes L: "layout own sz m" and C: "cells own m G" and r: "r < rowNums m" "c < columnNums m" "g_cell G r c = Some v"
    and dir: "row_dir r m' = row_dir r m" and same: "\<And>i. own i = Row r \<or> own i = Data \<Longrightarrow> m' i = m i"
  shows "cell_view (cell_addr r c m') m' = v" "owned_bytes own (cell_addr r c m') m'"
proof -
  let ?a = "cell_addr r c m"
  have a: "cell_addr r c m' = ?a" using dir by (simp add: cell_addr_def)
  note C1 = cellsD [OF C r]
  have cell: "m' i = m i" if "?a \<le> i" "i < ?a + CELL_SIZE" for i
    using cell_owner [OF L r(1,2) that] same by simp
  have data: "m' i = m i" if "\<not> scalar_type (cell_type ?a m)" "cell_offset ?a m \<le> i" "i < cell_offset ?a m + cell_size ?a m" for i
    using C1(2) that same by (simp add: owned_bytes_def)
  note kept = cell_view_cong [of ?a m' m, OF cell data]
  show "cell_view (cell_addr r c m') m' = v" "owned_bytes own (cell_addr r c m') m'"
    using C1 kept by (simp_all add: a owned_bytes_def)
qed

text \<open>A change outside what rows and cells own, with the header fields kept, keeps them.\<close>

lemma frame:
  assumes L: "layout own sz m" and C: "cells own m G"
    and hdr: "\<And>g. g < GROUP_NUM \<Longrightarrow> groupOffset g m' = groupOffset g m" "rowNums m' = rowNums m"
      "columnNums m' = columnNums m"
    and agree: "\<And>i. own i \<noteq> Free \<Longrightarrow> own i \<noteq> Hdr \<Longrightarrow> m' i = m i"
    and tags: "\<And>i. own i \<noteq> Free \<Longrightarrow> own' i = own i"
    and unused: "unusedOffset m \<le> unusedOffset m'" "unusedOffset m' \<le> sz" "\<And>i. unusedOffset m' \<le> i \<Longrightarrow> own' i = Free"
  shows "layout own' sz m' \<and> cells own' m' G"
proof
  have dir: "row_dir r m' = row_dir r m" if "r < rowNums m" for r
    using row_group [OF L that] layoutD(8) [OF L that] by (intro row_dir_frame [OF L]) (auto simp: hdr agree)
  show "layout own' sz m'"
    unfolding layout_def hdr(2,3)
  proof (intro conjI allI impI)
    fix g a assume "g < GROUP_NUM" "groupOffset g m' \<noteq> 0" "groupOffset g m' \<le> a" "a < groupOffset g m' + GROUP_SIZE"
    then have "own a = Grp g" using hdr(1) layoutD(7) [OF L] by simp
    then show "own' a = Grp g" using tags by simp
  next
    fix r a assume r: "r < rowNums m" "row_dir r m' \<le> a" "a < row_dir r m' + CELL_SIZE * columnNums m"
    then have "own a = Row r" using dir layoutD(9) [OF L] by simp
    then show "own' a = Row r" using tags by simp
  next
    fix r assume "r < rowNums m"
    then show "groupOffset (r div ROW_NUM_IN_A_GROUP) m' \<noteq> 0" using hdr(1) row_group [OF L] layoutD(8) [OF L] by simp
  next
    fix a :: nat assume "a < HEADER_SIZE"
    then show "own' a = Hdr" using tags layoutD(6) [OF L] by simp
  qed (use layoutD [OF L] unused in auto)
  show "cells own' m' G"
    unfolding cells_def hdr(2,3)
  proof (intro conjI allI impI)
    fix r c v assume r: "r < rowNums m" "c < columnNums m" "g_cell G r c = Some v"
    have same: "m' i = m i" if "own i = Row r \<or> own i = Data" for i using that agree by auto
    note kept = cell_kept [OF L C r dir [OF r(1)] same]
    have "own' i = Data" if "own i = Data" for i using tags [of i] that by simp
    then show "cell_view (cell_addr r c m') m' = v" "owned_bytes own' (cell_addr r c m') m'"
      using kept by (auto simp: owned_bytes_def)
  qed (use C in \<open>auto simp: cells_def\<close>)
qed

text \<open>A change of the bytes of one cell keeps the others.\<close>

lemma cell_write:
  assumes L: "layout own sz m" and C: "cells own m G" and r: "r < rowNums m" "c < columnNums m"
    and agree: "\<And>i. i < cell_addr r c m \<or> cell_addr r c m + CELL_SIZE \<le> i \<Longrightarrow> m' i = m i"
    and v: "cell_view (cell_addr r c m) m' = v" "owned_bytes own (cell_addr r c m) m'"
  shows "layout own sz m' \<and> cells own m' (G\<lparr>g_cell := (g_cell G)(r := (g_cell G r)(c := Some v))\<rparr>)"
proof -
  have other: "m' i = m i" if "own i \<noteq> Row r" for i
    using cell_owner [OF L r] agree that by (meson not_le)
  have low: "m' i = m i" if "i < HEADER_SIZE" for i using layoutD(6) [OF L that] other by simp
  have hdr: "rowNums m' = rowNums m" "columnNums m' = columnNums m" "unusedOffset m' = unusedOffset m"
    "\<And>g. g < GROUP_NUM \<Longrightarrow> groupOffset g m' = groupOffset g m"
    unfolding rowNums_def columnNums_def unusedOffset_def groupOffset_def by (auto intro!: load_cong low)
  have dir: "row_dir q m' = row_dir q m" if "q < rowNums m" for q
    using row_group [OF L that] layoutD(8) [OF L that] by (intro row_dir_frame [OF L]) (auto simp: hdr other)
  have "layout own sz m'"
    unfolding layout_def hdr(1-3) using hdr(4) dir layoutD [OF L] row_group [OF L] by auto
  moreover have "cells own m' (G\<lparr>g_cell := (g_cell G)(r := (g_cell G r)(c := Some v))\<rparr>)"
    unfolding cells_def hdr(1,2)
  proof (intro conjI allI impI)
    fix q d w assume q: "q < rowNums m" "d < columnNums m"
      "g_cell (G\<lparr>g_cell := (g_cell G)(r := (g_cell G r)(c := Some v))\<rparr>) q d = Some w"
    let ?a = "cell_addr q d m"
    have a: "cell_addr q d m' = ?a" using dir [OF q(1)] by (simp add: cell_addr_def)
    have "cell_view ?a m' = w \<and> owned_bytes own ?a m'"
    proof (cases "q = r \<and> d = c")
      case True
      then show ?thesis using q(3) v by simp
    next
      case False
      then have w: "g_cell G q d = Some w" using q(3) by (auto split: if_splits)
      have apart: "m' i = m i" if "?a \<le> i" "i < ?a + CELL_SIZE" for i
      proof (cases "q = r")
        case True
        then have "d < c \<or> c < d" using False by auto
        then have "i < cell_addr r c m \<or> cell_addr r c m + CELL_SIZE \<le> i"
          using that True unfolding cell_addr_def by auto
        then show ?thesis by (rule agree)
      next
        case False
        then show ?thesis using cell_owner [OF L q(1,2) that] by (auto intro: other)
      qed
      note C1 = cellsD [OF C q(1,2) w]
      have data: "m' i = m i" if "\<not> scalar_type (cell_type ?a m)" "cell_offset ?a m \<le> i" "i < cell_offset ?a m + cell_size ?a m" for i
        using C1(2) that by (auto simp: owned_bytes_def intro: other)
      note same = cell_view_cong [of ?a m' m, OF apart data]
      show ?thesis using same C1 by (simp add: owned_bytes_def)
    qed
    then show "cell_view (cell_addr q d m') m' = w" "owned_bytes own (cell_addr q d m') m'" by (simp_all add: a)
  qed (use C in \<open>auto simp: cells_def\<close>)
  ultimately show ?thesis by blast
qed

text \<open>The header fields under the writes of the code.\<close>

lemma header_writes [simp]:
  "unusedOffset (store 4 0 v m) = u32 v" "rowNums (store 4 0 v m) = rowNums m"
  "columnNums (store 4 0 v m) = columnNums m" "groupOffset g (store 4 0 v m) = groupOffset g m"
  "unusedOffset (store 4 4 v m) = unusedOffset m" "rowNums (store 4 4 v m) = u32 v"
  "columnNums (store 4 4 v m) = columnNums m" "groupOffset g (store 4 4 v m) = groupOffset g m"
  "unusedOffset (store 4 8 v m) = unusedOffset m" "rowNums (store 4 8 v m) = rowNums m"
  "columnNums (store 4 8 v m) = u32 v" "groupOffset g (store 4 8 v m) = groupOffset g m"
  by (simp_all add: unusedOffset_def rowNums_def columnNums_def groupOffset_def u32_def load_store_mod load_store_other)

lemma group_writes [simp]:
  "unusedOffset (store 4 (24 + 4 * g) v m) = unusedOffset m" "rowNums (store 4 (24 + 4 * g) v m) = rowNums m"
  "columnNums (store 4 (24 + 4 * g) v m) = columnNums m"
  by (simp_all add: unusedOffset_def rowNums_def columnNums_def load_store_other)

lemma groupOffset_write: "groupOffset h (store 4 (24 + 4 * g) v m) = (if h = g then u32 v else groupOffset h m)"
proof (cases "h = g")
  case False
  then have "24 + 4 * h + 4 \<le> 24 + 4 * g \<or> 24 + 4 * g + 4 \<le> 24 + 4 * h" by auto
  then show ?thesis using False by (simp add: groupOffset_def load_store_other)
qed (simp add: groupOffset_def u32_def load_store_mod)

lemma u32_id: "x < 2 ^ 32 \<Longrightarrow> u32 x = x"
  by (simp add: u32_def)

definition align4 :: "nat \<Rightarrow> nat" where
  "align4 u = u + (4 - u mod 4) mod 4"

lemma align4_bounds: "u \<le> align4 u" "align4 u < u + 4"
  by (simp_all add: align4_def)

lemma align4_layout:
  assumes "layout own sz m"
  shows "0 < align4 (unusedOffset m)" "align4 (unusedOffset m) < 2 ^ 32"
  using align4_bounds [of "unusedOffset m"] layoutD(1-3) [OF assms] by simp_all

lemma store_outside_header:
  assumes "layout own sz m" "sz \<le> i"
  shows "g < GROUP_NUM \<Longrightarrow> store 4 (24 + 4 * g) v m' i = m' i" "k \<le> 8 \<Longrightarrow> store 4 k v m' i = m' i"
  using layoutD(1,2) [OF assms(1)] assms(2) by (auto intro!: store_outside)

lemma minus_mod4:
  assumes "u \<le> 4 * k"
  shows "(4 * k - u) mod 4 = (4 - u mod 4) mod (4 :: nat)"
proof (cases "u mod 4 = 0")
  case True
  then obtain q where "u = 4 * q" by (metis mult_div_mod_eq add.right_neutral)
  then show ?thesis by (simp add: diff_mult_distrib2 [symmetric])
next
  case False
  have u: "u = 4 * (u div 4) + u mod 4" by simp
  with False assms have "u div 4 < k" by linarith
  then have "4 * k - u = 4 * (k - u div 4 - 1) + (4 - u mod 4)"
    using u False by (simp add: diff_mult_distrib2)
  then show ?thesis by (metis mod_mult_self4 mult.commute)
qed

lemma Alloc_eq:
  assumes "0 < unusedOffset (mData B)" "unusedOffset (mData B) \<le> 2 ^ 31" "n \<le> 2 ^ 20"
  shows "Alloc n B =
    (let off = align4 (unusedOffset (mData B))
     in if off + n > mSize B then (0, B) else (off, B\<lparr>mData := store 4 0 (off + n) (mData B)\<rparr>))"
proof -
  let ?u = "unusedOffset (mData B)"
  have u: "?u \<le> 2 ^ 31" "0 < ?u" using assms(1,2) by auto
  have neg: "u32 (2 ^ 32 - 1 - ?u + 1) mod 4 = (4 - ?u mod 4) mod 4"
  proof -
    have "2 ^ 32 - 1 - ?u + 1 = 2 ^ 32 - ?u" "2 ^ 32 - ?u < 2 ^ 32" using u by auto
    then have "u32 (2 ^ 32 - 1 - ?u + 1) = 2 ^ 32 - ?u" by (simp add: u32_def)
    moreover have "(2 ^ 32 - ?u) mod 4 = (4 - ?u mod 4) mod 4"
      using minus_mod4 [of ?u "2 ^ 30"] u by simp
    ultimately show ?thesis by simp
  qed
  have nx: "align4 ?u + n < 2 ^ 32" using align4_bounds(2) [of ?u] u(1) assms(3) by simp
  then have off: "u32 (?u + u32 (2 ^ 32 - 1 - ?u + 1) mod 4) = align4 ?u"
    unfolding neg by (simp add: u32_id align4_def)
  show ?thesis unfolding Alloc_def Let_def off u32_id [OF nx] by simp
qed

text \<open>Taking free addresses.\<close>

lemma take_free:
  assumes L: "layout own sz m" and C: "cells own m G" and n: "unusedOffset m \<le> lo" "lo + n \<le> sz" "length bs \<le> n"
    and own': "own' = (\<lambda>i. if lo \<le> i \<and> i < lo + n then t else if i < unusedOffset m then own i else Free)"
    and m': "m' = memcpy lo bs (store 4 0 (lo + n) m)"
  shows "layout own' sz m' \<and> cells own' m' G"
proof (rule frame [OF L C])
  have lo: "HEADER_SIZE \<le> lo" using n(1) layoutD(1) [OF L] by simp
  have small: "u32 (lo + n) = lo + n" using n layoutD(3) [OF L] by (intro u32_id) simp
  have u: "unusedOffset m' = lo + n"
    using lo small by (simp add: m' unusedOffset_def load_memcpy_other load_store_mod u32_def)
  show "unusedOffset m \<le> unusedOffset m'" "unusedOffset m' \<le> sz" using u n by simp_all
  show "rowNums m' = rowNums m" "columnNums m' = columnNums m"
    using lo by (simp_all add: m' rowNums_def columnNums_def load_memcpy_other load_store_other)
  fix i
  show "groupOffset i m' = groupOffset i m" if "i < GROUP_NUM"
    using lo that by (simp add: m' groupOffset_def load_memcpy_other load_store_other)
  show "own' i = Free" if "unusedOffset m' \<le> i" using that n u by (simp add: own')
  show "own' i = own i" if "own i \<noteq> Free"
    using that n layoutD(10) [OF L, of i] by (auto simp: own')
  show "m' i = m i" if "own i \<noteq> Free" "own i \<noteq> Hdr"
  proof -
    have "i < lo" using below_unused [OF L that(1)] n(1) by simp
    then show ?thesis
      using above_header [OF L that(2)] by (simp add: m' memcpy_outside store_outside)
  qed
qed

text \<open>A new group.\<close>

lemma add_group:
  assumes L: "layout own sz m" and C: "cells own m G" and g: "g < GROUP_NUM" "groupOffset g m = 0"
    and off: "0 < off" "off < 2 ^ 32" "\<And>i. off \<le> i \<Longrightarrow> i < off + GROUP_SIZE \<Longrightarrow> own i = Grp g"
  shows "layout own sz (store 4 (24 + 4 * g) off m) \<and> cells own (store 4 (24 + 4 * g) off m) G"
proof -
  let ?m = "store 4 (24 + 4 * g) off m"
  have go: "groupOffset h ?m = (if h = g then off else groupOffset h m)" for h
    using off by (simp add: groupOffset_write u32_id)
  have same: "?m i = m i" if "own i \<noteq> Hdr" for i
    using above_header [OF L that] g(1) by (intro store_outside) linarith
  have other: "r div 128 \<noteq> g" if "r < rowNums m" for r using layoutD(8) [OF L that] g(2) by auto
  have dir: "row_dir r ?m = row_dir r m" if "r < rowNums m" for r
    using row_group [OF L that] layoutD(8) [OF L that] other [OF that]
    by (intro row_dir_frame [OF L]) (auto simp: go same)
  have "layout own sz ?m"
    unfolding layout_def group_writes
  proof (intro conjI allI impI)
    fix h a assume "h < GROUP_NUM" "groupOffset h ?m \<noteq> 0" "groupOffset h ?m \<le> a" "a < groupOffset h ?m + GROUP_SIZE"
    then show "own a = Grp h" using go off(3) layoutD(7) [OF L] by (cases "h = g") auto
  next
    fix r assume "r < rowNums m"
    then show "groupOffset (r div ROW_NUM_IN_A_GROUP) ?m \<noteq> 0" using go other layoutD(8) [OF L] by simp
  next
    fix r a assume "r < rowNums m" "row_dir r ?m \<le> a" "a < row_dir r ?m + CELL_SIZE * columnNums m"
    then show "own a = Row r" using dir layoutD(9) [OF L] by simp
  qed (use layoutD [OF L] in auto)
  moreover have "cells own ?m G"
    unfolding cells_def group_writes
  proof (intro conjI allI impI)
    fix r c v assume r: "r < rowNums m" "c < columnNums m" "g_cell G r c = Some v"
    have kept: "?m i = m i" if "own i = Row r \<or> own i = Data" for i using that same by auto
    show "cell_view (cell_addr r c ?m) ?m = v" "owned_bytes own (cell_addr r c ?m) ?m"
      using cell_kept [OF L C r dir [OF r(1)] kept] by simp_all
  qed (use C in \<open>auto simp: cells_def\<close>)
  ultimately show ?thesis by blast
qed

text \<open>Fewer rows.\<close>

lemma drop_rows:
  assumes L: "layout own sz m" and C: "cells own m G" and k: "k \<le> rowNums m"
  shows "layout own sz (store 4 4 k m) \<and> cells own (store 4 4 k m) (G\<lparr>g_rows := k\<rparr>)"
proof -
  let ?m = "store 4 4 k m"
  have k32: "u32 k = k" using k layoutD(5) [OF L] by (simp add: u32_id)
  have same: "?m i = m i" if "own i \<noteq> Hdr" for i
    using above_header [OF L that] by (intro store_outside) simp
  have dir: "row_dir r ?m = row_dir r m" if "r < rowNums m" for r
    using row_group [OF L that] layoutD(8) [OF L that] by (intro row_dir_frame [OF L]) (auto simp: same)
  have "layout own sz ?m"
    unfolding layout_def header_writes k32
  proof (intro conjI allI impI)
    fix r a assume "r < k" "row_dir r ?m \<le> a" "a < row_dir r ?m + CELL_SIZE * columnNums m"
    then show "own a = Row r" using k dir layoutD(9) [OF L] by simp
  qed (use layoutD [OF L] k in auto)
  moreover have "cells own ?m (G\<lparr>g_rows := k\<rparr>)"
    unfolding cells_def header_writes k32
  proof (intro conjI allI impI)
    fix r c v assume r: "r < k" "c < columnNums m" "g_cell (G\<lparr>g_rows := k\<rparr>) r c = Some v"
    have r1: "r < rowNums m" "g_cell G r c = Some v" using r k by auto
    have kept: "?m i = m i" if "own i = Row r \<or> own i = Data" for i using that same by auto
    show "cell_view (cell_addr r c ?m) ?m = v" "owned_bytes own (cell_addr r c ?m) ?m"
      using cell_kept [OF L C r1(1) r(2) r1(2) dir [OF r1(1)] kept] by simp_all
  qed (use C in \<open>auto simp: cells_def\<close>)
  ultimately show ?thesis by blast
qed

text \<open>One more row, whose slot lies in a group and whose directory nobody else owns.\<close>

lemma add_row:
  assumes L: "layout own sz m" and C: "cells own m G" and n: "n = rowNums m" "n < GROUP_NUM * ROW_NUM_IN_A_GROUP"
    and g: "groupOffset (n div ROW_NUM_IN_A_GROUP) m \<noteq> 0"
    and slot: "slot = groupOffset (n div ROW_NUM_IN_A_GROUP) m + 4 * (n mod ROW_NUM_IN_A_GROUP)"
    and d: "d < 2 ^ 32" "\<And>i. d \<le> i \<Longrightarrow> i < d + CELL_SIZE * columnNums m \<Longrightarrow> own i = Row n"
    and m': "m' = store 4 slot d (store 4 4 (n + 1) m)"
  shows "layout own sz m' \<and> cells own m' (G\<lparr>g_rows := n + 1, g_cell := (g_cell G)(n := (\<lambda>_. None))\<rparr>)"
proof -
  have ng: "n div 128 < GROUP_NUM" using n(2) by (simp add: less_mult_imp_div_less)
  have slot_own: "own i = Grp (n div 128)" if "slot \<le> i" "i < slot + 4" for i
    using slot_owner [OF L ng g] that slot by simp
  have out: "i < slot \<or> slot + 4 \<le> i" if "own i \<noteq> Grp (n div 128)" for i
    using slot_own [of i] that not_le by blast
  have high: "HEADER_SIZE \<le> slot" using above_header [OF L] slot_own [of slot] by simp
  have same: "m' i = m i" if "own i \<noteq> Hdr" "i < slot \<or> slot + 4 \<le> i" for i
  proof -
    have "m' i = store 4 4 (n + 1) m i" using that(2) by (simp add: m' store_outside)
    also have "\<dots> = m i" using above_header [OF L that(1)] by (intro store_outside) simp
    finally show ?thesis .
  qed
  have hdr: "rowNums m' = n + 1" "columnNums m' = columnNums m" "unusedOffset m' = unusedOffset m"
    "\<And>h. h < GROUP_NUM \<Longrightarrow> groupOffset h m' = groupOffset h m"
    using high n(2)
    by (auto simp: m' rowNums_def columnNums_def unusedOffset_def groupOffset_def load_store_other load_store)
  have new: "row_dir n m' = d"
    unfolding row_dir_def using hdr(4) [OF ng] slot d(1) by (simp add: m' load_store)
  have dir: "row_dir r m' = row_dir r m" if "r < n" for r
  proof (rule row_dir_frame [OF L])
    have r: "r < rowNums m" using that n by simp
    show rg: "r div 128 < GROUP_NUM" "groupOffset (r div 128) m \<noteq> 0" using row_group [OF L r] layoutD(8) [OF L r] by auto
    show "groupOffset (r div 128) m' = groupOffset (r div 128) m" using hdr(4) rg by simp
    fix i assume i: "own i = Grp (r div 128)" "groupOffset (r div 128) m + 4 * (r mod 128) \<le> i"
      "i < groupOffset (r div 128) m + 4 * (r mod 128) + 4"
    have "i < slot \<or> slot + 4 \<le> i"
    proof (cases "r div 128 = n div 128")
      case True
      then have "r mod 128 < n mod 128" using that by (metis mult_div_mod_eq nat_add_left_cancel_less)
      then show ?thesis using i(3) True slot by simp
    next
      case False
      then show ?thesis using out [of i] i(1) by simp
    qed
    then show "m' i = m i" using same i(1) by simp
  qed
  have "layout own sz m'"
    unfolding layout_def hdr(1-3)
  proof (intro conjI allI impI)
    fix r assume "r < n + 1"
    then show "groupOffset (r div ROW_NUM_IN_A_GROUP) m' \<noteq> 0"
      using hdr(4) g ng n row_group [OF L] layoutD(8) [OF L] by (cases "r = n") auto
  next
    fix r a assume "r < n + 1" "row_dir r m' \<le> a" "a < row_dir r m' + CELL_SIZE * columnNums m"
    then show "own a = Row r" using new dir d(2) n layoutD(9) [OF L] by (cases "r = n") auto
  next
    fix h a assume "h < GROUP_NUM" "groupOffset h m' \<noteq> 0" "groupOffset h m' \<le> a" "a < groupOffset h m' + GROUP_SIZE"
    then show "own a = Grp h" using hdr(4) layoutD(7) [OF L] by simp
  qed (use layoutD [OF L] n in auto)
  moreover have "cells own m' (G\<lparr>g_rows := n + 1, g_cell := (g_cell G)(n := (\<lambda>_. None))\<rparr>)"
    unfolding cells_def hdr(1,2)
  proof (intro conjI allI impI)
    fix r c v assume r: "r < n + 1" "c < columnNums m"
      "g_cell (G\<lparr>g_rows := n + 1, g_cell := (g_cell G)(n := (\<lambda>_. None))\<rparr>) r c = Some v"
    have r1: "r < n" "g_cell G r c = Some v" using r by (auto split: if_splits)
    then have rn: "r < rowNums m" using n by simp
    have kept: "m' i = m i" if "own i = Row r \<or> own i = Data" for i
      using same [of i] out [of i] that by auto
    show "cell_view (cell_addr r c m') m' = v" "owned_bytes own (cell_addr r c m') m'"
      using cell_kept [OF L C rn r(2) r1(2) dir [OF r1(1)] kept] by simp_all
  qed (use C in \<open>auto simp: cells_def\<close>)
  ultimately show ?thesis by blast
qed

section \<open>The operations refine a grid\<close>

text \<open>The block stands for the grid.\<close>

definition stands_for :: "shared_block \<Rightarrow> grid \<Rightarrow> bool" where
  "stands_for B G \<longleftrightarrow> \<not> mReadOnly B \<and> (\<exists>own. layout own (mSize B) (mData B) \<and> cells own (mData B) G)"

lemma stands_forI:
  "\<not> mReadOnly B \<Longrightarrow> layout own (mSize B) (mData B) \<and> cells own (mData B) G \<Longrightarrow> stands_for B G"
  unfolding stands_for_def by blast

abbreviation empty_grid :: grid where
  "empty_grid \<equiv> \<lparr>g_rows = 0, g_cols = 0, g_cell = (\<lambda>_ _. None)\<rparr>"

lemma le_dec_zeros: "le_dec (replicate n 0) = 0"
  by (induction n) auto

lemma load_zeros:
  assumes "b \<le> a" "a + n \<le> b + k"
  shows "load n a (memcpy b (replicate k 0) m) = 0"
proof -
  have "bytes_at a n (memcpy b (replicate k 0) m) = replicate n 0"
    using assms by (intro nth_equalityI) (auto simp: bytes_at_def memcpy_def)
  then show ?thesis by (simp add: load_def le_dec_zeros)
qed

lemma Clear_empty:
  assumes "\<not> mReadOnly B" "HEADER_SIZE + GROUP_SIZE \<le> mSize B" "mSize B \<le> 2 ^ 31"
  shows "fst (Clear_block B) = SHARED_BLOCK_OK" "mSize (snd (Clear_block B)) = mSize B"
    "stands_for (snd (Clear_block B)) empty_grid"
proof -
  let ?m = "mData (snd (Clear_block B))"
  show "fst (Clear_block B) = SHARED_BLOCK_OK" and sz: "mSize (snd (Clear_block B)) = mSize B"
    using assms(1) by (simp_all add: Clear_block_def Let_def)
  have m: "unusedOffset ?m = 1048" "rowNums ?m = 0" "columnNums ?m = 0"
    using assms(1)
    by (simp_all add: Clear_block_def Let_def unusedOffset_def rowNums_def columnNums_def
        load_store_other load_memcpy_other load_store)
  have g: "groupOffset g ?m = (if g = 0 then 536 else 0)" if "g < GROUP_NUM" for g
  proof (cases "g = 0")
    case True
    then show ?thesis using assms(1) by (simp add: Clear_block_def Let_def groupOffset_def load_store)
  next
    case False
    then show ?thesis
      using assms(1) that by (simp add: Clear_block_def Let_def groupOffset_def load_store_other load_zeros)
  qed
  let ?own = "\<lambda>a. if a < 536 then Hdr else if a < 1048 then Grp 0 else Free"
  have "layout ?own (mSize B) ?m"
    unfolding layout_def using m g assms(2,3) by auto
  moreover have "cells ?own ?m empty_grid" using m by (simp add: cells_def)
  ultimately show "stands_for (snd (Clear_block B)) empty_grid"
    using assms(1) sz by (intro stands_forI [of _ ?own]) (auto simp: Clear_block_def Let_def)
qed

lemma SetColumnNum_grid:
  assumes "stands_for B G" "SetColumnNum n B = (e, B')" "n < 2 ^ 32"
  shows "mSize B' = mSize B \<and> stands_for B' (if e = SHARED_BLOCK_OK then G\<lparr>g_cols := n\<rparr> else G)"
proof (cases "e = SHARED_BLOCK_OK")
  case False
  then show ?thesis using assms by (auto simp: SetColumnNum_def Let_def split: if_splits)
next
  case True
  obtain own where L: "layout own (mSize B) (mData B)" and C: "cells own (mData B) G" and ro: "\<not> mReadOnly B"
    using assms(1) by (auto simp: stands_for_def)
  let ?m = "mData B"
  have B': "B' = B\<lparr>mData := store 4 8 n ?m\<rparr>" "n \<le> COL_MAX_NUM" and same: "rowNums ?m = 0 \<or> columnNums ?m = n"
    using assms(2) ro True by (auto simp: SetColumnNum_def Let_def block_status split: if_splits)
  show ?thesis
  proof (cases "columnNums ?m = n")
    case eq: True
    then have "store 4 8 n ?m = ?m" by (metis columnNums_def store_load)
    moreover have "G\<lparr>g_cols := n\<rparr> = G" using C eq by (cases G) (auto simp: cells_def)
    ultimately show ?thesis using assms(1) True B' by simp
  next
    case False
    then have "rowNums ?m = 0" using same by simp
    then have "layout own (mSize B) (store 4 8 n ?m)"
      using L B'(2) by (simp add: layout_def u32_id)
    moreover have "cells own (store 4 8 n ?m) (G\<lparr>g_cols := n\<rparr>)"
      using C B'(2) \<open>rowNums ?m = 0\<close> by (simp add: cells_def u32_id)
    ultimately show ?thesis using True ro B'(1) by (auto intro!: stands_forI [of _ own])
  qed
qed

lemma FreeLastRow_grid:
  assumes "stands_for B G" "FreeLastRow B = (e, B')"
  shows "mSize B' = mSize B \<and> stands_for B' (G\<lparr>g_rows := g_rows G - 1\<rparr>)"
proof -
  obtain own where L: "layout own (mSize B) (mData B)" and C: "cells own (mData B) G" and ro: "\<not> mReadOnly B"
    using assms(1) by (auto simp: stands_for_def)
  have g: "g_rows G = rowNums (mData B)" using C by (simp add: cells_def)
  show ?thesis
  proof (cases "rowNums (mData B) > 0")
    case True
    then have "B' = B\<lparr>mData := store 4 4 (g_rows G - 1) (mData B)\<rparr>" using assms(2) g by (auto simp: FreeLastRow_def)
    then show ?thesis using drop_rows [OF L C, of "g_rows G - 1"] g ro by (auto intro!: stands_forI [of _ own])
  next
    case False
    then have "B' = B" "G\<lparr>g_rows := g_rows G - 1\<rparr> = G" using assms(2) g by (auto simp: FreeLastRow_def)
    then show ?thesis using assms(1) by simp
  qed
qed

text \<open>The slot of a new row: a group is allocated for it where the last one is full.\<close>

lemma AllocRowOffset_cases:
  assumes L: "layout own (mSize B) (mData B)" and C: "cells own (mData B) G"
  obtains
    (full) own1 B1 where "AllocRowOffset B = (None, B1)" "mSize B1 = mSize B" "mReadOnly B1 = mReadOnly B"
      "layout own1 (mSize B) (mData B1)" "cells own1 (mData B1) G" "\<And>i. mSize B \<le> i \<Longrightarrow> mData B1 i = mData B i"
  | (slot) own1 m1 n where "n = rowNums m1" "n < GROUP_NUM * ROW_NUM_IN_A_GROUP"
      "groupOffset (n div ROW_NUM_IN_A_GROUP) m1 \<noteq> 0" "layout own1 (mSize B) m1" "cells own1 m1 G"
      "AllocRowOffset B = (Some (groupOffset (n div ROW_NUM_IN_A_GROUP) m1 + 4 * (n mod ROW_NUM_IN_A_GROUP)),
         B\<lparr>mData := store 4 4 (n + 1) m1\<rparr>)" "\<And>i. mSize B \<le> i \<Longrightarrow> m1 i = mData B i"
proof -
  let ?m = "mData B" let ?n = "rowNums ?m" let ?g = "?n div 128"
  have size: "mSize B \<le> 2 ^ 31" using layoutD(3) [OF L] .
  have finish: "thesis" if m1: "layout own1 (mSize B) m1" "cells own1 m1 G" "rowNums m1 = ?n"
    "groupOffset ?g m1 \<noteq> 0" "?g < GROUP_NUM" "\<And>i. mSize B \<le> i \<Longrightarrow> m1 i = ?m i"
    and B1: "AllocRowOffset B = (let rowPos = rowNums m1 mod 128; offset = groupOffset ?g m1;
        B2 = B\<lparr>mData := store 4 4 (u32 (rowNums m1 + 1)) m1\<rparr>
      in (map_option (\<lambda>grp. grp + 4 * rowPos) (OffsetToPtr offset 0 (B\<lparr>mData := m1\<rparr>)), B2))" for own1 m1
  proof (rule slot [of ?n m1 own1])
    show n: "?n < GROUP_NUM * ROW_NUM_IN_A_GROUP" using m1(5) by (simp add: div_less_iff_less_mult)
    have "own1 (groupOffset ?g m1) = Grp ?g" using layoutD(7) [OF m1(1,5,4)] by simp
    then have "groupOffset ?g m1 < unusedOffset m1" using below_unused [OF m1(1)] by simp
    then have "groupOffset ?g m1 \<le> mSize B" using layoutD(2) [OF m1(1)] by simp
    then show "AllocRowOffset B = (Some (groupOffset ?g m1 + 4 * (?n mod ROW_NUM_IN_A_GROUP)),
         B\<lparr>mData := store 4 4 (?n + 1) m1\<rparr>)"
      using B1 m1(3) n size by (simp add: OffsetToPtr_def u32_id)
  qed (use m1 in simp_all)
  show thesis
  proof (cases "?g \<ge> GROUP_NUM")
    case True
    then show ?thesis using L C by (intro full [of B own]) (simp_all add: AllocRowOffset_def)
  next
    case False
    then have g: "?g < GROUP_NUM" by simp
    show ?thesis
    proof (cases "groupOffset ?g ?m = 0")
      case False
      with g show ?thesis by (intro finish [OF L C]) (simp_all add: AllocRowOffset_def Let_def)
    next
      case new: True
      let ?off = "align4 (unusedOffset ?m)"
      have al: "Alloc GROUP_SIZE B = (if ?off + 512 > mSize B then (0, B) else (?off, B\<lparr>mData := store 4 0 (?off + 512) ?m\<rparr>))"
        using Alloc_eq [of B GROUP_SIZE] layoutD(1,2,3) [OF L] by (simp add: Let_def)
      show ?thesis
      proof (cases "?off + 512 > mSize B")
        case True
        have "store 4 (24 + 4 * ?g) 0 ?m = ?m" using store_load [of 4 "24 + 4 * ?g" ?m] new by (simp add: groupOffset_def)
        then show ?thesis
          using L C g new True al by (intro full [of B own]) (simp_all add: AllocRowOffset_def Let_def)
      next
        case False
        let ?own = "\<lambda>i. if ?off \<le> i \<and> i < ?off + 512 then Grp ?g else if i < unusedOffset ?m then own i else Free"
        let ?m0 = "store 4 0 (?off + 512) ?m"
        have f: "layout ?own (mSize B) ?m0" "cells ?own ?m0 G"
          using take_free [OF L C align4_bounds(1), of 512 "[]" ?own "Grp ?g" ?m0] False
          by simp_all
        note off = align4_layout [OF L]
        let ?m1 = "store 4 (24 + 4 * ?g) ?off ?m0"
        have a: "layout ?own (mSize B) ?m1" "cells ?own ?m1 G"
          using add_group [OF f g _ off, of] new by (simp_all add: header_writes)
        show ?thesis
          using g off new False al
          by (intro finish [OF a])
            (simp_all add: AllocRowOffset_def Let_def groupOffset_write u32_id store_outside_header [OF L])
      qed
    qed
  qed
qed

lemma AllocRow_grid:
  assumes "stands_for B G" "AllocRow B = (e, B')"
  shows "mSize B' = mSize B \<and> stands_for B' (if e = SHARED_BLOCK_OK
    then G\<lparr>g_rows := g_rows G + 1, g_cell := (g_cell G)(g_rows G := (\<lambda>_. None))\<rparr> else G)"
proof -
  obtain own where L: "layout own (mSize B) (mData B)" and C: "cells own (mData B) G" and ro: "\<not> mReadOnly B"
    using assms(1) by (auto simp: stands_for_def)
  from L C show ?thesis
  proof (cases rule: AllocRowOffset_cases)
    case (full own1 B1)
    then have "e = SHARED_BLOCK_NO_MEMORY" "B' = B1" using assms(2) by (simp_all add: AllocRow_def)
    then show ?thesis using full ro by (auto simp: block_status intro!: stands_forI [of _ own1])
  next
    case (slot own1 m1 n)
    let ?slot = "groupOffset (n div 128) m1 + 4 * (n mod 128)"
    let ?B1 = "B\<lparr>mData := store 4 4 (n + 1) m1\<rparr>"
    let ?k = "columnNums m1 * 12" let ?off = "align4 (unusedOffset m1)"
    have n32: "u32 (n + 1) = n + 1" using slot(2) by (simp add: u32_id)
    have g: "g_rows G = n" using slot(1,5) by (simp add: cells_def)
    have al: "Alloc ?k ?B1 = (if ?off + ?k > mSize B then (0, ?B1) else (?off, ?B1\<lparr>mData := store 4 0 (?off + ?k) (mData ?B1)\<rparr>))"
      using Alloc_eq [of ?B1 ?k] layoutD(1-4) [OF slot(4)] by (simp add: Let_def)
    note off = align4_layout [OF slot(4)]
    show ?thesis
    proof (cases "?off + ?k > mSize B")
      case True
      have "store 4 4 (u32 (n + 1 + 2 ^ 32 - 1)) (store 4 4 (n + 1) m1) = m1"
        using slot(1,2) store_load [of 4 4 m1] by (simp add: store_store u32_def rowNums_def)
      then have "e = SHARED_BLOCK_NO_MEMORY" "B' = B\<lparr>mData := m1\<rparr>"
        using assms(2) slot(6) al True n32 by (simp_all add: AllocRow_def Let_def)
      then show ?thesis using slot ro by (auto simp: block_status intro!: stands_forI [of _ own1])
    next
      case False
      let ?own = "\<lambda>i. if ?off \<le> i \<and> i < ?off + ?k then Row n else if i < unusedOffset m1 then own1 i else Free"
      let ?m0 = "store 4 0 (?off + ?k) m1"
      have f: "layout ?own (mSize B) ?m0" "cells ?own ?m0 G"
        using take_free [OF slot(4,5) align4_bounds(1), of ?k "[]" ?own "Row n" ?m0] False
        by simp_all
      have com: "store 4 0 (?off + ?k) (store 4 4 (n + 1) m1) = store 4 4 (n + 1) ?m0"
        by (rule store_commute) simp
      have r: "e = SHARED_BLOCK_OK" "B' = B\<lparr>mData := store 4 ?slot ?off (store 4 4 (n + 1) ?m0)\<rparr>"
        using assms(2) slot(6) al False off(1) com by (simp_all add: AllocRow_def Let_def)
      have "layout ?own (mSize B) (mData B') \<and> cells ?own (mData B')
          (G\<lparr>g_rows := n + 1, g_cell := (g_cell G)(n := (\<lambda>_. None))\<rparr>)"
        using slot(1-3) off(2) r(2)
        by (intro add_row [OF f]) (auto simp: mult.commute)
      then show ?thesis using r g ro by (auto intro!: stands_forI [of _ ?own])
    qed
  qed
qed

abbreviation put_cell :: "nat \<Rightarrow> nat \<Rightarrow> nat \<times> byte list \<Rightarrow> grid \<Rightarrow> grid" where
  "put_cell r c v G \<equiv> G\<lparr>g_cell := (g_cell G)(r := (g_cell G r)(c := Some v))\<rparr>"

lemma scalar_put_grid:
  assumes "stands_for B G" "r < rowNums (mData B)" "c < columnNums (mData B)" "scalar_type t"
    and m': "m' = store 8 (cell_addr r c (mData B) + 4) w (store 4 (cell_addr r c (mData B)) t (mData B))"
  shows "stands_for (B\<lparr>mData := m'\<rparr>) (put_cell r c (t, le_enc 8 w) G)"
proof -
  obtain own where L: "layout own (mSize B) (mData B)" and C: "cells own (mData B) G" and ro: "\<not> mReadOnly B"
    using assms(1) by (auto simp: stands_for_def)
  let ?a = "cell_addr r c (mData B)"
  have t: "cell_type ?a m' = t"
    using assms(4) by (auto simp: m' cell_type_def load_store_other load_store scalar_type_def)
  have "bytes_at (?a + 4) 8 m' = le_enc 8 w"
    using bytes_at_memcpy [of "?a + 4" "le_enc 8 w"] by (simp add: m' store_def)
  then have "cell_view ?a m' = (t, le_enc 8 w)" "owned_bytes own ?a m'"
    using t assms(4) by (simp_all add: cell_view_def owned_bytes_def)
  moreover have "m' i = mData B i" if "i < ?a \<or> ?a + CELL_SIZE \<le> i" for i
    using that by (auto simp: m' store_outside)
  ultimately show ?thesis
    using cell_write [OF L C assms(2,3)] ro by (auto intro!: stands_forI [of _ own])
qed

lemma PutNull_grid:
  assumes "stands_for B G" "Block_PutNull r c B = (e, B')"
  shows "mSize B' = mSize B \<and> stands_for B' (if e = SHARED_BLOCK_OK then put_cell r c (CELL_UNIT_TYPE_NULL, []) G else G)"
proof (cases "r < rowNums (mData B) \<and> c < columnNums (mData B)")
  case False
  then show ?thesis using assms by (auto simp: Block_PutNull_def block_status)
next
  case True
  obtain own where L: "layout own (mSize B) (mData B)" and C: "cells own (mData B) G" and ro: "\<not> mReadOnly B"
    using assms(1) by (auto simp: stands_for_def)
  let ?a = "cell_addr r c (mData B)"
  let ?m = "store 4 (?a + 8) 0 (store 4 (?a + 4) 0 (store 4 ?a 0 (mData B)))"
  have r: "e = SHARED_BLOCK_OK" "B' = B\<lparr>mData := ?m\<rparr>" using assms(2) True by (simp_all add: Block_PutNull_def Let_def)
  have "cell_type ?a ?m = 0" "cell_offset ?a ?m = 0" "cell_size ?a ?m = 0"
    by (simp_all add: cell_type_def cell_offset_def cell_size_def load_store_other load_store)
  then have "cell_view ?a ?m = (0, [])" "owned_bytes own ?a ?m"
    by (simp_all add: cell_view_def owned_bytes_def scalar_type_def)
  moreover have "?m i = mData B i" if "i < ?a \<or> ?a + CELL_SIZE \<le> i" for i
    using that by (auto simp: store_outside)
  ultimately show ?thesis
    using cell_write [OF L C] True r ro by (auto intro!: stands_forI [of _ own])
qed

lemma PutBytes_grid:
  assumes "stands_for B G" "PutBlobOrString r c val t B = (e, B')" "\<not> scalar_type t" "t < 2 ^ 32"
    and "\<And>bs. val = Some bs \<Longrightarrow> length bs \<le> RSIZE_MAX"
  shows "mSize B' = mSize B \<and> stands_for B' (if e = SHARED_BLOCK_OK then put_cell r c (t, the val) G else G)"
proof (cases "\<exists>bs. val = Some bs \<and> r < rowNums (mData B) \<and> c < columnNums (mData B)
    \<and> u32 (unusedOffset (mData B) + length bs) \<le> mSize B")
  case False
  then have "B' = B \<and> e \<noteq> SHARED_BLOCK_OK"
    using assms(2) by (cases val) (auto simp: PutBlobOrString_def Let_def block_status split: if_splits)
  then show ?thesis using assms(1) by simp
next
  case True
  then obtain bs where bs: "val = Some bs" "r < rowNums (mData B)" "c < columnNums (mData B)"
    "u32 (unusedOffset (mData B) + length bs) \<le> mSize B" by blast
  obtain own where L: "layout own (mSize B) (mData B)" and C: "cells own (mData B) G" and ro: "\<not> mReadOnly B"
    using assms(1) by (auto simp: stands_for_def)
  let ?m = "mData B" let ?u = "unusedOffset ?m" let ?n = "length bs" let ?a = "cell_addr r c ?m"
  have len: "?n \<le> RSIZE_MAX" using assms(5) bs(1) by simp
  have u32s: "u32 (?u + ?n) = ?u + ?n" "u32 ?n = ?n" "?u < 2 ^ 32"
    using len layoutD(2,3) [OF L] by (auto intro!: u32_id)
  let ?m2 = "memcpy ?u bs (store 4 0 (?u + ?n) ?m)"
  let ?m5 = "store 4 (?a + 8) ?n (store 4 (?a + 4) ?u (store 4 ?a t ?m2))"
  have r: "e = SHARED_BLOCK_OK" "B' = B\<lparr>mData := ?m5\<rparr>"
    using assms(2) bs len u32s by (simp_all add: PutBlobOrString_def Let_def)
  let ?own = "\<lambda>i. if ?u \<le> i \<and> i < ?u + ?n then Data else if i < ?u then own i else Free"
  have f: "layout ?own (mSize B) ?m2" "cells ?own ?m2 G"
    using take_free [OF L C order_refl, of ?n bs ?own Data ?m2] bs(4) u32s(1) by simp_all
  have g: "rowNums ?m2 = rowNums ?m" "columnNums ?m2 = columnNums ?m"
    using C f(2) by (simp_all add: cells_def)
  have "row_dir r ?m2 = row_dir r ?m"
  proof (rule row_dir_frame [OF L row_group [OF L bs(2)] layoutD(8) [OF L bs(2)]])
    have "HEADER_SIZE \<le> ?u" using layoutD(1) [OF L] by simp
    moreover have "r div 128 < GROUP_NUM" by (rule row_group [OF L bs(2)])
    ultimately show "groupOffset (r div 128) ?m2 = groupOffset (r div 128) ?m"
      by (simp add: groupOffset_def load_memcpy_other load_store_other)
    fix i assume "own i = Grp (r div 128)"
    then have "HEADER_SIZE \<le> i" "i < ?u" using above_header [OF L, of i] below_unused [OF L, of i] by auto
    then show "?m2 i = ?m i" by (simp add: memcpy_outside store_outside)
  qed
  then have a: "cell_addr r c ?m2 = ?a" by (simp add: cell_addr_def)
  have out: "?m5 i = ?m2 i" if "i < ?a \<or> ?a + CELL_SIZE \<le> i" for i
    using that by (auto simp: store_outside)
  have cell: "cell_type ?a ?m5 = t" "cell_offset ?a ?m5 = ?u" "cell_size ?a ?m5 = ?n"
    using assms(4) u32s(3) len by (simp_all add: cell_type_def cell_offset_def cell_size_def load_store_other load_store)
  have "bytes_at ?u ?n ?m5 = bytes_at ?u ?n ?m2"
  proof (rule bytes_at_cong)
    fix i assume i: "?u \<le> i" "i < ?u + ?n"
    have "\<not> (?a \<le> i \<and> i < ?a + CELL_SIZE)"
    proof
      assume "?a \<le> i \<and> i < ?a + CELL_SIZE"
      then have "own i = Row r" using cell_owner [OF L bs(2,3)] by simp
      then show False using below_unused [OF L, of i] i(1) by simp
    qed
    then show "?m5 i = ?m2 i" by (intro out) linarith
  qed
  then have "bytes_at ?u ?n ?m5 = bs" by (simp add: bytes_at_memcpy)
  then have "cell_view ?a ?m5 = (t, bs)" "owned_bytes ?own ?a ?m5"
    using assms(3) cell by (simp_all add: cell_view_def owned_bytes_def)
  then have "layout ?own (mSize B) ?m5 \<and> cells ?own ?m5 (put_cell r c (t, bs) G)"
    using cell_write [OF f, of r c ?m5 "(t, bs)"] bs(2,3) out by (simp add: a g)
  then show ?thesis using r bs(1) ro by (auto intro!: stands_forI [of _ ?own])
qed

section \<open>Sequences of operations\<close>

datatype block_op =
    B_Clear
  | B_SetColumnNum nat
  | B_AllocRow
  | B_FreeLastRow
  | B_PutString nat nat "byte list option"
  | B_PutBlob nat nat "byte list option"
  | B_PutAsset nat nat "byte list option"
  | B_PutAssets nat nat "byte list option"
  | B_PutFloats nat nat "byte list option"
  | B_PutBigInt nat nat "byte list option"
  | B_PutLong nat nat "64 word"
  | B_PutDouble nat nat "64 word"
  | B_PutNull nat nat

primrec block_exec :: "block_op \<Rightarrow> shared_block \<Rightarrow> int \<times> shared_block" where
  "block_exec B_Clear B = Clear_block B"
| "block_exec (B_SetColumnNum n) B = SetColumnNum n B"
| "block_exec B_AllocRow B = AllocRow B"
| "block_exec B_FreeLastRow B = FreeLastRow B"
| "block_exec (B_PutString r c v) B = Block_PutString r c v B"
| "block_exec (B_PutBlob r c v) B = Block_PutBlob r c v B"
| "block_exec (B_PutAsset r c v) B = Block_PutAsset r c v B"
| "block_exec (B_PutAssets r c v) B = Block_PutAssets r c v B"
| "block_exec (B_PutFloats r c v) B = Block_PutFloats r c v B"
| "block_exec (B_PutBigInt r c v) B = Block_PutBigInt r c v B"
| "block_exec (B_PutLong r c w) B = Block_PutLong r c w B"
| "block_exec (B_PutDouble r c w) B = Block_PutDouble r c w B"
| "block_exec (B_PutNull r c) B = Block_PutNull r c B"

text \<open>What a successful operation does to the grid.\<close>

primrec grid_exec :: "block_op \<Rightarrow> grid \<Rightarrow> grid" where
  "grid_exec B_Clear G = empty_grid"
| "grid_exec (B_SetColumnNum n) G = G\<lparr>g_cols := n\<rparr>"
| "grid_exec B_AllocRow G = G\<lparr>g_rows := g_rows G + 1, g_cell := (g_cell G)(g_rows G := (\<lambda>_. None))\<rparr>"
| "grid_exec B_FreeLastRow G = G\<lparr>g_rows := g_rows G - 1\<rparr>"
| "grid_exec (B_PutString r c v) G = put_cell r c (CELL_UNIT_TYPE_STRING, the v) G"
| "grid_exec (B_PutBlob r c v) G = put_cell r c (CELL_UNIT_TYPE_BLOB, the v) G"
| "grid_exec (B_PutAsset r c v) G = put_cell r c (CELL_UNIT_TYPE_ASSET, the v) G"
| "grid_exec (B_PutAssets r c v) G = put_cell r c (CELL_UNIT_TYPE_ASSETS, the v) G"
| "grid_exec (B_PutFloats r c v) G = put_cell r c (CELL_UNIT_TYPE_FLOATS, the v) G"
| "grid_exec (B_PutBigInt r c v) G = put_cell r c (CELL_UNIT_TYPE_BIGINT, the v) G"
| "grid_exec (B_PutLong r c w) G = put_cell r c (CELL_UNIT_TYPE_INTEGER, le_enc 8 (unat w)) G"
| "grid_exec (B_PutDouble r c w) G = put_cell r c (CELL_UNIT_TYPE_FLOAT, le_enc 8 (unat w)) G"
| "grid_exec (B_PutNull r c) G = put_cell r c (CELL_UNIT_TYPE_NULL, []) G"

text \<open>The arguments the types of the parameters allow: sqlite gives the size of a value as an \<open>int\<close>.\<close>

definition small_value :: "byte list option \<Rightarrow> bool" where
  "small_value v \<longleftrightarrow> (case v of None \<Rightarrow> True | Some bs \<Rightarrow> length bs \<le> RSIZE_MAX)"

fun op_ok :: "block_op \<Rightarrow> bool" where
  "op_ok (B_SetColumnNum n) \<longleftrightarrow> n < 2 ^ 32"
| "op_ok (B_PutString r c v) \<longleftrightarrow> small_value v"
| "op_ok (B_PutBlob r c v) \<longleftrightarrow> small_value v"
| "op_ok (B_PutAsset r c v) \<longleftrightarrow> small_value v"
| "op_ok (B_PutAssets r c v) \<longleftrightarrow> small_value v"
| "op_ok (B_PutFloats r c v) \<longleftrightarrow> small_value v"
| "op_ok (B_PutBigInt r c v) \<longleftrightarrow> small_value v"
| "op_ok _ \<longleftrightarrow> True"

definition block_step :: "block_op \<Rightarrow> shared_block \<times> grid \<Rightarrow> shared_block \<times> grid" where
  "block_step x s =
     (let (e, B) = block_exec x (fst s) in (B, if e = SHARED_BLOCK_OK then grid_exec x (snd s) else snd s))"

definition block_run :: "block_op list \<Rightarrow> shared_block \<times> grid \<Rightarrow> shared_block \<times> grid" where
  "block_run ops s = fold block_step ops s"

lemma scalar_op_grid:
  assumes "stands_for B G" "e = SHARED_BLOCK_OK \<longrightarrow> r < rowNums (mData B) \<and> c < columnNums (mData B)
      \<and> B' = B\<lparr>mData := store 8 (cell_addr r c (mData B) + 4) w (store 4 (cell_addr r c (mData B)) t (mData B))\<rparr>"
    and "e \<noteq> SHARED_BLOCK_OK \<longrightarrow> B' = B" "scalar_type t"
  shows "mSize B' = mSize B \<and> stands_for B' (if e = SHARED_BLOCK_OK then put_cell r c (t, le_enc 8 w) G else G)"
proof (cases "e = SHARED_BLOCK_OK")
  case True
  then show ?thesis using scalar_put_grid [OF assms(1) _ _ assms(4) refl] assms(2) by simp
qed (use assms in simp)

lemma PutLong_cases:
  assumes "Block_PutLong r c w B = (e, B')"
  shows "e = SHARED_BLOCK_OK \<longrightarrow> r < rowNums (mData B) \<and> c < columnNums (mData B)
      \<and> B' = B\<lparr>mData := store 8 (cell_addr r c (mData B) + 4) (unat w)
          (store 4 (cell_addr r c (mData B)) CELL_UNIT_TYPE_INTEGER (mData B))\<rparr>"
    "e \<noteq> SHARED_BLOCK_OK \<longrightarrow> B' = B"
  using assms by (auto simp: Block_PutLong_def Let_def block_status split: if_splits)

lemma PutDouble_cases:
  assumes "Block_PutDouble r c w B = (e, B')"
  shows "e = SHARED_BLOCK_OK \<longrightarrow> r < rowNums (mData B) \<and> c < columnNums (mData B)
      \<and> B' = B\<lparr>mData := store 8 (cell_addr r c (mData B) + 4) (unat w)
          (store 4 (cell_addr r c (mData B)) CELL_UNIT_TYPE_FLOAT (mData B))\<rparr>"
    "e \<noteq> SHARED_BLOCK_OK \<longrightarrow> B' = B"
  using assms by (auto simp: Block_PutDouble_def Let_def block_status split: if_splits)

lemma scalar_types [simp]:
  "scalar_type CELL_UNIT_TYPE_INTEGER" "scalar_type CELL_UNIT_TYPE_FLOAT" "\<not> scalar_type CELL_UNIT_TYPE_STRING"
  "\<not> scalar_type CELL_UNIT_TYPE_BLOB" "\<not> scalar_type CELL_UNIT_TYPE_ASSET" "\<not> scalar_type CELL_UNIT_TYPE_ASSETS"
  "\<not> scalar_type CELL_UNIT_TYPE_FLOATS" "\<not> scalar_type CELL_UNIT_TYPE_BIGINT" "\<not> scalar_type CELL_UNIT_TYPE_NULL"
  by (simp_all add: scalar_type_def)

lemmas bytes_puts = Block_PutString_def Block_PutBlob_def Block_PutAsset_def Block_PutAssets_def
  Block_PutFloats_def Block_PutBigInt_def

lemma stands_for_size: "stands_for B G \<Longrightarrow> HEADER_SIZE + GROUP_SIZE \<le> mSize B \<and> mSize B \<le> 2 ^ 31"
  unfolding stands_for_def using layoutD(1-3) by (metis le_trans)

lemma block_step_refines:
  assumes "stands_for B G" "op_ok x" "block_exec x B = (e, B')"
  shows "mSize B' = mSize B \<and> stands_for B' (if e = SHARED_BLOCK_OK then grid_exec x G else G)"
proof -
  have bytes: "mSize B' = mSize B \<and> stands_for B' (if e = SHARED_BLOCK_OK then put_cell r c (t, the v) G else G)"
    if "PutBlobOrString r c v t B = (e, B')" "small_value v" "\<not> scalar_type t" "t < 2 ^ 32" for r c v t
    by (rule PutBytes_grid [OF assms(1) that(1,3,4)]) (use that(2) in \<open>simp add: small_value_def\<close>)
  show ?thesis
  proof (cases x)
    case B_Clear
    have "\<not> mReadOnly B" using assms(1) by (simp add: stands_for_def)
    then show ?thesis
      using Clear_empty [of B] stands_for_size [OF assms(1)] assms(3) B_Clear by (metis block_exec.simps(1) fst_conv grid_exec.simps(1) snd_conv)
  next
    case (B_PutLong r c w)
    then show ?thesis
      using scalar_op_grid [OF assms(1) PutLong_cases [of r c w B e B'] scalar_types(1)] assms(3)
      by (cases "e = SHARED_BLOCK_OK") (simp_all del: One_nat_def)
  next
    case (B_PutDouble r c w)
    then show ?thesis
      using scalar_op_grid [OF assms(1) PutDouble_cases [of r c w B e B'] scalar_types(2)] assms(3)
      by (cases "e = SHARED_BLOCK_OK") simp_all
  next
    case B_FreeLastRow
    then show ?thesis using FreeLastRow_grid [OF assms(1)] assms(3) by (auto simp: FreeLastRow_def)
  next
    case (B_SetColumnNum n)
    then show ?thesis
      using SetColumnNum_grid [OF assms(1), of n e B'] assms(2,3) by (cases "e = SHARED_BLOCK_OK") simp_all
  next
    case B_AllocRow
    then show ?thesis using AllocRow_grid [OF assms(1), of e B'] assms(3) by (cases "e = SHARED_BLOCK_OK") simp_all
  next
    case (B_PutNull r c)
    then show ?thesis using PutNull_grid [OF assms(1), of r c e B'] assms(3) by (cases "e = SHARED_BLOCK_OK") simp_all
  qed (use assms(2,3) bytes in \<open>simp_all only: bytes_puts op_ok.simps block_exec.simps grid_exec.simps scalar_types\<close>, simp_all)
qed

lemma block_run_Cons:
  "block_run (x # ops) (B, G) =
     block_run ops (snd (block_exec x B), if fst (block_exec x B) = SHARED_BLOCK_OK then grid_exec x G else G)"
  by (simp add: block_run_def block_step_def case_prod_unfold)

lemma block_run_refines:
  "stands_for B G \<Longrightarrow> list_all op_ok ops \<Longrightarrow> block_run ops (B, G) = (B', G') \<Longrightarrow>
     mSize B' = mSize B \<and> stands_for B' G'"
proof (induction ops arbitrary: B G)
  case (Cons x ops)
  obtain e B1 where x: "block_exec x B = (e, B1)" by (cases "block_exec x B")
  let ?G1 = "if e = SHARED_BLOCK_OK then grid_exec x G else G"
  have "mSize B1 = mSize B \<and> stands_for B1 ?G1"
    using block_step_refines [OF Cons.prems(1) _ x] Cons.prems(2) by simp
  moreover have "block_run ops (B1, ?G1) = (B', G')"
    using Cons.prems(3) x unfolding block_run_Cons by simp
  ultimately show ?case using Cons.IH [of B1 ?G1] Cons.prems(2) by simp
qed (simp add: block_run_def)

text \<open>No operation writes outside of the block.\<close>

lemma cell_in_block:
  assumes "layout own sz m" "r < rowNums m" "c < columnNums m"
  shows "cell_addr r c m + CELL_SIZE \<le> sz"
proof -
  have "own (cell_addr r c m + 11) = Row r" by (rule cell_owner [OF assms]) simp_all
  then have "cell_addr r c m + 11 < unusedOffset m" using below_unused [OF assms(1)] by simp
  then show ?thesis using layoutD(2) [OF assms(1)] by simp
qed

lemma PutBytes_in_block:
  assumes "stands_for B G" "PutBlobOrString r c val t B = (e, B')" "small_value val" "mSize B \<le> i"
  shows "mData B' i = mData B i"
proof (cases "\<exists>bs. val = Some bs \<and> r < rowNums (mData B) \<and> c < columnNums (mData B)
    \<and> u32 (unusedOffset (mData B) + length bs) \<le> mSize B")
  case False
  then have "B' = B"
    using assms(2) by (cases val) (auto simp: PutBlobOrString_def Let_def split: if_splits)
  then show ?thesis by simp
next
  case True
  then obtain bs where bs: "val = Some bs" "r < rowNums (mData B)" "c < columnNums (mData B)"
    "u32 (unusedOffset (mData B) + length bs) \<le> mSize B" by blast
  obtain own where L: "layout own (mSize B) (mData B)" using assms(1) by (auto simp: stands_for_def)
  have len: "length bs \<le> RSIZE_MAX" using assms(3) bs(1) by (simp add: small_value_def)
  then have "u32 (unusedOffset (mData B) + length bs) = unusedOffset (mData B) + length bs"
    using layoutD(2,3) [OF L] by (intro u32_id) simp
  then show ?thesis
    using assms(2,4) bs len cell_in_block [OF L bs(2,3)] layoutD(1,2) [OF L]
    by (auto simp: PutBlobOrString_def Let_def memcpy_outside store_outside)
qed

lemma AllocRow_in_block:
  assumes "stands_for B G" "AllocRow B = (e, B')" "mSize B \<le> i"
  shows "mData B' i = mData B i"
proof -
  obtain own where L: "layout own (mSize B) (mData B)" and C: "cells own (mData B) G"
    using assms(1) by (auto simp: stands_for_def)
  from L C show ?thesis
  proof (cases rule: AllocRowOffset_cases)
    case (full own1 B1)
    then show ?thesis using assms(2,3) by (simp add: AllocRow_def)
  next
    case (slot own1 m1 n)
    have ng: "n div 128 < GROUP_NUM" using slot(2) by (simp add: less_mult_imp_div_less)
    let ?slot = "groupOffset (n div 128) m1 + 4 * (n mod 128)"
    have "own1 (?slot + 3) = Grp (n div 128)" by (rule slot_owner [OF slot(4) ng slot(3)]) simp_all
    then have "?slot + 3 < unusedOffset m1" using below_unused [OF slot(4)] by simp
    then have s: "?slot + 4 \<le> mSize B" using layoutD(2) [OF slot(4)] by simp
    show ?thesis
      using assms(2,3) slot(6,7) s layoutD(1,2) [OF slot(4)]
      by (auto simp: AllocRow_def Alloc_def Let_def store_outside split: if_splits)
  qed
qed

lemma block_exec_in_block:
  assumes "stands_for B G" "op_ok x" "block_exec x B = (e, B')" "mSize B \<le> i"
  shows "mData B' i = mData B i"
proof -
  obtain own where L: "layout own (mSize B) (mData B)" using assms(1) by (auto simp: stands_for_def)
  have i: "1048 \<le> i" using layoutD(1,2) [OF L] assms(4) by simp
  note cell = cell_in_block [OF L]
  have scalar: "store 8 (cell_addr r c (mData B) + 4) w (store 4 (cell_addr r c (mData B)) t (mData B)) i = mData B i"
    if "r < rowNums (mData B)" "c < columnNums (mData B)" for r c w t
    using cell [OF that] assms(4) by (simp add: store_outside)
  have null: "store 4 (cell_addr r c (mData B) + 8) 0 (store 4 (cell_addr r c (mData B) + 4) 0
      (store 4 (cell_addr r c (mData B)) 0 (mData B))) i = mData B i"
    if "r < rowNums (mData B)" "c < columnNums (mData B)" for r c
    using cell [OF that] assms(4) by (simp add: store_outside)
  show ?thesis
  proof (cases x)
    case B_AllocRow
    then show ?thesis using AllocRow_in_block [OF assms(1)] assms(3,4) by simp
  qed (use assms(2-4) PutBytes_in_block [OF assms(1)] i scalar null in
      \<open>auto simp: bytes_puts Clear_block_def SetColumnNum_def FreeLastRow_def Block_PutLong_def Block_PutDouble_def
        Block_PutNull_def Let_def memcpy_outside store_outside split: if_splits\<close>)
qed

lemma block_run_in_block:
  "stands_for B G \<Longrightarrow> list_all op_ok ops \<Longrightarrow> block_run ops (B, G) = (B', G') \<Longrightarrow> mSize B \<le> i \<Longrightarrow>
     mData B' i = mData B i"
proof (induction ops arbitrary: B G)
  case (Cons x ops)
  obtain e B1 where x: "block_exec x B = (e, B1)" by (cases "block_exec x B")
  let ?G1 = "if e = SHARED_BLOCK_OK then grid_exec x G else G"
  have s: "mSize B1 = mSize B" "stands_for B1 ?G1"
    using block_step_refines [OF Cons.prems(1) _ x] Cons.prems(2) by simp_all
  have "block_run ops (B1, ?G1) = (B', G')"
    using Cons.prems(3) x unfolding block_run_Cons by simp
  then have "mData B' i = mData B1 i" using Cons.IH [OF s(2)] Cons.prems(2,4) s(1) by simp
  also have "\<dots> = mData B i" using block_exec_in_block [OF Cons.prems(1) _ x Cons.prems(4)] Cons.prems(2) by simp
  finally show ?case .
qed (simp add: block_run_def)

lemma stands_for_reads:
  assumes "stands_for B G" "r < g_rows G" "c < g_cols G" "g_cell G r c = Some v"
  shows "GetCellUnit r c B = Some (cell_addr r c (mData B))" "cell_view (cell_addr r c (mData B)) (mData B) = v"
proof -
  obtain own where C: "cells own (mData B) G" using assms(1) by (auto simp: stands_for_def)
  then have "r < rowNums (mData B)" "c < columnNums (mData B)" using assms(2,3) by (simp_all add: cells_def)
  with cellsD [OF C _ _ assms(4)]
  show "GetCellUnit r c B = Some (cell_addr r c (mData B))" "cell_view (cell_addr r c (mData B)) (mData B) = v"
    by (auto simp: GetCellUnit_def)
qed

lemma stands_for_bytes:
  assumes "stands_for B G" "r < g_rows G" "c < g_cols G" "g_cell G r c = Some (t, bs)" "\<not> scalar_type t"
  shows "cell_size (cell_addr r c (mData B)) (mData B) = length bs"
    "bytes_at (cell_offset (cell_addr r c (mData B)) (mData B)) (length bs) (mData B) = bs"
    "bs \<noteq> [] \<Longrightarrow> cell_offset (cell_addr r c (mData B)) (mData B) + length bs \<le> mSize B"
proof -
  obtain own where L: "layout own (mSize B) (mData B)" and C: "cells own (mData B) G"
    using assms(1) by (auto simp: stands_for_def)
  let ?a = "cell_addr r c (mData B)"
  have rc: "r < rowNums (mData B)" "c < columnNums (mData B)" using C assms(2,3) by (simp_all add: cells_def)
  note v = cellsD [OF C rc assms(4)]
  have t: "cell_type ?a (mData B) = t" and b: "bytes_at (cell_offset ?a (mData B)) (cell_size ?a (mData B)) (mData B) = bs"
    using v(1) assms(5) by (auto simp: cell_view_def split: if_splits)
  show s: "cell_size ?a (mData B) = length bs" using arg_cong [OF b, of length] by simp
  show "bytes_at (cell_offset ?a (mData B)) (length bs) (mData B) = bs" using b s by simp
  show "cell_offset ?a (mData B) + length bs \<le> mSize B" if "bs \<noteq> []"
  proof -
    let ?i = "cell_offset ?a (mData B) + (length bs - 1)"
    have all: "\<forall>i. cell_offset ?a (mData B) \<le> i \<longrightarrow> i < cell_offset ?a (mData B) + length bs \<longrightarrow> own i = Data"
      using v(2) t assms(5) s by (simp add: owned_bytes_def)
    have "own ?i = Data" using all [rule_format, of ?i] that by (cases bs) simp_all
    then have "?i < unusedOffset (mData B)" using below_unused [OF L] by simp
    then show ?thesis using layoutD(2) [OF L] that by simp
  qed
qed

lemma takeWhile_zero_append: "takeWhile (\<lambda>b. b \<noteq> 0) (xs @ 0 # ys) = takeWhile (\<lambda>b. b \<noteq> 0) (xs :: byte list)"
  by (induction xs) auto

text \<open>The positions of the header are no part of the grid.\<close>

lemma set_pos_stands:
  assumes "stands_for B G" "12 \<le> i" "i + 4 \<le> 24"
  shows "stands_for (B\<lparr>mData := store 4 i v (mData B)\<rparr>) G"
proof -
  obtain own where L: "layout own (mSize B) (mData B)" and C: "cells own (mData B) G" and ro: "\<not> mReadOnly B"
    using assms(1) by (auto simp: stands_for_def)
  let ?m = "store 4 i v (mData B)"
  have "unusedOffset ?m = unusedOffset (mData B)" "rowNums ?m = rowNums (mData B)" "columnNums ?m = columnNums (mData B)"
    "groupOffset g ?m = groupOffset g (mData B)" for g
    using assms(2,3) by (simp_all add: unusedOffset_def rowNums_def columnNums_def groupOffset_def load_store_other)
  moreover have "?m a = mData B a" if "own a \<noteq> Hdr" for a
    using above_header [OF L that] assms(3) by (simp add: store_outside)
  ultimately have "layout own (mSize B) ?m \<and> cells own ?m G"
    using layoutD(2,10) [OF L] by (intro frame [OF L C]) auto
  then show ?thesis using ro by (intro stands_forI [of _ own]) auto
qed

lemma set_positions:
  assumes "stands_for B G"
  shows "stands_for (SetStartPos p B) G" "stands_for (SetLastPos p B) G" "stands_for (SetBlockPos p B) G"
  using set_pos_stands [OF assms] by (simp_all add: SetStartPos_def SetLastPos_def SetBlockPos_def)

lemma position_selectors [simp]:
  "startPos (mData (SetStartPos p B)) = u32 p" "startPos (mData (SetLastPos p B)) = startPos (mData B)"
  "startPos (mData (SetBlockPos p B)) = startPos (mData B)" "lastPos (mData (SetStartPos p B)) = lastPos (mData B)"
  "lastPos (mData (SetLastPos p B)) = u32 p" "lastPos (mData (SetBlockPos p B)) = lastPos (mData B)"
  "blockPos (mData (SetStartPos p B)) = blockPos (mData B)" "blockPos (mData (SetLastPos p B)) = blockPos (mData B)"
  "blockPos (mData (SetBlockPos p B)) = u32 p" "mSize (SetStartPos p B) = mSize B" "mSize (SetLastPos p B) = mSize B"
  "mSize (SetBlockPos p B) = mSize B" "rowNums (mData (SetStartPos p B)) = rowNums (mData B)"
  "rowNums (mData (SetLastPos p B)) = rowNums (mData B)" "rowNums (mData (SetBlockPos p B)) = rowNums (mData B)"
  by (simp_all add: SetStartPos_def SetLastPos_def SetBlockPos_def startPos_def lastPos_def blockPos_def rowNums_def u32_def
      load_store_mod load_store_other)

text \<open>What the functions of a cell read of a block.\<close>

lemma stands_for_cell:
  assumes s: "stands_for B G" and rc: "r < g_rows G" "c < g_cols G" and a: "a = cell_addr r c (mData B)"
  shows "g_cell G r c = Some (t, bs) \<Longrightarrow> cell_type a (mData B) = t"
    "g_cell G r c = Some (t, bs) \<Longrightarrow> \<not> scalar_type t \<Longrightarrow> bs \<noteq> [] \<Longrightarrow>
       CellUnit_GetRawData a B = Some (cell_offset a (mData B)) \<and> bytes_at (cell_offset a (mData B)) (cell_size a (mData B)) (mData B) = bs"
    "g_cell G r c = Some (t, le_enc 8 (unat w)) \<Longrightarrow> scalar_type t \<Longrightarrow> cell_bits a (mData B) = w"
    "g_cell G r c = Some (CELL_UNIT_TYPE_BLOB, bs) \<Longrightarrow> CellUnit_GetBlob a B = Some bs"
    "g_cell G r c = Some (CELL_UNIT_TYPE_STRING, bs @ [0]) \<Longrightarrow> CellUnit_GetString a B = Some (takeWhile (\<lambda>b. b \<noteq> 0) bs)"
proof -
  let ?m = "mData B" let ?off = "cell_offset a ?m"
  note view = stands_for_reads(2) [OF s rc]
  show type: "cell_type a ?m = t" if "g_cell G r c = Some (t, bs)" for t bs
    using view [OF that] by (simp add: cell_view_def a)
  have ptr: "OffsetToPtr ?off (length xs) B = Some ?off"
    if "g_cell G r c = Some (t, xs)" "\<not> scalar_type t" "xs \<noteq> []" for t xs
    using stands_for_bytes(3) [OF s rc that] stands_for_size [OF s] by (simp add: OffsetToPtr_def u32_id a)
  show "CellUnit_GetRawData a B = Some ?off \<and> bytes_at ?off (cell_size a ?m) ?m = bs"
    if "g_cell G r c = Some (t, bs)" "\<not> scalar_type t" "bs \<noteq> []"
    using ptr [OF that] stands_for_bytes(1,2) [OF s rc that(1,2)] by (simp add: CellUnit_GetRawData_def a)
  show "cell_bits a ?m = w" if g: "g_cell G r c = Some (t, le_enc 8 (unat w))" "scalar_type t"
  proof -
    have "bytes_at (a + 4) 8 ?m = le_enc 8 (unat w)" using view [OF g(1)] g(2) by (auto simp: cell_view_def a)
    moreover have "unat w < 2 ^ LENGTH(64)" by (rule unsigned_less)
    ultimately have "load 8 (a + 4) ?m = unat w" by (simp add: load_def le_dec_enc)
    then show ?thesis by (simp add: cell_bits_def)
  qed
  show "CellUnit_GetBlob a B = Some bs" if "g_cell G r c = Some (CELL_UNIT_TYPE_BLOB, bs)"
    using stands_for_bytes(1,2) [OF s rc that] ptr [OF that]
    by (cases "bs = []") (auto simp: CellUnit_GetBlob_def OffsetToPtr_def Let_def a)
  show "CellUnit_GetString a B = Some (takeWhile (\<lambda>b. b \<noteq> 0) bs)" if g: "g_cell G r c = Some (CELL_UNIT_TYPE_STRING, bs @ [0])"
  proof -
    note b = stands_for_bytes [OF s rc g, folded a]
    have "?off + length (bs @ [0]) \<le> mSize B" using b(3) by simp
    then obtain k where "mSize B - ?off = length (bs @ [0]) + k" by (metis add_le_imp_le_diff add.commute le_Suc_ex)
    then have "bytes_at ?off (mSize B - ?off) ?m = bytes_at ?off (length (bs @ [0])) ?m
        @ bytes_at (?off + length (bs @ [0])) k ?m"
      using bytes_at_add by metis
    then obtain ys where ys: "bytes_at ?off (mSize B - ?off) ?m = bs @ 0 # ys" using b(2) by simp
    show ?thesis
      using b(1) ptr [OF g] ys by (simp add: CellUnit_GetString_def Let_def takeWhile_zero_append)
  qed
qed

section \<open>Properties\<close>

text \<open>
  C26: a shared block implements a grid of cells: after any sequence of operations, failed ones
  included, on a block of at least 1048 bytes and at most 2 GB, the block has the rows and columns
  of the grid that the successful operations build, and every cell that was put, and not freed or
  cleared since, reads back with its type and its bytes, whatever was put into the other cells.
\<close>

theorem shared_block_is_grid:
  assumes "\<not> mReadOnly B0" "HEADER_SIZE + GROUP_SIZE \<le> mSize B0" "mSize B0 \<le> 2 ^ 31" "list_all op_ok ops"
    and "block_run ops (Init_block B0, empty_grid) = (B, G)"
  shows "rowNums (mData B) = g_rows G \<and> columnNums (mData B) = g_cols G
    \<and> (\<forall>r < g_rows G. \<forall>c < g_cols G. \<forall>v. g_cell G r c = Some v \<longrightarrow>
         (\<exists>a. GetCellUnit r c B = Some a \<and> cell_view a (mData B) = v))"
proof -
  have s: "stands_for B G"
    using block_run_refines [OF _ assms(4,5)] Clear_empty [OF assms(1-3)] by (simp add: Init_block_def)
  then show ?thesis using stands_for_reads [OF s] by (auto simp: stands_for_def cells_def)
qed

theorem shared_block_is_grid_witness:
  "\<exists>B G. block_run [B_SetColumnNum 2, B_AllocRow, B_PutLong 0 1 7]
       (Init_block \<lparr>mData = (\<lambda>_. 0), mSize = 2048, mReadOnly = False\<rparr>, empty_grid) = (B, G)
     \<and> rowNums (mData B) = g_rows G"
proof -
  let ?B0 = "\<lparr>mData = (\<lambda>_. 0), mSize = 2048, mReadOnly = False\<rparr>"
  let ?ops = "[B_SetColumnNum 2, B_AllocRow, B_PutLong 0 1 7]"
  obtain B G where r: "block_run ?ops (Init_block ?B0, empty_grid) = (B, G)"
    by (cases "block_run ?ops (Init_block ?B0, empty_grid)")
  have "list_all op_ok ?ops" by simp
  from shared_block_is_grid [OF _ _ _ this r] r show ?thesis by auto
qed

text \<open>
  C27: no operation on a shared block, successful or not, writes outside the memory of the block.
\<close>

theorem shared_block_in_bounds:
  assumes "\<not> mReadOnly B0" "HEADER_SIZE + GROUP_SIZE \<le> mSize B0" "mSize B0 \<le> 2 ^ 31" "list_all op_ok ops"
    and "block_run ops (Init_block B0, empty_grid) = (B, G)" "mSize B0 \<le> i"
  shows "mData B i = mData B0 i"
proof -
  have c: "stands_for (Init_block B0) empty_grid" "mSize (Init_block B0) = mSize B0"
    using Clear_empty [OF assms(1-3)] by (simp_all add: Init_block_def)
  have "mData B i = mData (Init_block B0) i"
    using block_run_in_block [OF c(1) assms(4,5)] c(2) assms(6) by simp
  also have "\<dots> = mData B0 i"
    using assms(1,2,6) by (simp add: Init_block_def Clear_block_def Let_def memcpy_outside store_outside)
  finally show ?thesis .
qed

theorem shared_block_in_bounds_witness:
  "mData (fst (block_run [B_SetColumnNum 2, B_AllocRow, B_PutBlob 0 1 (Some [1, 2])]
     (Init_block \<lparr>mData = (\<lambda>_. 0), mSize = 2048, mReadOnly = False\<rparr>, empty_grid))) 2048 = 0"
proof -
  let ?B0 = "\<lparr>mData = (\<lambda>_. 0), mSize = 2048, mReadOnly = False\<rparr> :: shared_block"
  let ?ops = "[B_SetColumnNum 2, B_AllocRow, B_PutBlob 0 1 (Some [1, 2])]"
  obtain B G where r: "block_run ?ops (Init_block ?B0, empty_grid) = (B, G)"
    by (cases "block_run ?ops (Init_block ?B0, empty_grid)")
  have "list_all op_ok ?ops" by (simp add: small_value_def)
  from shared_block_in_bounds [OF _ _ _ this r, of 2048] r show ?thesis by simp
qed

text \<open>
  A blob that was put reads back whole, and a string, which is put with its terminating zero,
  reads back up to its first zero byte: exactly the texts without an embedded zero survive.
\<close>

lemma shared_block_text_and_blob:
  assumes "\<not> mReadOnly B0" "HEADER_SIZE + GROUP_SIZE \<le> mSize B0" "mSize B0 \<le> 2 ^ 31" "list_all op_ok ops"
    and "block_run ops (Init_block B0, empty_grid) = (B, G)" "r < g_rows G" "c < g_cols G"
  shows "(g_cell G r c = Some (CELL_UNIT_TYPE_BLOB, bs) \<longrightarrow>
      (\<exists>a. GetCellUnit r c B = Some a \<and> CellUnit_GetBlob a B = Some bs))
    \<and> (g_cell G r c = Some (CELL_UNIT_TYPE_STRING, bs @ [0]) \<longrightarrow>
      (\<exists>a. GetCellUnit r c B = Some a \<and> CellUnit_GetString a B = Some (takeWhile (\<lambda>b. b \<noteq> 0) bs)))"
proof -
  have s: "stands_for B G"
    using block_run_refines [OF _ assms(4,5)] Clear_empty [OF assms(1-3)] by (simp add: Init_block_def)
  show ?thesis using stands_for_cell(4,5) [OF s assms(6,7) refl] stands_for_reads(1) [OF s assms(6,7)] by blast
qed

lemma Clear_header:
  assumes "\<not> mReadOnly B"
  shows "unusedOffset (mData (snd (Clear_block B))) = 1048" "rowNums (mData (snd (Clear_block B))) = 0"
    "columnNums (mData (snd (Clear_block B))) = 0" "groupOffset 0 (mData (snd (Clear_block B))) = 536"
  using assms
  by (simp_all add: Clear_block_def Let_def unusedOffset_def rowNums_def columnNums_def groupOffset_def
      load_store_other load_memcpy_other load_store)

end
