(* ===== verification/Block_Filling.thy ===== *)
theory Block_Filling
  imports Sqlite_Api Shared_Block
begin

text \<open>
  Filling a block with the rows of a statement (\<open>share_block.cpp\<close>), without the shared-block
  extension of sqlite: \<open>FillSharedBlock\<close> steps the statement and copies each row into the block,
  moving the window of rows the block holds when it is full and the row asked for has not been
  reached. The block is an \<open>AbsSharedBlock\<close>, a record of operations here. What the loop needs of a
  block is the locale \<open>block_store\<close>, which \<open>SharedBlock\<close> satisfies.
\<close>

section \<open>Blocks\<close>

record 'b block_ops =
  b_Clear :: "'b \<Rightarrow> int \<times> 'b"
  b_SetColumnNum :: "nat \<Rightarrow> 'b \<Rightarrow> int \<times> 'b"
  b_AllocRow :: "'b \<Rightarrow> int \<times> 'b"
  b_FreeLastRow :: "'b \<Rightarrow> int \<times> 'b"
  b_PutBlob :: "nat \<Rightarrow> nat \<Rightarrow> byte list option \<Rightarrow> 'b \<Rightarrow> int \<times> 'b"
  b_PutString :: "nat \<Rightarrow> nat \<Rightarrow> byte list option \<Rightarrow> 'b \<Rightarrow> int \<times> 'b"
  b_PutAsset :: "nat \<Rightarrow> nat \<Rightarrow> byte list option \<Rightarrow> 'b \<Rightarrow> int \<times> 'b"
  b_PutAssets :: "nat \<Rightarrow> nat \<Rightarrow> byte list option \<Rightarrow> 'b \<Rightarrow> int \<times> 'b"
  b_PutFloats :: "nat \<Rightarrow> nat \<Rightarrow> byte list option \<Rightarrow> 'b \<Rightarrow> int \<times> 'b"
  b_PutBigInt :: "nat \<Rightarrow> nat \<Rightarrow> byte list option \<Rightarrow> 'b \<Rightarrow> int \<times> 'b"
  b_PutLong :: "nat \<Rightarrow> nat \<Rightarrow> 64 word \<Rightarrow> 'b \<Rightarrow> int \<times> 'b"
  b_PutDouble :: "nat \<Rightarrow> nat \<Rightarrow> 64 word \<Rightarrow> 'b \<Rightarrow> int \<times> 'b"
  b_PutNull :: "nat \<Rightarrow> nat \<Rightarrow> 'b \<Rightarrow> int \<times> 'b"

definition shared_block_ops :: "shared_block block_ops" where
  "shared_block_ops = \<lparr>b_Clear = Clear_block, b_SetColumnNum = SetColumnNum, b_AllocRow = AllocRow,
     b_FreeLastRow = FreeLastRow, b_PutBlob = Block_PutBlob, b_PutString = Block_PutString,
     b_PutAsset = Block_PutAsset, b_PutAssets = Block_PutAssets, b_PutFloats = Block_PutFloats,
     b_PutBigInt = Block_PutBigInt, b_PutLong = Block_PutLong, b_PutDouble = Block_PutDouble,
     b_PutNull = Block_PutNull\<rparr>"

datatype FillOneRowResult = FILL_ONE_ROW_SUCESS | SHARED_BLOCK_IS_FULL | FILL_ONE_ROW_FAIL

record 'b block_info =
  bi_sharedBlock :: "'b option"
  bi_startPos :: int
  bi_addedRows :: int
  bi_requiredPos :: int
  bi_totalRows :: int
  bi_isCountAllRows :: bool
  bi_columnNum :: int
  bi_isFull :: bool
  bi_hasException :: bool

definition SharedBlockInfo_new :: "'b option \<Rightarrow> 'b block_info" where
  "SharedBlockInfo_new sharedBlock = \<lparr>bi_sharedBlock = sharedBlock, bi_startPos = 0, bi_addedRows = 0,
     bi_requiredPos = 0, bi_totalRows = 0, bi_isCountAllRows = False, bi_columnNum = 0, bi_isFull = False,
     bi_hasException = False\<rparr>"

section \<open>One row\<close>

text \<open>The status of a put as the result of filling a cell.\<close>

definition put_result :: "int \<times> 'b \<Rightarrow> FillOneRowResult \<times> 'b" where
  "put_result sb = (if fst sb \<noteq> SHARED_BLOCK_OK then SHARED_BLOCK_IS_FULL else FILL_ONE_ROW_SUCESS, snd sb)"

definition FillOneRowOfString ::
    "('d, 't) sqlite3 \<Rightarrow> 'b block_ops \<Rightarrow> 't \<Rightarrow> int \<Rightarrow> nat \<Rightarrow> 'b \<Rightarrow> FillOneRowResult \<times> 'b" where
  "FillOneRowOfString Q W t addedRows pos b =
     (case sqlite3_column_text Q t (int pos) of
        None \<Rightarrow> (SHARED_BLOCK_IS_FULL, b)
      | Some str \<Rightarrow>
          (let sizeIncludingNull = sqlite3_column_bytes Q t (int pos) + 1
           in put_result (b_PutString W (nat addedRows) pos (Some (take (nat sizeIncludingNull) (to_bytes str @ [0]))) b)))"

definition FillOneRowOfLong ::
    "('d, 't) sqlite3 \<Rightarrow> 'b block_ops \<Rightarrow> 't \<Rightarrow> int \<Rightarrow> nat \<Rightarrow> 'b \<Rightarrow> FillOneRowResult \<times> 'b" where
  "FillOneRowOfLong Q W t addedRows pos b =
     put_result (b_PutLong W (nat addedRows) pos (sqlite3_column_int64 Q t (int pos)) b)"

definition FillOneRowOfFloat ::
    "('d, 't) sqlite3 \<Rightarrow> 'b block_ops \<Rightarrow> 't \<Rightarrow> int \<Rightarrow> nat \<Rightarrow> 'b \<Rightarrow> FillOneRowResult \<times> 'b" where
  "FillOneRowOfFloat Q W t addedRows pos b =
     put_result (b_PutDouble W (nat addedRows) pos (sqlite3_column_double Q t (int pos)) b)"

definition blob_action :: "'b block_ops \<Rightarrow> string option \<Rightarrow> nat \<Rightarrow> nat \<Rightarrow> byte list option \<Rightarrow> 'b \<Rightarrow> int \<times> 'b" where
  "blob_action W declType =
     (case declType of
        None \<Rightarrow> b_PutBlob W
      | Some decl \<Rightarrow>
          (let type = TruncateAfterFirstParen (StrToUpper decl)
           in if type = DECL_ASSET then b_PutAsset W
              else if type = DECL_ASSETS then b_PutAssets W
              else if type = DECL_FLOATS then b_PutFloats W
              else if type = DECL_BIGINT then b_PutBigInt W
              else b_PutBlob W))"

definition FillOneRowOfBlob ::
    "('d, 't) sqlite3 \<Rightarrow> 'b block_ops \<Rightarrow> 't \<Rightarrow> int \<Rightarrow> nat \<Rightarrow> 'b \<Rightarrow> FillOneRowResult \<times> 'b" where
  "FillOneRowOfBlob Q W t addedRows pos b =
     (let action = blob_action W (sqlite3_column_decltype Q t (int pos));
          blob = sqlite3_column_blob Q t (int pos);
          sz = sqlite3_column_bytes Q t (int pos)
      in put_result (action (nat addedRows) pos (map_option (take (nat sz)) blob) b))"

definition FillOneRowOfNull :: "'b block_ops \<Rightarrow> int \<Rightarrow> nat \<Rightarrow> 'b \<Rightarrow> FillOneRowResult \<times> 'b" where
  "FillOneRowOfNull W addedRows pos b = put_result (b_PutNull W (nat addedRows) pos b)"

fun FillOneRow_loop ::
    "('d, 't) sqlite3 \<Rightarrow> 'b block_ops \<Rightarrow> 't \<Rightarrow> int \<Rightarrow> nat \<Rightarrow> nat \<Rightarrow> FillOneRowResult \<Rightarrow> 'b \<Rightarrow> FillOneRowResult \<times> 'b" where
  "FillOneRow_loop Q W t addedRows 0 i result b = (result, b)"
| "FillOneRow_loop Q W t addedRows (Suc m) i result b =
     (let type = sqlite3_column_type Q t (int i)
      in if type \<notin> {SQLITE_TEXT, SQLITE_INTEGER, SQLITE_FLOAT, SQLITE_BLOB, SQLITE_NULL} then (FILL_ONE_ROW_FAIL, b)
         else
           (let (result1, b1) =
                  (if type = SQLITE_TEXT then FillOneRowOfString Q W t addedRows i b
                   else if type = SQLITE_INTEGER then FillOneRowOfLong Q W t addedRows i b
                   else if type = SQLITE_FLOAT then FillOneRowOfFloat Q W t addedRows i b
                   else if type = SQLITE_BLOB then FillOneRowOfBlob Q W t addedRows i b
                   else FillOneRowOfNull W addedRows i b)
            in if result1 = SHARED_BLOCK_IS_FULL then (result1, b1)
               else FillOneRow_loop Q W t addedRows m (Suc i) result1 b1))"

definition FillOneRow ::
    "('d, 't) sqlite3 \<Rightarrow> 'b block_ops \<Rightarrow> 't \<Rightarrow> int \<Rightarrow> int \<Rightarrow> 'b \<Rightarrow> FillOneRowResult \<times> 'b" where
  "FillOneRow Q W t numColumns addedRows b =
     (let (status, b1) = b_AllocRow W b
      in if status \<noteq> SHARED_BLOCK_OK then (SHARED_BLOCK_IS_FULL, b1)
         else
           (let (result, b2) = FillOneRow_loop Q W t addedRows (nat numColumns) 0 FILL_ONE_ROW_SUCESS b1
            in (result, if result \<noteq> FILL_ONE_ROW_SUCESS then snd (b_FreeLastRow W b2) else b2)))"

section \<open>All rows\<close>

definition FillRow :: "('d, 't) sqlite3 \<Rightarrow> 'b block_ops \<Rightarrow> 't \<Rightarrow> 'b \<Rightarrow> 'b block_info \<Rightarrow> 'b block_info" where
  "FillRow Q W t b info =
     (let (result, b1) = FillOneRow Q W t (bi_columnNum info) (bi_addedRows info) b;
          (result2, info2) =
            (if result = SHARED_BLOCK_IS_FULL \<and> bi_addedRows info \<noteq> 0
                \<and> bi_startPos info + bi_addedRows info \<le> bi_requiredPos info
             then
               (let b2 = snd (b_Clear W b1);
                    b3 = snd (b_SetColumnNum W (nat (bi_columnNum info)) b2);
                    infoA = info\<lparr>bi_startPos := bi_startPos info + bi_addedRows info, bi_addedRows := 0\<rparr>;
                    (resultA, b4) = FillOneRow Q W t (bi_columnNum infoA) (bi_addedRows infoA) b3
                in (resultA, infoA\<lparr>bi_sharedBlock := Some b4\<rparr>))
             else (result, info\<lparr>bi_sharedBlock := Some b1\<rparr>))
      in if result2 = FILL_ONE_ROW_SUCESS then info2\<lparr>bi_addedRows := bi_addedRows info2 + 1\<rparr>
         else if result2 = SHARED_BLOCK_IS_FULL then info2\<lparr>bi_isFull := True\<rparr>
         else info2\<lparr>bi_hasException := True\<rparr>)"

definition DefFillRow :: "'b block_info \<Rightarrow> 'b block_info" where
  "DefFillRow info = info\<lparr>bi_isFull := True\<rparr>"

definition fill_row :: "('d, 't) sqlite3 \<Rightarrow> 'b block_ops \<Rightarrow> 't \<Rightarrow> 'b block_info \<Rightarrow> 'b block_info" where
  "fill_row Q W t info =
     (case bi_sharedBlock info of None \<Rightarrow> DefFillRow info | Some b \<Rightarrow> FillRow Q W t b info)"

partial_function (option) FillSharedBlock_loop ::
    "('d, 't) sqlite3 \<Rightarrow> 'b block_ops \<Rightarrow> int \<Rightarrow> int \<Rightarrow> bool \<Rightarrow> bool \<Rightarrow> 'b block_info \<Rightarrow> 't \<Rightarrow>
     (int \<times> 'b block_info \<times> 't) option" where
  "FillSharedBlock_loop Q W retryTime retryCount isFull hasException info t =
     (if hasException \<or> (isFull \<and> \<not> bi_isCountAllRows info) then Some (E_OK, info, t)
      else
        (let (err, t1) = sqlite3_step Q t
         in if err = SQLITE_ROW
            then
              (let info1 = info\<lparr>bi_totalRows := bi_totalRows info + 1\<rparr>
               in if bi_startPos info1 \<ge> bi_totalRows info1 \<or> isFull
                  then FillSharedBlock_loop Q W retryTime 0 isFull hasException info1 t1
                  else
                    (let info2 = fill_row Q W t1 info1
                     in FillSharedBlock_loop Q W retryTime 0 (bi_isFull info2) (bi_hasException info2) info2 t1))
            else if err = SQLITE_DONE then Some (E_OK, info, t1)
            else if err = SQLITE_LOCKED \<or> err = SQLITE_BUSY
            then
              (if retryCount \<ge> retryTime then Some (E_DATABASE_BUSY, info, t1)
               else FillSharedBlock_loop Q W retryTime (retryCount + 1) isFull hasException info t1)
            else Some (GetRdbErrorCode err, info, t1)))"

definition FillSharedBlock ::
    "('d, 't) sqlite3 \<Rightarrow> 'b block_ops \<Rightarrow> int \<Rightarrow> 'b block_info \<Rightarrow> 't \<Rightarrow> (int \<times> 'b block_info \<times> 't) option" where
  "FillSharedBlock Q W retryTime info t =
     FillSharedBlock_loop Q W retryTime 0 False False (info\<lparr>bi_totalRows := 0, bi_addedRows := 0\<rparr>) t"

definition ResetStatement :: "('d, 't) sqlite3 \<Rightarrow> 'b block_info \<Rightarrow> 't \<Rightarrow> bool \<times> 't" where
  "ResetStatement Q info t =
     (\<not> (bi_isFull info \<and> bi_totalRows info > 0 \<and> bi_addedRows info = 0 \<and> bi_sharedBlock info \<noteq> None),
      snd (sqlite3_reset Q t))"

section \<open>What filling needs of a block\<close>

definition put_of :: "'b block_ops \<Rightarrow> nat \<Rightarrow> nat \<Rightarrow> nat \<Rightarrow> byte list option \<Rightarrow> 'b \<Rightarrow> int \<times> 'b" where
  "put_of W k =
     (if k = CELL_UNIT_TYPE_STRING then b_PutString W
      else if k = CELL_UNIT_TYPE_ASSET then b_PutAsset W
      else if k = CELL_UNIT_TYPE_ASSETS then b_PutAssets W
      else if k = CELL_UNIT_TYPE_FLOATS then b_PutFloats W
      else if k = CELL_UNIT_TYPE_BIGINT then b_PutBigInt W
      else b_PutBlob W)"

locale block_store =
  fixes W :: "'b block_ops" and stands :: "'b \<Rightarrow> grid \<Rightarrow> bool" and cleared :: "nat \<Rightarrow> 'b \<Rightarrow> bool"
  assumes cleared: "cleared n b \<Longrightarrow> stands b (empty_grid\<lparr>g_cols := n\<rparr>)"
    and clear: "stands b G \<Longrightarrow> n \<le> COL_MAX_NUM \<Longrightarrow> cleared n (snd (b_SetColumnNum W n (snd (b_Clear W b))))"
    and alloc: "stands b G \<Longrightarrow>
      stands (snd (b_AllocRow W b)) (if fst (b_AllocRow W b) = SHARED_BLOCK_OK then grid_exec B_AllocRow G else G)"
    and free: "stands b G \<Longrightarrow> stands (snd (b_FreeLastRow W b)) (grid_exec B_FreeLastRow G)"
    and bytes: "stands b G \<Longrightarrow> small_value v \<Longrightarrow> 3 \<le> k \<Longrightarrow> k \<le> 8 \<Longrightarrow>
      stands (snd (put_of W k r c v b)) (if fst (put_of W k r c v b) = SHARED_BLOCK_OK then put_cell r c (k, the v) G else G)"
    and null_pointer: "fst (put_of W k r c None b) \<noteq> SHARED_BLOCK_OK"
    and long: "stands b G \<Longrightarrow> stands (snd (b_PutLong W r c w b))
      (if fst (b_PutLong W r c w b) = SHARED_BLOCK_OK then grid_exec (B_PutLong r c w) G else G)"
    and double: "stands b G \<Longrightarrow> stands (snd (b_PutDouble W r c w b))
      (if fst (b_PutDouble W r c w b) = SHARED_BLOCK_OK then grid_exec (B_PutDouble r c w) G else G)"
    and null: "stands b G \<Longrightarrow> stands (snd (b_PutNull W r c b))
      (if fst (b_PutNull W r c b) = SHARED_BLOCK_OK then grid_exec (B_PutNull r c) G else G)"

text \<open>The kind of cell a blob column is put as, and a value as the bytes of its cell.\<close>

definition block_kind :: "string option \<Rightarrow> nat" where
  "block_kind declType =
     (case declType of
        None \<Rightarrow> CELL_UNIT_TYPE_BLOB
      | Some decl \<Rightarrow>
          (let type = TruncateAfterFirstParen (StrToUpper decl)
           in if type = DECL_ASSET then CELL_UNIT_TYPE_ASSET
              else if type = DECL_ASSETS then CELL_UNIT_TYPE_ASSETS
              else if type = DECL_FLOATS then CELL_UNIT_TYPE_FLOATS
              else if type = DECL_BIGINT then CELL_UNIT_TYPE_BIGINT
              else CELL_UNIT_TYPE_BLOB))"

fun cell_of :: "string option \<Rightarrow> sql_value \<Rightarrow> nat \<times> byte list" where
  "cell_of decl S_Null = (CELL_UNIT_TYPE_NULL, [])"
| "cell_of decl (S_Integer w) = (CELL_UNIT_TYPE_INTEGER, le_enc 8 (unat w))"
| "cell_of decl (S_Float d) = (CELL_UNIT_TYPE_FLOAT, le_enc 8 (unat d))"
| "cell_of decl (S_Text s) = (CELL_UNIT_TYPE_STRING, to_bytes s @ [0])"
| "cell_of decl (S_Blob b) = (block_kind decl, b)"

text \<open>sqlite holds no value of 2 GB.\<close>

fun small_sql :: "sql_value \<Rightarrow> bool" where
  "small_sql (S_Text s) \<longleftrightarrow> length s < RSIZE_MAX"
| "small_sql (S_Blob b) \<longleftrightarrow> length b \<le> RSIZE_MAX"
| "small_sql _ \<longleftrightarrow> True"

lemma blob_action_put: "blob_action W decl = put_of W (block_kind decl)"
  by (auto simp: blob_action_def put_of_def block_kind_def Let_def split: option.split)

lemma block_kind_range: "3 \<le> block_kind decl" "block_kind decl \<le> 8"
  by (auto simp: block_kind_def Let_def split: option.split)

definition fill_cell ::
    "('d, 't) sqlite3 \<Rightarrow> 'b block_ops \<Rightarrow> 't \<Rightarrow> int \<Rightarrow> nat \<Rightarrow> 'b \<Rightarrow> FillOneRowResult \<times> 'b" where
  "fill_cell Q W t addedRows i b =
     (let type = sqlite3_column_type Q t (int i)
      in if type = SQLITE_TEXT then FillOneRowOfString Q W t addedRows i b
         else if type = SQLITE_INTEGER then FillOneRowOfLong Q W t addedRows i b
         else if type = SQLITE_FLOAT then FillOneRowOfFloat Q W t addedRows i b
         else if type = SQLITE_BLOB then FillOneRowOfBlob Q W t addedRows i b
         else FillOneRowOfNull W addedRows i b)"

lemma column_type_known:
  "column_is Q t i v \<Longrightarrow>
     sqlite3_column_type Q t i \<in> {SQLITE_TEXT, SQLITE_INTEGER, SQLITE_FLOAT, SQLITE_BLOB, SQLITE_NULL}"
  by (cases v) auto

lemma FillOneRow_loop_Suc:
  assumes "column_is Q t (int i) v"
  shows "FillOneRow_loop Q W t addedRows (Suc m) i result b =
    (let (result1, b1) = fill_cell Q W t addedRows i b
     in if result1 = SHARED_BLOCK_IS_FULL then (result1, b1) else FillOneRow_loop Q W t addedRows m (Suc i) result1 b1)"
  using column_type_known [OF assms] by (auto simp: fill_cell_def Let_def)

lemma length_to_bytes [simp]: "length (to_bytes s) = length s"
  by (simp add: to_bytes_def)

context block_store
begin

lemma fill_cell_grid:
  assumes "stands b G" "column_is Q t (int i) v" "small_sql v"
  shows "\<exists>b1. (fill_cell Q W t a i b = (FILL_ONE_ROW_SUCESS, b1)
        \<and> stands b1 (put_cell (nat a) i (cell_of (sqlite3_column_decltype Q t (int i)) v) G))
      \<or> (fill_cell Q W t a i b = (SHARED_BLOCK_IS_FULL, b1) \<and> stands b1 G)"
proof (cases v)
  case S_Null
  then show ?thesis
    using assms null [OF assms(1), of "nat a" i]
    by (auto simp: fill_cell_def FillOneRowOfNull_def put_result_def)
next
  case (S_Integer w)
  then show ?thesis
    using assms long [OF assms(1), of "nat a" i w]
    by (auto simp: fill_cell_def FillOneRowOfLong_def put_result_def)
next
  case (S_Float w)
  then show ?thesis
    using assms double [OF assms(1), of "nat a" i w]
    by (auto simp: fill_cell_def FillOneRowOfFloat_def put_result_def)
next
  case (S_Text s)
  have "small_value (Some (to_bytes s @ [0]))" using assms(3) S_Text by (simp add: small_value_def)
  from bytes [OF assms(1) this, of 3 "nat a" i] S_Text assms(2) show ?thesis
    by (auto simp: fill_cell_def FillOneRowOfString_def put_result_def put_of_def nat_add_distrib Let_def)
next
  case (S_Blob bs)
  let ?k = "block_kind (sqlite3_column_decltype Q t (int i))"
  have "small_value (Some bs)" using assms(3) S_Blob by (simp add: small_value_def)
  from bytes [OF assms(1) this, of ?k "nat a" i] bytes [OF assms(1), of None ?k "nat a" i]
    block_kind_range [of "sqlite3_column_decltype Q t (int i)"] null_pointer [of ?k "nat a" i b] S_Blob assms(2)
  show ?thesis
    by (auto simp: fill_cell_def FillOneRowOfBlob_def blob_action_put put_result_def small_value_def Let_def)
qed

end

text \<open>
  Rows filled so far: the grid has the cells of these rows in its first rows.
\<close>

definition holds_rows :: "grid \<Rightarrow> nat \<Rightarrow> (nat \<Rightarrow> string option) \<Rightarrow> sql_value list list \<Rightarrow> bool" where
  "holds_rows G n decl rs \<longleftrightarrow> g_rows G = length rs \<and> g_cols G = n
     \<and> (\<forall>r < length rs. \<forall>c < n. g_cell G r c = Some (cell_of (decl c) (rs ! r ! c)))"

context block_store
begin

lemma FillOneRow_loop_grid:
  assumes "stands b G" "g_cols G = n" "a = int (g_rows G - 1)" "0 < g_rows G" "i + m = n"
    and "\<And>c. c < n \<Longrightarrow> column_is Q t (int c) (row ! c) \<and> small_sql (row ! c)"
    and "\<And>c. c < i \<Longrightarrow> g_cell G (g_rows G - 1) c = Some (cell_of (sqlite3_column_decltype Q t (int c)) (row ! c))"
  shows "\<exists>res b' G'. FillOneRow_loop Q W t a m i FILL_ONE_ROW_SUCESS b = (res, b') \<and> stands b' G'
    \<and> g_rows G' = g_rows G \<and> g_cols G' = n \<and> (\<forall>r < g_rows G - 1. g_cell G' r = g_cell G r)
    \<and> (res = FILL_ONE_ROW_SUCESS \<and>
        (\<forall>c < n. g_cell G' (g_rows G - 1) c = Some (cell_of (sqlite3_column_decltype Q t (int c)) (row ! c)))
       \<or> res = SHARED_BLOCK_IS_FULL)"
  using assms
proof (induction m arbitrary: i b G)
  case 0
  then show ?case by auto
next
  case (Suc m)
  have i: "i < n" using Suc.prems(5) by simp
  note col = Suc.prems(6) [OF i]
  let ?v = "cell_of (sqlite3_column_decltype Q t (int i)) (row ! i)"
  have na: "nat a = g_rows G - 1" using Suc.prems(3) by simp
  note step = FillOneRow_loop_Suc [OF conjunct1 [OF col], of W a m FILL_ONE_ROW_SUCESS b]
  from fill_cell_grid [OF Suc.prems(1) conjunct1 [OF col] conjunct2 [OF col], of a]
  consider (ok) b1 where "fill_cell Q W t a i b = (FILL_ONE_ROW_SUCESS, b1)" "stands b1 (put_cell (nat a) i ?v G)"
    | (full) b1 where "fill_cell Q W t a i b = (SHARED_BLOCK_IS_FULL, b1)" "stands b1 G"
    by blast
  then show ?case
  proof cases
    case ok
    let ?G = "put_cell (nat a) i ?v G"
    have "\<exists>res b' G'. FillOneRow_loop Q W t a m (Suc i) FILL_ONE_ROW_SUCESS b1 = (res, b') \<and> stands b' G'
      \<and> g_rows G' = g_rows ?G \<and> g_cols G' = n \<and> (\<forall>r < g_rows ?G - 1. g_cell G' r = g_cell ?G r)
      \<and> (res = FILL_ONE_ROW_SUCESS \<and>
          (\<forall>c < n. g_cell G' (g_rows ?G - 1) c = Some (cell_of (sqlite3_column_decltype Q t (int c)) (row ! c)))
         \<or> res = SHARED_BLOCK_IS_FULL)"
    proof (rule Suc.IH [OF ok(2)])
      show "g_cell ?G (g_rows ?G - 1) c = Some (cell_of (sqlite3_column_decltype Q t (int c)) (row ! c))" if "c < Suc i" for c
        using that Suc.prems(7) [of c] na by (auto simp: less_Suc_eq)
    qed (use Suc.prems in simp_all)
    then show ?thesis using na unfolding step ok(1) by simp
  next
    case full
    then show ?thesis using Suc.prems(2) unfolding step full(1) by auto
  qed
qed

lemma FillOneRow_grid:
  assumes "stands b G" "holds_rows G n (\<lambda>c. sqlite3_column_decltype Q t (int c)) rs" "a = int (length rs)"
    and "\<And>c. c < n \<Longrightarrow> column_is Q t (int c) (row ! c) \<and> small_sql (row ! c)"
  shows "\<exists>res b' G'. FillOneRow Q W t (int n) a b = (res, b') \<and> stands b' G'
    \<and> (res = FILL_ONE_ROW_SUCESS \<and> holds_rows G' n (\<lambda>c. sqlite3_column_decltype Q t (int c)) (rs @ [row])
       \<or> res = SHARED_BLOCK_IS_FULL \<and> holds_rows G' n (\<lambda>c. sqlite3_column_decltype Q t (int c)) rs)"
proof -
  obtain e b1 where A: "b_AllocRow W b = (e, b1)" by (cases "b_AllocRow W b")
  let ?d = "\<lambda>c. sqlite3_column_decltype Q t (int c)"
  show ?thesis
  proof (cases "e = SHARED_BLOCK_OK")
    case False
    then have "stands b1 G" using alloc [OF assms(1)] A by simp
    then show ?thesis using A False assms(2) by (auto simp: FillOneRow_def)
  next
    case True
    let ?G = "grid_exec B_AllocRow G"
    have G: "stands b1 ?G" using alloc [OF assms(1)] A True by simp
    have g: "g_rows ?G = length rs + 1" "g_cols ?G = n" using assms(2) by (simp_all add: holds_rows_def)
    obtain res b2 G2 where L: "FillOneRow_loop Q W t a n 0 FILL_ONE_ROW_SUCESS b1 = (res, b2)" "stands b2 G2"
      "g_rows G2 = length rs + 1" "g_cols G2 = n" "\<forall>r < length rs. g_cell G2 r = g_cell ?G r"
      "res = FILL_ONE_ROW_SUCESS \<and> (\<forall>c < n. g_cell G2 (length rs) c = Some (cell_of (?d c) (row ! c)))
         \<or> res = SHARED_BLOCK_IS_FULL"
      using FillOneRow_loop_grid [OF G g(2), of a 0 n Q t row] g assms(3,4) by auto
    have old: "g_cell G2 r c = Some (cell_of (?d c) (rs ! r ! c))" if "r < length rs" "c < n" for r c
      using L(5) assms(2) that by (simp add: holds_rows_def)
    from L(6) show ?thesis
    proof
      assume ok: "res = FILL_ONE_ROW_SUCESS \<and> (\<forall>c < n. g_cell G2 (length rs) c = Some (cell_of (?d c) (row ! c)))"
      then have "holds_rows G2 n ?d (rs @ [row])"
        using L(3,4) old by (auto simp: holds_rows_def nth_append less_Suc_eq)
      moreover have "FillOneRow Q W t (int n) a b = (res, b2)" using A True L(1) ok by (simp add: FillOneRow_def)
      ultimately show ?thesis using L(2) ok by blast
    next
      assume full: "res = SHARED_BLOCK_IS_FULL"
      have "FillOneRow Q W t (int n) a b = (res, snd (b_FreeLastRow W b2))"
        using A True L(1) full by (simp add: FillOneRow_def)
      moreover have "stands (snd (b_FreeLastRow W b2)) (grid_exec B_FreeLastRow G2)" by (rule free [OF L(2)])
      moreover have "holds_rows (grid_exec B_FreeLastRow G2) n ?d rs"
        using L(3,4) old by (simp add: holds_rows_def)
      ultimately show ?thesis using full by blast
    qed
  qed
qed

end

section \<open>The window of rows\<close>

text \<open>
  While the block is filled it holds the rows from \<open>startPos\<close> on, \<open>addedRows\<close> many. \<open>T\<close> rows have
  been stepped, \<open>k\<close> is the start that was asked for. A full block is not followed by further rows;
  a block that is not full has all the rows from \<open>startPos\<close> to the current one. A row is \<open>stuck\<close> when
  it does not fit into a block that was just cleared.
\<close>

definition window_inv ::
    "('b \<Rightarrow> grid \<Rightarrow> bool) \<Rightarrow> (nat \<Rightarrow> 'b \<Rightarrow> bool) \<Rightarrow> (nat \<Rightarrow> bool) \<Rightarrow> nat \<Rightarrow> (nat \<Rightarrow> string option) \<Rightarrow> sql_value list list \<Rightarrow> nat \<Rightarrow> nat \<Rightarrow>
     'b block_info \<Rightarrow> bool" where
  "window_inv stands cleared stuck n decl rows k T info \<longleftrightarrow>
     (\<exists>b G s a. bi_sharedBlock info = Some b \<and> stands b G \<and> holds_rows G n decl (take a (drop s rows))
        \<and> bi_startPos info = int s \<and> bi_addedRows info = int a \<and> bi_columnNum info = int n
        \<and> bi_totalRows info = int T \<and> \<not> bi_hasException info
        \<and> k \<le> s \<and> (s = k \<or> int s \<le> bi_requiredPos info) \<and> (a = 0 \<and> \<not> bi_isFull info \<longrightarrow> cleared n b)
        \<and> (if bi_isFull info then s + a < T \<and> (if a = 0 then stuck s else bi_requiredPos info < int (s + a))
           else if T \<le> s then a = 0 else s + a = T))"

lemma holds_rows_cong:
  "(\<And>c. c < n \<Longrightarrow> d c = d' c) \<Longrightarrow> holds_rows G n d rs = holds_rows G n d' rs"
  by (simp add: holds_rows_def)

lemma take_drop_snoc: "s + a < length xs \<Longrightarrow> take a (drop s xs) @ [xs ! (s + a)] = take (Suc a) (drop s xs)"
  by (simp add: take_Suc_conv_app_nth)

context block_store
begin

lemma FillOneRow_window:
  assumes "stands b G" "holds_rows G n decl (take a (drop s rows))" "s + a < length rows" "i = int a" "m = int n"
    and col: "\<And>c. c < n \<Longrightarrow> column_is Q t (int c) (rows ! (s + a) ! c) \<and> small_sql (rows ! (s + a) ! c)"
    and decl: "\<And>c. c < n \<Longrightarrow> sqlite3_column_decltype Q t (int c) = decl c"
  shows "\<exists>res b' G'. FillOneRow Q W t m i b = (res, b') \<and> stands b' G'
    \<and> (res = FILL_ONE_ROW_SUCESS \<and> holds_rows G' n decl (take (Suc a) (drop s rows))
       \<or> res = SHARED_BLOCK_IS_FULL \<and> holds_rows G' n decl (take a (drop s rows)))"
proof -
  let ?d = "\<lambda>c. sqlite3_column_decltype Q t (int c)"
  have d: "holds_rows H n ?d rs = holds_rows H n decl rs" for H rs by (rule holds_rows_cong) (simp add: decl)
  have "int a = int (length (take a (drop s rows)))" using assms(3) by simp
  from FillOneRow_grid [OF assms(1) assms(2) [folded d] this col]
  show ?thesis unfolding d take_drop_snoc [OF assms(3)] assms(4,5) by blast
qed

lemma FillRow_window:
  assumes "stands b G" "holds_rows G n decl (take a (drop s rows))" "s + a < length rows" "n \<le> COL_MAX_NUM"
    and "\<And>c. c < n \<Longrightarrow> column_is Q t (int c) (rows ! (s + a) ! c) \<and> small_sql (rows ! (s + a) ! c)"
    and "\<And>c. c < n \<Longrightarrow> sqlite3_column_decltype Q t (int c) = decl c"
    and stuck: "a = 0 \<longrightarrow> cleared n b" "\<forall>b. cleared n b \<and> fst (FillOneRow Q W t (int n) 0 b) = SHARED_BLOCK_IS_FULL \<longrightarrow> stuck (s + a)"
    and i: "bi_startPos info = int s" "bi_addedRows info = int a" "bi_columnNum info = int n"
  shows "\<exists>b' G' s' a' f. FillRow Q W t b info = info\<lparr>bi_sharedBlock := Some b', bi_startPos := int s', bi_addedRows := int a',
        bi_isFull := bi_isFull info \<or> f\<rparr>
    \<and> stands b' G' \<and> holds_rows G' n decl (take a' (drop s' rows))
    \<and> (s' = s \<or> s' = s + a \<and> int s' \<le> bi_requiredPos info)
    \<and> (if f then s' + a' = s + a \<and> (if a' = 0 then stuck s' else bi_requiredPos info < int (s' + a')) else s' + a' = Suc (s + a))"
proof -
  note row = FillOneRow_window [OF _ _ _ _ _ assms(5,6)]
  obtain res b1 G1 where F: "FillOneRow Q W t (int n) (int a) b = (res, b1)" "stands b1 G1"
      "res = FILL_ONE_ROW_SUCESS \<and> holds_rows G1 n decl (take (Suc a) (drop s rows))
       \<or> res = SHARED_BLOCK_IS_FULL \<and> holds_rows G1 n decl (take a (drop s rows))"
    using row [OF assms(1-3) refl refl] by blast
  consider (ok) "res = FILL_ONE_ROW_SUCESS" "holds_rows G1 n decl (take (Suc a) (drop s rows))"
    | (stop) "res = SHARED_BLOCK_IS_FULL" "holds_rows G1 n decl (take a (drop s rows))" "a = 0 \<or> bi_requiredPos info < int (s + a)"
    | (move) "res = SHARED_BLOCK_IS_FULL" "a \<noteq> 0" "int (s + a) \<le> bi_requiredPos info"
    using F(3) by linarith
  then show ?thesis
  proof cases
    case ok
    then have "FillRow Q W t b info = info\<lparr>bi_sharedBlock := Some b1, bi_startPos := int s, bi_addedRows := int (Suc a),
        bi_isFull := bi_isFull info \<or> False\<rparr>"
      using F(1) i by (simp add: FillRow_def)
    then show ?thesis using F(2) ok by (intro exI [of _ b1] exI [of _ G1] exI [of _ s] exI [of _ "Suc a"] exI [of _ False]) simp
  next
    case stop
    then have "FillRow Q W t b info = info\<lparr>bi_sharedBlock := Some b1, bi_startPos := int s, bi_addedRows := int a,
        bi_isFull := bi_isFull info \<or> True\<rparr>"
      using F(1) i by (auto simp: FillRow_def)
    moreover have "stuck s" if "a = 0" using stuck F(1) stop(1) that by auto
    ultimately show ?thesis using F(2) stop by (intro exI [of _ b1] exI [of _ G1] exI [of _ s] exI [of _ a] exI [of _ True]) auto
  next
    case move
    let ?b3 = "snd (b_SetColumnNum W n (snd (b_Clear W b1)))"
    have b3: "cleared n ?b3" by (rule clear [OF F(2) assms(4)])
    have "stands ?b3 (empty_grid\<lparr>g_cols := n\<rparr>)" by (rule cleared [OF b3])
    moreover have "holds_rows (empty_grid\<lparr>g_cols := n\<rparr>) n decl (take 0 (drop (s + a) rows))" by (simp add: holds_rows_def)
    ultimately obtain res2 b4 G4 where S: "FillOneRow Q W t (int n) 0 ?b3 = (res2, b4)" "stands b4 G4"
      "res2 = FILL_ONE_ROW_SUCESS \<and> holds_rows G4 n decl (take 1 (drop (s + a) rows))
       \<or> res2 = SHARED_BLOCK_IS_FULL \<and> holds_rows G4 n decl (take 0 (drop (s + a) rows))"
      using FillOneRow_window [of ?b3 "empty_grid\<lparr>g_cols := n\<rparr>" n decl 0 "s + a" rows 0 "int n" Q t] assms(3,5,6) by auto
    then show ?thesis
    proof (cases "res2 = FILL_ONE_ROW_SUCESS")
      case True
      then have "FillRow Q W t b info = info\<lparr>bi_sharedBlock := Some b4, bi_startPos := int (s + a), bi_addedRows := int 1,
          bi_isFull := bi_isFull info \<or> False\<rparr>"
        using F(1) i move S(1) by (simp add: FillRow_def)
      then show ?thesis using S move True
        by (intro exI [of _ b4] exI [of _ G4] exI [of _ "s + a"] exI [of _ 1] exI [of _ False]) simp
    next
      case False
      then have "FillRow Q W t b info = info\<lparr>bi_sharedBlock := Some b4, bi_startPos := int (s + a), bi_addedRows := int 0,
          bi_isFull := bi_isFull info \<or> True\<rparr>"
        using F(1) i move S by (simp add: FillRow_def)
      moreover have "stuck (s + a)" using stuck(2) b3 S(1,3) False by auto
      ultimately show ?thesis using S move False
        by (intro exI [of _ b4] exI [of _ G4] exI [of _ "s + a"] exI [of _ 0] exI [of _ True]) simp
    qed
  qed
qed

end

text \<open>
  A statement whose columns have these declared types, and whose values are below the limit of
  sqlite.
\<close>

definition declares :: "('d, 't) sqlite3 \<Rightarrow> ('t \<Rightarrow> bool) \<Rightarrow> nat \<Rightarrow> (nat \<Rightarrow> string option) \<Rightarrow> bool" where
  "declares Q ok n decl \<longleftrightarrow> (\<forall>t i. ok t \<longrightarrow> i < n \<longrightarrow> sqlite3_column_decltype Q t (int i) = decl i)"

definition small_rows :: "sql_value list list \<Rightarrow> bool" where
  "small_rows rows \<longleftrightarrow> list_all (list_all small_sql) rows"

lemma small_rowsD:
  assumes "sqlite_query Q ok at names rows" "small_rows rows" "r < length rows" "c < length names"
  shows "small_sql (rows ! r ! c)"
proof -
  have "length (rows ! r) = length names" using assms(1,3) by (auto simp: sqlite_query_def list_all_length)
  then show ?thesis using assms(2-4) by (simp add: small_rows_def list_all_length)
qed

lemma window_inv_skip:
  assumes "window_inv stands cleared stuck n decl rows k T info" "bi_startPos info \<ge> int (Suc T) \<or> bi_isFull info"
  shows "window_inv stands cleared stuck n decl rows k (Suc T) (info\<lparr>bi_totalRows := bi_totalRows info + 1\<rparr>)"
proof -
  obtain b G s a where I: "bi_sharedBlock info = Some b" "stands b G" "holds_rows G n decl (take a (drop s rows))"
      "bi_startPos info = int s" "bi_addedRows info = int a" "bi_columnNum info = int n" "bi_totalRows info = int T"
      "\<not> bi_hasException info" "k \<le> s" "s = k \<or> int s \<le> bi_requiredPos info" "a = 0 \<and> \<not> bi_isFull info \<longrightarrow> cleared n b"
      "if bi_isFull info then s + a < T \<and> (if a = 0 then stuck s else bi_requiredPos info < int (s + a))
       else if T \<le> s then a = 0 else s + a = T"
    using assms(1) unfolding window_inv_def by blast
  then show ?thesis unfolding window_inv_def using assms(2)
    by (intro exI [of _ b] exI [of _ G] exI [of _ s] exI [of _ a]) (auto split: if_splits)
qed

context block_store
begin

lemma window_inv_fill:
  assumes q: "sqlite_query Q ok at names rows" "declares Q ok n decl" "small_rows rows" "length names = n" "n \<le> COL_MAX_NUM"
    and inv: "window_inv stands cleared stuck n decl rows k T info" and T: "T < length rows"
    and stuck: "\<forall>b. cleared n b \<and> fst (FillOneRow Q W t (int n) 0 b) = SHARED_BLOCK_IS_FULL \<longrightarrow> stuck T"
    and t: "ok t" "at t = Suc T"
    and here: "bi_startPos info \<le> int T" "\<not> bi_isFull info"
  shows "window_inv stands cleared stuck n decl rows k (Suc T) (fill_row Q W t (info\<lparr>bi_totalRows := bi_totalRows info + 1\<rparr>))
    \<and> bi_requiredPos (fill_row Q W t (info\<lparr>bi_totalRows := bi_totalRows info + 1\<rparr>)) = bi_requiredPos info
    \<and> bi_isCountAllRows (fill_row Q W t (info\<lparr>bi_totalRows := bi_totalRows info + 1\<rparr>)) = bi_isCountAllRows info"
proof -
  let ?info = "info\<lparr>bi_totalRows := bi_totalRows info + 1\<rparr>"
  obtain b G s a where I: "bi_sharedBlock info = Some b" "stands b G" "holds_rows G n decl (take a (drop s rows))"
      "bi_startPos info = int s" "bi_addedRows info = int a" "bi_columnNum info = int n" "bi_totalRows info = int T"
      "\<not> bi_hasException info" "k \<le> s" "s = k \<or> int s \<le> bi_requiredPos info" "if T \<le> s then a = 0 else s + a = T"
      "a = 0 \<longrightarrow> cleared n b"
    using inv here(2) unfolding window_inv_def by auto
  have sa: "s + a = T" using I(4,11) here(1) by (auto split: if_splits)
  have col: "column_is Q t (int c) (rows ! (s + a) ! c) \<and> small_sql (rows ! (s + a) ! c)" if "c < n" for c
    using sqlite_queryD(5) [OF q(1) t(1), of c] small_rowsD [OF q(1,3) T, of c] that t(2) T q(4) sa by simp
  have decl: "sqlite3_column_decltype Q t (int c) = decl c" if "c < n" for c
    using q(2) t(1) that by (simp add: declares_def)
  have len: "s + a < length rows" using sa T by simp
  have i: "bi_startPos ?info = int s" "bi_addedRows ?info = int a" "bi_columnNum ?info = int n" using I(4-6) by simp_all
  obtain b' G' s' a' f where R: "FillRow Q W t b ?info = ?info\<lparr>bi_sharedBlock := Some b', bi_startPos := int s',
        bi_addedRows := int a', bi_isFull := bi_isFull ?info \<or> f\<rparr>" "stands b' G'" "holds_rows G' n decl (take a' (drop s' rows))"
      "s' = s \<or> s' = s + a \<and> int s' \<le> bi_requiredPos ?info"
      "if f then s' + a' = s + a \<and> (if a' = 0 then stuck s' else bi_requiredPos ?info < int (s' + a')) else s' + a' = Suc (s + a)"
    using FillRow_window [where stuck = stuck, OF I(2,3) len q(5) col decl I(12) stuck [folded sa] i] by blast
  have fill: "fill_row Q W t ?info = ?info\<lparr>bi_sharedBlock := Some b', bi_startPos := int s',
        bi_addedRows := int a', bi_isFull := f\<rparr>"
    using I(1) R(1) here(2) by (simp add: fill_row_def)
  have "window_inv stands cleared stuck n decl rows k (Suc T) (fill_row Q W t ?info)"
    unfolding window_inv_def fill
    by (intro exI [of _ b'] exI [of _ G'] exI [of _ s'] exI [of _ a']) (use I R(2-5) sa in \<open>auto split: if_splits\<close>)
  then show ?thesis using fill by simp
qed

lemma FillSharedBlock_loop_window:
  assumes q: "sqlite_query Q ok at names rows" "declares Q ok n decl" "small_rows rows" "length names = n" "n \<le> COL_MAX_NUM"
    and stuck: "\<forall>t b. ok t \<and> 0 < at t \<and> at t \<le> length rows \<and> cleared n b
      \<and> fst (FillOneRow Q W t (int n) 0 b) = SHARED_BLOCK_IS_FULL \<longrightarrow> stuck (at t - 1)"
    and "window_inv stands cleared stuck n decl rows k T info" "T \<le> length rows" "ok t" "at t = T"
  shows "\<exists>info' t' T'. FillSharedBlock_loop Q W retryTime retryCount (bi_isFull info) False info t = Some (E_OK, info', t')
    \<and> ok t' \<and> window_inv stands cleared stuck n decl rows k T' info' \<and> T' \<le> length rows
    \<and> bi_requiredPos info' = bi_requiredPos info
    \<and> (bi_isCountAllRows info \<or> \<not> bi_isFull info' \<longrightarrow> T' = length rows)"
  using assms(7-)
proof (induction "length rows - T" arbitrary: T info t retryCount)
  case 0
  then have T: "T = length rows" by simp
  then obtain t1 where t1: "sqlite3_step Q t = (SQLITE_DONE, t1)" "ok t1"
    using sqlite_queryD(2) [OF q(1) "0.prems"(3)] "0.prems"(4) by auto
  show ?case
  proof (cases "bi_isFull info \<and> \<not> bi_isCountAllRows info")
    case True
    then show ?thesis using "0.prems" by (subst FillSharedBlock_loop.simps) auto
  next
    case False
    then show ?thesis using "0.prems" t1 T by (subst FillSharedBlock_loop.simps) (auto simp: Let_def SQLITE_ROW_def SQLITE_DONE_def)
  qed
next
  case (Suc m)
  have T: "T < length rows" using Suc.hyps(2) by simp
  have m: "m = length rows - Suc T" using Suc.hyps(2) by simp
  obtain t1 where t1: "sqlite3_step Q t = (SQLITE_ROW, t1)" "ok t1" "at t1 = Suc T"
    using sqlite_queryD(1) [OF q(1) Suc.prems(3)] Suc.prems(4) T by auto
  let ?info = "info\<lparr>bi_totalRows := bi_totalRows info + 1\<rparr>"
  have tot: "bi_totalRows info = int T" using Suc.prems(1) by (auto simp: window_inv_def)
  consider (stop) "bi_isFull info" "\<not> bi_isCountAllRows info"
    | (skip) "bi_startPos info \<ge> int (Suc T) \<or> bi_isFull info" "bi_isFull info \<longrightarrow> bi_isCountAllRows info"
    | (fill) "bi_startPos info \<le> int T" "\<not> bi_isFull info" by linarith
  then show ?case
  proof cases
    case stop
    then show ?thesis using Suc.prems by (subst FillSharedBlock_loop.simps) auto
  next
    case skip
    have "FillSharedBlock_loop Q W retryTime retryCount (bi_isFull info) False info t
        = FillSharedBlock_loop Q W retryTime 0 (bi_isFull ?info) False ?info t1"
      using t1 skip tot by (subst FillSharedBlock_loop.simps) auto
    then show ?thesis using Suc.hyps(1) [OF m window_inv_skip [OF Suc.prems(1) skip(1)] _ t1(2,3), of 0] T by auto
  next
    case fill
    have "\<forall>b. cleared n b \<and> fst (FillOneRow Q W t1 (int n) 0 b) = SHARED_BLOCK_IS_FULL \<longrightarrow> stuck T"
      using stuck t1(2,3) T by fastforce
    note F = window_inv_fill [OF q Suc.prems(1) T this t1(2,3) fill]
    have "\<not> bi_hasException (fill_row Q W t1 ?info)" using F by (auto simp: window_inv_def)
    then have "FillSharedBlock_loop Q W retryTime retryCount (bi_isFull info) False info t
        = FillSharedBlock_loop Q W retryTime 0 (bi_isFull (fill_row Q W t1 ?info)) False (fill_row Q W t1 ?info) t1"
      using t1 fill tot by (subst FillSharedBlock_loop.simps) (auto simp: Let_def)
    then show ?thesis using Suc.hyps(1) [OF m conjunct1 [OF F] _ t1(2,3), of 0] F T by auto
  qed
qed

lemma FillSharedBlock_window:
  assumes "sqlite_query Q ok at names rows" "declares Q ok n decl" "small_rows rows" "length names = n" "n \<le> COL_MAX_NUM"
    and stuck: "\<forall>t b. ok t \<and> 0 < at t \<and> at t \<le> length rows \<and> cleared n b
      \<and> fst (FillOneRow Q W t (int n) 0 b) = SHARED_BLOCK_IS_FULL \<longrightarrow> stuck (at t - 1)"
    and "cleared n b" "ok t" "at t = 0"
    and i: "bi_sharedBlock info = Some b" "bi_startPos info = int k" "bi_columnNum info = int n"
      "\<not> bi_isFull info" "\<not> bi_hasException info"
  shows "\<exists>info' t' T'. FillSharedBlock Q W retryTime info t = Some (E_OK, info', t') \<and> ok t'
    \<and> window_inv stands cleared stuck n decl rows k T' info' \<and> T' \<le> length rows \<and> bi_requiredPos info' = bi_requiredPos info
    \<and> (bi_isCountAllRows info \<or> \<not> bi_isFull info' \<longrightarrow> T' = length rows)"
proof -
  let ?info = "info\<lparr>bi_totalRows := 0, bi_addedRows := 0\<rparr>"
  have "window_inv stands cleared stuck n decl rows k 0 ?info"
    unfolding window_inv_def using cleared [OF assms(7)] assms(7) i
    by (intro exI [of _ b] exI [of _ "empty_grid\<lparr>g_cols := n\<rparr>"] exI [of _ k] exI [of _ 0]) (simp add: holds_rows_def)
  then have "\<exists>info' t' T'. FillSharedBlock_loop Q W retryTime 0 (bi_isFull ?info) False ?info t = Some (E_OK, info', t')
    \<and> ok t' \<and> window_inv stands cleared stuck n decl rows k T' info' \<and> T' \<le> length rows
    \<and> bi_requiredPos info' = bi_requiredPos ?info
    \<and> (bi_isCountAllRows ?info \<or> \<not> bi_isFull info' \<longrightarrow> T' = length rows)"
    by (intro FillSharedBlock_loop_window [OF assms(1-6)]) (use assms(8,9) in simp_all)
  then show ?thesis using i(4) by (simp add: FillSharedBlock_def)
qed

end

section \<open>\<open>SharedBlock\<close> is such a block\<close>

lemma put_of_shared: "put_of shared_block_ops k r c v B =
    PutBlobOrString r c v (if k = 3 \<or> k = 5 \<or> k = 6 \<or> k = 7 \<or> k = 8 then k else CELL_UNIT_TYPE_BLOB) B"
  by (simp add: put_of_def shared_block_ops_def Block_PutBlob_def Block_PutString_def Block_PutAsset_def
      Block_PutAssets_def Block_PutFloats_def Block_PutBigInt_def)

lemma block_exec_stands:
  "stands_for B G \<Longrightarrow> op_ok x \<Longrightarrow>
     stands_for (snd (block_exec x B)) (if fst (block_exec x B) = SHARED_BLOCK_OK then grid_exec x G else G)
     \<and> mSize (snd (block_exec x B)) = mSize B"
  using block_step_refines [of B G x "fst (block_exec x B)" "snd (block_exec x B)"] by simp

text \<open>A block with \<open>n\<close> columns and all of its memory free.\<close>

definition cleared :: "nat \<Rightarrow> nat \<Rightarrow> shared_block \<Rightarrow> bool" where
  "cleared sz n B \<longleftrightarrow> stands_for B (empty_grid\<lparr>g_cols := n\<rparr>) \<and> mSize B = sz
     \<and> unusedOffset (mData B) = HEADER_SIZE + GROUP_SIZE \<and> groupOffset 0 (mData B) = HEADER_SIZE"

lemma clearedI:
  assumes "\<not> mReadOnly B" "HEADER_SIZE + GROUP_SIZE \<le> mSize B" "mSize B \<le> 2 ^ 31" "n \<le> COL_MAX_NUM"
  shows "cleared (mSize B) n (snd (SetColumnNum n (snd (Clear_block B))))" "fst (SetColumnNum n (snd (Clear_block B))) = SHARED_BLOCK_OK"
proof -
  let ?B = "snd (Clear_block B)"
  note C = Clear_empty [OF assms(1-3)]
  have z: "rowNums (mData ?B) = 0" "columnNums (mData ?B) = 0" "\<not> mReadOnly ?B"
    using C(3) by (auto simp: stands_for_def cells_def)
  have h: "unusedOffset (mData ?B) = 1048" "groupOffset 0 (mData ?B) = 536"
    using assms(1) by (simp_all add: Clear_block_def Let_def unusedOffset_def groupOffset_def load_store_other load_memcpy_other load_store)
  have S: "SetColumnNum n ?B = (SHARED_BLOCK_OK, ?B\<lparr>mData := set_columnNums n (mData ?B)\<rparr>)"
    using z assms(4) by (simp add: SetColumnNum_def)
  then show "fst (SetColumnNum n ?B) = SHARED_BLOCK_OK" by simp
  have "stands_for (snd (SetColumnNum n ?B)) (empty_grid\<lparr>g_cols := n\<rparr>)"
    using SetColumnNum_grid [OF C(3) S] assms(4) S by simp
  then show "cleared (mSize B) n (snd (SetColumnNum n ?B))" using S h C(2) by (simp add: cleared_def)
qed

interpretation sb: block_store shared_block_ops "\<lambda>B G. stands_for B G \<and> mSize B = sz" "cleared sz" for sz
proof
  fix B G assume B: "stands_for B G \<and> mSize B = sz"
  note run = block_exec_stands [OF conjunct1 [OF B]]
  show "cleared sz n (snd (b_SetColumnNum shared_block_ops n (snd (b_Clear shared_block_ops B))))" if "n \<le> COL_MAX_NUM" for n
    using clearedI(1) [of B n] stands_for_size [of B G] B that by (auto simp: shared_block_ops_def stands_for_def)
  show "stands_for (snd (b_AllocRow shared_block_ops B))
      (if fst (b_AllocRow shared_block_ops B) = SHARED_BLOCK_OK then grid_exec B_AllocRow G else G)
      \<and> mSize (snd (b_AllocRow shared_block_ops B)) = sz"
    using run [of B_AllocRow] B by (simp add: shared_block_ops_def)
  show "stands_for (snd (b_FreeLastRow shared_block_ops B)) (grid_exec B_FreeLastRow G) \<and> mSize (snd (b_FreeLastRow shared_block_ops B)) = sz"
    using FreeLastRow_grid [of B G "fst (FreeLastRow B)" "snd (FreeLastRow B)"] B by (simp add: shared_block_ops_def)
  show "stands_for (snd (b_PutLong shared_block_ops r c w B))
      (if fst (b_PutLong shared_block_ops r c w B) = SHARED_BLOCK_OK then grid_exec (B_PutLong r c w) G else G)
      \<and> mSize (snd (b_PutLong shared_block_ops r c w B)) = sz" for r c w
    using run [of "B_PutLong r c w"] B by (simp add: shared_block_ops_def)
  show "stands_for (snd (b_PutDouble shared_block_ops r c w B))
      (if fst (b_PutDouble shared_block_ops r c w B) = SHARED_BLOCK_OK then grid_exec (B_PutDouble r c w) G else G)
      \<and> mSize (snd (b_PutDouble shared_block_ops r c w B)) = sz" for r c w
    using run [of "B_PutDouble r c w"] B by (simp add: shared_block_ops_def)
  show "stands_for (snd (b_PutNull shared_block_ops r c B))
      (if fst (b_PutNull shared_block_ops r c B) = SHARED_BLOCK_OK then grid_exec (B_PutNull r c) G else G)
      \<and> mSize (snd (b_PutNull shared_block_ops r c B)) = sz" for r c
    using run [of "B_PutNull r c"] B by (simp add: shared_block_ops_def)
  show "stands_for (snd (put_of shared_block_ops k r c v B))
      (if fst (put_of shared_block_ops k r c v B) = SHARED_BLOCK_OK then put_cell r c (k, the v) G else G)
      \<and> mSize (snd (put_of shared_block_ops k r c v B)) = sz"
    if "small_value v" "3 \<le> k" "k \<le> 8" for v k r c
  proof -
    have "k = 3 \<or> k = 4 \<or> k = 5 \<or> k = 6 \<or> k = 7 \<or> k = 8" using that(2,3) by linarith
    then have p: "put_of shared_block_ops k r c v B = PutBlobOrString r c v k B" and "\<not> scalar_type k" "k < 2 ^ 32"
      by (auto simp: put_of_shared scalar_type_def)
    then show ?thesis
      using PutBytes_grid [of B G r c v k "fst (PutBlobOrString r c v k B)" "snd (PutBlobOrString r c v k B)"] that(1) B
      by (cases v) (simp_all add: small_value_def)
  qed
next
  show "fst (put_of shared_block_ops k r c None B) \<noteq> SHARED_BLOCK_OK" for k r c B
    by (simp add: put_of_shared PutBlobOrString_def block_status)
qed (simp add: cleared_def)

section \<open>Rows that fit\<close>

text \<open>
  The memory a value takes besides its cell, and the rows that fit into a block of a size: the
  header, the first group of row offsets, the cells and the bytes. An empty blob never fits.
\<close>

fun value_bytes :: "sql_value \<Rightarrow> nat" where
  "value_bytes (S_Text s) = length s + 1"
| "value_bytes (S_Blob b) = length b"
| "value_bytes _ = 0"

definition row_fits :: "nat \<Rightarrow> sql_value list \<Rightarrow> bool" where
  "row_fits sz row \<longleftrightarrow> HEADER_SIZE + GROUP_SIZE + CELL_SIZE * length row + sum_list (map value_bytes row) \<le> sz
     \<and> S_Blob [] \<notin> set row"

lemma unusedOffset_other:
  "4 \<le> a \<Longrightarrow> unusedOffset (store k a v m) = unusedOffset m" "4 \<le> a \<Longrightarrow> unusedOffset (memcpy a bs m) = unusedOffset m"
  by (simp_all add: unusedOffset_def load_store_other load_memcpy_other)

lemma AllocRow_cleared:
  assumes "cleared sz n B" "HEADER_SIZE + GROUP_SIZE + CELL_SIZE * n \<le> sz" "n \<le> COL_MAX_NUM"
  shows "\<exists>B'. AllocRow B = (SHARED_BLOCK_OK, B') \<and> unusedOffset (mData B') = HEADER_SIZE + GROUP_SIZE + CELL_SIZE * n"
proof -
  have m: "rowNums (mData B) = 0" "columnNums (mData B) = n" "unusedOffset (mData B) = 1048" "groupOffset 0 (mData B) = 536" "mSize B = sz"
    using assms(1) by (auto simp: cleared_def stands_for_def cells_def)
  let ?B = "B\<lparr>mData := store 4 4 1 (mData B)\<rparr>"
  have a: "AllocRowOffset B = (Some 536, ?B)"
    using m assms(2) by (simp add: AllocRowOffset_def Let_def OffsetToPtr_def u32_id)
  have "Alloc (n * 12) ?B = (1048, ?B\<lparr>mData := store 4 0 (1048 + n * 12) (mData ?B)\<rparr>)"
    using Alloc_eq [of ?B "n * 12"] m assms(2,3) by (simp add: align4_def)
  then show ?thesis using a m assms(3) by (simp add: AllocRow_def unusedOffset_other u32_id mult.commute)
qed

lemma cell_above_header:
  assumes "stands_for B G" "r < g_rows G" "c < g_cols G"
  shows "r < rowNums (mData B)" "c < columnNums (mData B)" "HEADER_SIZE \<le> cell_addr r c (mData B)"
proof -
  obtain own where L: "layout own (mSize B) (mData B)" and C: "cells own (mData B) G"
    using assms(1) by (auto simp: stands_for_def)
  show rc: "r < rowNums (mData B)" "c < columnNums (mData B)" using C assms(2,3) by (simp_all add: cells_def)
  show "HEADER_SIZE \<le> cell_addr r c (mData B)"
    using cell_owner [OF L rc, of "cell_addr r c (mData B)"] above_header [OF L, of "cell_addr r c (mData B)"] by simp
qed

lemma PutBytes_room:
  assumes "stands_for B G" "r < g_rows G" "c < g_cols G" "unusedOffset (mData B) + length bs \<le> mSize B" "length bs \<le> RSIZE_MAX"
  shows "fst (PutBlobOrString r c (Some bs) t B) = SHARED_BLOCK_OK
    \<and> unusedOffset (mData (snd (PutBlobOrString r c (Some bs) t B))) = unusedOffset (mData B) + length bs"
proof -
  note c = cell_above_header [OF assms(1-3)]
  have "mSize B \<le> 2 ^ 31" using stands_for_size [OF assms(1)] by simp
  then have u: "u32 (unusedOffset (mData B) + length bs) = unusedOffset (mData B) + length bs" using assms(4) by (intro u32_id) simp
  moreover have "4 \<le> unusedOffset (mData B)" using assms(1) by (auto simp: stands_for_def layout_def)
  ultimately show ?thesis using assms(4,5) c by (simp add: PutBlobOrString_def Let_def unusedOffset_other)
qed

lemma fill_cell_room:
  assumes "stands_for B G" "nat a < g_rows G" "i < g_cols G" "column_is Q t (int i) v" "small_sql v" "v \<noteq> S_Blob []"
    and "unusedOffset (mData B) + value_bytes v \<le> mSize B"
  shows "fst (fill_cell Q shared_block_ops t a i B) = FILL_ONE_ROW_SUCESS
    \<and> unusedOffset (mData (snd (fill_cell Q shared_block_ops t a i B))) = unusedOffset (mData B) + value_bytes v"
proof -
  note c = cell_above_header [OF assms(1-3)]
  show ?thesis
  proof (cases v)
    case (S_Text s)
    then show ?thesis using PutBytes_room [OF assms(1-3), of "to_bytes s @ [0]" 3] assms(4,5,7)
      by (simp add: fill_cell_def FillOneRowOfString_def put_result_def shared_block_ops_def Block_PutString_def nat_add_distrib Let_def)
  next
    case (S_Blob b)
    then show ?thesis using PutBytes_room [OF assms(1-3), of b] assms(4-7)
      by (simp add: fill_cell_def FillOneRowOfBlob_def blob_action_put put_result_def put_of_shared Let_def)
  qed (use c assms(4) in \<open>simp_all add: fill_cell_def FillOneRowOfNull_def FillOneRowOfLong_def FillOneRowOfFloat_def put_result_def
      shared_block_ops_def Block_PutNull_def Block_PutLong_def Block_PutDouble_def Let_def unusedOffset_other\<close>)
qed

lemma FillOneRow_loop_room:
  assumes "stands_for B G \<and> mSize B = sz" "g_cols G = length row" "g_rows G = 1" "i + m = length row"
    and col: "\<And>c. c < length row \<Longrightarrow> column_is Q t (int c) (row ! c) \<and> small_sql (row ! c)" and "S_Blob [] \<notin> set row"
    and "unusedOffset (mData B) + sum_list (map value_bytes (drop i row)) \<le> sz"
  shows "fst (FillOneRow_loop Q shared_block_ops t 0 m i FILL_ONE_ROW_SUCESS B) = FILL_ONE_ROW_SUCESS"
  using assms(1-4,7)
proof (induction m arbitrary: i B G)
  case (Suc m)
  have i: "i < length row" using Suc.prems(4) by simp
  let ?f = "fill_cell Q shared_block_ops t 0 i B"
  have d: "drop i row = row ! i # drop (Suc i) row" using i by (simp add: Cons_nth_drop_Suc)
  have ne: "row ! i \<noteq> S_Blob []" using assms(6) i by (metis nth_mem)
  have f: "fst ?f = FILL_ONE_ROW_SUCESS" "unusedOffset (mData (snd ?f)) = unusedOffset (mData B) + value_bytes (row ! i)"
    using fill_cell_room [of B G 0 i Q t "row ! i"] col [OF i] ne Suc.prems i d by auto
  let ?G = "put_cell 0 i (cell_of (sqlite3_column_decltype Q t (int i)) (row ! i)) G"
  have "stands_for (snd ?f) ?G \<and> mSize (snd ?f) = sz"
    using sb.fill_cell_grid [OF Suc.prems(1), of Q t i "row ! i" 0] col [OF i] f(1) by auto
  then have "fst (FillOneRow_loop Q shared_block_ops t 0 m (Suc i) FILL_ONE_ROW_SUCESS (snd ?f)) = FILL_ONE_ROW_SUCESS"
    by (rule Suc.IH) (use Suc.prems(2-5) f(2) d in simp_all)
  then show ?case unfolding FillOneRow_loop_Suc [OF conjunct1 [OF col [OF i]]]
    using f(1) by (auto simp: Let_def split: prod.split)
qed simp

lemma row_fits_cleared:
  assumes "cleared sz n B" "length row = n" "n \<le> COL_MAX_NUM" "row_fits sz row"
    and "\<And>c. c < n \<Longrightarrow> column_is Q t (int c) (row ! c) \<and> small_sql (row ! c)"
  shows "fst (FillOneRow Q shared_block_ops t (int n) 0 B) = FILL_ONE_ROW_SUCESS"
proof -
  obtain B1 where A: "AllocRow B = (SHARED_BLOCK_OK, B1)" "unusedOffset (mData B1) = HEADER_SIZE + GROUP_SIZE + CELL_SIZE * n"
    using AllocRow_cleared [OF assms(1) _ assms(3)] assms(2,4) by (auto simp: row_fits_def)
  have "stands_for B1 (grid_exec B_AllocRow (empty_grid\<lparr>g_cols := n\<rparr>)) \<and> mSize B1 = sz"
    using sb.alloc [of B "empty_grid\<lparr>g_cols := n\<rparr>" sz] assms(1) A(1) by (simp add: cleared_def shared_block_ops_def)
  then have "fst (FillOneRow_loop Q shared_block_ops t 0 n 0 FILL_ONE_ROW_SUCESS B1) = FILL_ONE_ROW_SUCESS"
    by (rule FillOneRow_loop_room [where row = row]) (use assms A(2) in \<open>simp_all add: row_fits_def\<close>)
  moreover have "b_AllocRow shared_block_ops B = (SHARED_BLOCK_OK, B1)" using A(1) by (simp add: shared_block_ops_def)
  ultimately show ?thesis by (auto simp: FillOneRow_def split: prod.split)
qed

section \<open>Properties\<close>

lemma window_rows:
  assumes "window_inv (\<lambda>B G. stands_for B G \<and> mSize B = sz) (cleared sz) stuck n decl rows k T info" "T \<le> length rows"
    and "\<not> bi_isFull info \<longrightarrow> T = length rows"
  shows "\<exists>B s a G. bi_sharedBlock info = Some B \<and> mSize B = sz \<and> bi_startPos info = int s \<and> bi_addedRows info = int a
    \<and> bi_totalRows info = int T \<and> \<not> bi_hasException info \<and> (s = k \<or> k \<le> s \<and> int s \<le> bi_requiredPos info)
    \<and> (if bi_isFull info then s + a < T \<and> (if a = 0 then stuck s else bi_requiredPos info < int (s + a))
       else s < length rows \<longrightarrow> s + a = length rows)
    \<and> stands_for B G \<and> g_rows G = a \<and> g_cols G = n \<and> rowNums (mData B) = a \<and> columnNums (mData B) = n
    \<and> (\<forall>r < a. \<forall>c < n. s + r < length rows \<and> g_cell G r c = Some (cell_of (decl c) (rows ! (s + r) ! c)))"
proof -
  obtain B G s a where I: "bi_sharedBlock info = Some B" "stands_for B G" "mSize B = sz" "holds_rows G n decl (take a (drop s rows))"
      "bi_startPos info = int s" "bi_addedRows info = int a" "bi_totalRows info = int T"
      "\<not> bi_hasException info" "k \<le> s" "s = k \<or> int s \<le> bi_requiredPos info"
      "if bi_isFull info then s + a < T \<and> (if a = 0 then stuck s else bi_requiredPos info < int (s + a))
       else if T \<le> s then a = 0 else s + a = T"
    using assms(1) unfolding window_inv_def by blast
  have len: "length (take a (drop s rows)) = a" using I(11) assms(2) by (auto split: if_splits)
  have sa: "a = 0 \<or> s + a \<le> length rows" using I(11) assms(2) by (auto split: if_splits)
  have g: "g_rows G = a" "g_cols G = n" using I(4) len by (simp_all add: holds_rows_def)
  have m: "rowNums (mData B) = a" "columnNums (mData B) = n" using I(2) g by (auto simp: stands_for_def cells_def)
  have "\<forall>r < a. \<forall>c < n. s + r < length rows \<and> g_cell G r c = Some (cell_of (decl c) (rows ! (s + r) ! c))"
    using I(4) len sa by (auto simp: holds_rows_def)
  then show ?thesis using I assms(3) g m
    by (intro exI [of _ B] exI [of _ s] exI [of _ a] exI [of _ G]) (auto split: if_splits)
qed

lemma fill_window:
  assumes q: "sqlite_query Q ok at names rows" "declares Q ok n decl" "small_rows rows" "length names = n" "n \<le> COL_MAX_NUM"
    and blk: "cleared sz n blk" and t: "ok t" "at t = 0"
    and i: "bi_sharedBlock info = Some blk" "bi_startPos info = int k" "bi_columnNum info = int n"
      "\<not> bi_isFull info" "\<not> bi_hasException info"
    and r: "bi_requiredPos info = int req" "k \<le> req" "req < length rows"
    and fit: "\<And>r. k \<le> r \<Longrightarrow> r \<le> req \<Longrightarrow> row_fits sz (rows ! r)"
  shows "\<exists>info' t' B G s a. FillSharedBlock Q shared_block_ops retryTime info t = Some (E_OK, info', t') \<and> ok t'
    \<and> bi_sharedBlock info' = Some B \<and> mSize B = sz \<and> bi_startPos info' = int s \<and> bi_addedRows info' = int a
    \<and> stands_for B G \<and> g_rows G = a \<and> g_cols G = n \<and> rowNums (mData B) = a
    \<and> (\<forall>r < a. \<forall>c < n. s + r < length rows \<and> g_cell G r c = Some (cell_of (decl c) (rows ! (s + r) ! c)))
    \<and> s \<le> req \<and> req < s + a \<and> s + a \<le> length rows \<and> (bi_isCountAllRows info \<longrightarrow> bi_totalRows info' = int (length rows))"
proof -
  let ?stuck = "\<lambda>r. \<not> row_fits sz (rows ! r)"
  have "?stuck (at u - 1)" if "ok u" "0 < at u" "at u \<le> length rows" "cleared sz n b"
      "fst (FillOneRow Q shared_block_ops u (int n) 0 b) = SHARED_BLOCK_IS_FULL" for u b
  proof
    let ?r = "at u - 1"
    assume fits: "row_fits sz (rows ! ?r)"
    have len: "length (rows ! ?r) = n" using q(1,4) that(2,3) by (auto simp: sqlite_query_def list_all_length)
    have col: "column_is Q u (int c) (rows ! ?r ! c) \<and> small_sql (rows ! ?r ! c)" if "c < n" for c
      using sqlite_queryD(5) [OF q(1), of u c] small_rowsD [OF q(1,3), of ?r c] \<open>ok u\<close> \<open>0 < at u\<close> \<open>at u \<le> length rows\<close> that q(4) by simp
    show False using row_fits_cleared [OF that(4) len q(5) fits col] that(5) by simp
  qed
  then have stuck: "\<forall>u b. ok u \<and> 0 < at u \<and> at u \<le> length rows \<and> cleared sz n b
      \<and> fst (FillOneRow Q shared_block_ops u (int n) 0 b) = SHARED_BLOCK_IS_FULL \<longrightarrow> ?stuck (at u - 1)" by blast
  obtain info' t' T where F: "FillSharedBlock Q shared_block_ops retryTime info t = Some (E_OK, info', t')" "ok t'"
      "window_inv (\<lambda>B G. stands_for B G \<and> mSize B = sz) (cleared sz) ?stuck n decl rows k T info'" "T \<le> length rows"
      "bi_requiredPos info' = bi_requiredPos info" "bi_isCountAllRows info \<or> \<not> bi_isFull info' \<longrightarrow> T = length rows"
    using sb.FillSharedBlock_window [where stuck = ?stuck, OF q stuck blk t i, of retryTime] by (elim exE conjE) (rule that)
  have "\<not> bi_isFull info' \<longrightarrow> T = length rows" using F(6) by blast
  from window_rows [OF F(3,4) this] obtain B s a G where W: "bi_sharedBlock info' = Some B" "mSize B = sz" "bi_startPos info' = int s"
      "bi_addedRows info' = int a" "bi_totalRows info' = int T" "s = k \<or> k \<le> s \<and> int s \<le> bi_requiredPos info'"
      "if bi_isFull info' then s + a < T \<and> (if a = 0 then ?stuck s else bi_requiredPos info' < int (s + a))
       else s < length rows \<longrightarrow> s + a = length rows"
      "stands_for B G" "g_rows G = a" "g_cols G = n" "rowNums (mData B) = a"
      "\<forall>r < a. \<forall>c < n. s + r < length rows \<and> g_cell G r c = Some (cell_of (decl c) (rows ! (s + r) ! c))"
    by blast
  have s: "k \<le> s" "s \<le> req" using W(6) F(5) r(1,2) by auto
  then have "req < s + a" using W(7) F(5) r(1,3) fit [OF s] by (auto split: if_splits)
  moreover have "s + a \<le> length rows" using W(7) F(4) s(2) r(3) by (auto split: if_splits)
  ultimately show ?thesis using F(1,2,6) W s(2) by (intro exI conjI) auto
qed

text \<open>
  C32: filling a cleared shared block from a query returns without error and with the row asked for in
  the block: the block holds consecutive rows of the query, each cell with its type and bytes, and
  the required row is among them, if the rows from the start position to it each fit into the block
  alone. When all rows are counted, the total is their number.
\<close>

theorem fill_shared_block_window:
  assumes "sqlite_query Q ok at names rows" "declares Q ok n decl" "small_rows rows" "length names = n" "n \<le> COL_MAX_NUM"
    and "cleared sz n blk" "ok t" "at t = 0"
    and "bi_sharedBlock info = Some blk" "bi_startPos info = int k" "bi_columnNum info = int n"
      "\<not> bi_isFull info" "\<not> bi_hasException info"
    and "bi_requiredPos info = int req" "k \<le> req" "req < length rows" "\<And>r. k \<le> r \<Longrightarrow> r \<le> req \<Longrightarrow> row_fits sz (rows ! r)"
  shows "\<exists>info' t' B s a. FillSharedBlock Q shared_block_ops retryTime info t = Some (E_OK, info', t')
    \<and> bi_sharedBlock info' = Some B \<and> bi_startPos info' = int s \<and> bi_addedRows info' = int a \<and> rowNums (mData B) = a
    \<and> (\<forall>r < a. \<forall>c < n. \<exists>u. GetCellUnit r c B = Some u \<and> cell_view u (mData B) = cell_of (decl c) (rows ! (s + r) ! c))
    \<and> s \<le> req \<and> req < s + a \<and> s + a \<le> length rows
    \<and> (bi_isCountAllRows info \<longrightarrow> bi_totalRows info' = int (length rows))"
proof -
  obtain info' t' B G s a where F: "FillSharedBlock Q shared_block_ops retryTime info t = Some (E_OK, info', t')"
      "bi_sharedBlock info' = Some B" "bi_startPos info' = int s" "bi_addedRows info' = int a"
      "stands_for B G" "g_rows G = a" "g_cols G = n" "rowNums (mData B) = a"
      "\<forall>r < a. \<forall>c < n. s + r < length rows \<and> g_cell G r c = Some (cell_of (decl c) (rows ! (s + r) ! c))"
      "s \<le> req" "req < s + a" "s + a \<le> length rows" "bi_isCountAllRows info \<longrightarrow> bi_totalRows info' = int (length rows)"
    using fill_window [OF assms] by blast
  have "\<exists>u. GetCellUnit r c B = Some u \<and> cell_view u (mData B) = cell_of (decl c) (rows ! (s + r) ! c)"
    if "r < a" "c < n" for r c
    using stands_for_reads [OF F(5), of r c] F(6,7,9) that by auto
  then show ?thesis using F(1-4,8,10-13) by (intro exI conjI) auto
qed

text \<open>A block of one megabyte, cleared and with its columns set.\<close>

definition cleared_block :: "nat \<Rightarrow> shared_block" where
  "cleared_block n = snd (SetColumnNum n (Init_block \<lparr>mData = (\<lambda>_. 0), mSize = 2 ^ 20, mReadOnly = False\<rparr>))"

lemma cleared_block_cleared: "n \<le> COL_MAX_NUM \<Longrightarrow> cleared (2 ^ 20) n (cleared_block n)"
  using clearedI(1) [of "\<lparr>mData = (\<lambda>_. 0), mSize = 2 ^ 20, mReadOnly = False\<rparr>" n] by (simp add: cleared_block_def Init_block_def)

definition sample_rows :: "sql_value list list" where
  "sample_rows = [[S_Integer 7, S_Text ''a''], [S_Null, S_Blob [1, 2]], [S_Integer 0, S_Text []]]"

definition sample_query :: "(unit, nat option) sqlite3" where
  "sample_query = list_query [''id'', ''v''] [Some ''INTEGER'', Some ''BLOB''] sample_rows"

lemma sample_query_facts:
  "sqlite_query sample_query (list_query_ok (length sample_rows)) rows_read [''id'', ''v''] sample_rows"
  "declares sample_query (list_query_ok (length sample_rows)) 2 (\<lambda>i. [Some ''INTEGER'', Some ''BLOB''] ! i)"
  "small_rows sample_rows"
  using list_query_is_query [of "[''id'', ''v'']" sample_rows "[Some ''INTEGER'', Some ''BLOB'']"]
  by (simp_all add: sample_query_def sample_rows_def declares_def list_query_def small_rows_def)

lemma sample_rows_fit: "r < length sample_rows \<Longrightarrow> row_fits (2 ^ 20) (sample_rows ! r)"
  by (auto simp: sample_rows_def less_Suc_eq row_fits_def)

theorem fill_shared_block_window_witness:
  "\<exists>info' t' B s a. FillSharedBlock sample_query shared_block_ops 50
      ((SharedBlockInfo_new (Some (cleared_block 2)))\<lparr>bi_requiredPos := 1, bi_columnNum := 2\<rparr>) (Some 0) = Some (E_OK, info', t')
    \<and> bi_sharedBlock info' = Some B \<and> bi_startPos info' = int s \<and> bi_addedRows info' = int a \<and> rowNums (mData B) = a
    \<and> (\<forall>r < a. \<forall>c < 2. \<exists>u. GetCellUnit r c B = Some u
        \<and> cell_view u (mData B) = cell_of ([Some ''INTEGER'', Some ''BLOB''] ! c) (sample_rows ! (s + r) ! c))
    \<and> s \<le> 1 \<and> 1 < s + a \<and> s + a \<le> 3"
  using fill_shared_block_window [OF sample_query_facts, where blk = "cleared_block 2" and t = "Some 0" and k = 0 and req = 1
      and info = "(SharedBlockInfo_new (Some (cleared_block 2)))\<lparr>bi_requiredPos := 1, bi_columnNum := 2\<rparr>" and retryTime = 50
      and sz = "2 ^ 20"]
    cleared_block_cleared [of 2] sample_rows_fit
  by (simp add: SharedBlockInfo_new_def sample_rows_def numeral_3_eq_3)



text \<open>Without a block, filling counts the rows.\<close>

lemma FillSharedBlock_loop_counts:
  assumes "sqlite_query Q ok at names rows" "bi_sharedBlock info = None" "bi_isCountAllRows info" "bi_startPos info = 0"
    and "ok t" "at t \<le> length rows" "bi_totalRows info = int (at t)" "\<not> bi_hasException info" "isFull \<longrightarrow> bi_isFull info"
  shows "\<exists>info' t'. FillSharedBlock_loop Q W retryTime retryCount isFull False info t = Some (E_OK, info', t')
    \<and> ok t' \<and> bi_totalRows info' = int (length rows) \<and> bi_sharedBlock info' = None"
  using assms(2-)
proof (induction "length rows - at t" arbitrary: info t retryCount isFull)
  case 0
  then obtain t1 where "sqlite3_step Q t = (SQLITE_DONE, t1)" "ok t1"
    using sqlite_queryD(2) [OF assms(1), of t] by auto
  then show ?case using 0 by (subst FillSharedBlock_loop.simps) (simp add: SQLITE_ROW_def SQLITE_DONE_def)
next
  case (Suc m)
  then have "at t < length rows" by simp
  then obtain t1 where t1: "sqlite3_step Q t = (SQLITE_ROW, t1)" "ok t1" "at t1 = Suc (at t)"
    using sqlite_queryD(1) [OF assms(1) Suc.prems(4)] by blast
  let ?info = "info\<lparr>bi_totalRows := bi_totalRows info + 1\<rparr>"
  have m: "m = length rows - at t1" and le: "at t1 \<le> length rows" using Suc.hyps(2) t1(3) by simp_all
  show ?case
  proof (cases isFull)
    case True
    with Suc.hyps(1) [OF m, of ?info True 0] Suc.prems t1 le show ?thesis
      by (subst FillSharedBlock_loop.simps) simp
  next
    case False
    with Suc.hyps(1) [OF m, of "?info\<lparr>bi_isFull := True\<rparr>" True 0] Suc.prems t1 le show ?thesis
      by (subst FillSharedBlock_loop.simps) (simp add: fill_row_def DefFillRow_def Let_def)
  qed
qed

end
