(* ===== verification/Cache_Block.thy ===== *)
theory Cache_Block
  imports Block_Filling Values_Buckets
begin

text \<open>
  \<open>CacheBlock\<close> (\<open>cache_block.cpp\<close>): the block that keeps rows as buckets, for the rows a statement
  returns. It takes the first \<open>maxCount\<close> rows and accepts and drops the others. Custom columns are
  parsed when they are put, with the JSON library and the clock as arguments.
\<close>

section \<open>Operations\<close>

record cache_block =
  cb_rows :: "values_bucket list"
  cb_columns :: "string list"
  cb_maxCount :: int
  cb_isFull :: bool
  cb_hasException :: bool

definition CacheBlock_new :: "int \<Rightarrow> string list \<Rightarrow> cache_block" where
  "CacheBlock_new maxCount columns =
     \<lparr>cb_rows = [], cb_columns = columns, cb_maxCount = maxCount, cb_isFull = False, cb_hasException = False\<rparr>"

abbreviation BLOCK_OK :: int where "BLOCK_OK \<equiv> SHARED_BLOCK_OK"
abbreviation BLOCK_BAD_VALUE :: int where "BLOCK_BAD_VALUE \<equiv> SHARED_BLOCK_BAD_VALUE"

definition CacheBlock_Clear :: "cache_block \<Rightarrow> int \<times> cache_block" where
  "CacheBlock_Clear B = (BLOCK_OK, B\<lparr>cb_rows := []\<rparr>)"

definition CacheBlock_SetColumnNum :: "nat \<Rightarrow> cache_block \<Rightarrow> int \<times> cache_block" where
  "CacheBlock_SetColumnNum numColumns B = (BLOCK_OK, B)"

text \<open>\<open>static_cast<size_t>(maxCount_)\<close> makes a negative limit very large.\<close>

definition CacheBlock_AllocRow :: "cache_block \<Rightarrow> int \<times> cache_block" where
  "CacheBlock_AllocRow B =
     (if length (cb_rows B) \<ge> nat (cb_maxCount B mod 2 ^ 64) then (BLOCK_OK, B\<lparr>cb_isFull := True\<rparr>)
      else (BLOCK_OK, B\<lparr>cb_rows := cb_rows B @ [[]]\<rparr>))"

definition CacheBlock_FreeLastRow :: "cache_block \<Rightarrow> int \<times> cache_block" where
  "CacheBlock_FreeLastRow B = (BLOCK_OK, if cb_rows B \<noteq> [] then B\<lparr>cb_rows := butlast (cb_rows B)\<rparr> else B)"

text \<open>
  The guards that all \<open>Put\<close> methods share; \<open>update\<close> is the change of the row, \<open>None\<close> when the data
  cannot be parsed.
\<close>

definition cache_put ::
    "nat \<Rightarrow> nat \<Rightarrow> bool \<Rightarrow> (string \<Rightarrow> values_bucket \<Rightarrow> values_bucket) option \<Rightarrow> cache_block \<Rightarrow> int \<times> cache_block" where
  "cache_put row column isNull update B =
     (if cb_isFull B then (BLOCK_OK, B)
      else if row \<ge> length (cb_rows B) \<or> column \<ge> length (cb_columns B) \<or> isNull
      then (BLOCK_BAD_VALUE, B\<lparr>cb_hasException := True\<rparr>)
      else
        (case update of
           None \<Rightarrow> (BLOCK_BAD_VALUE, B\<lparr>cb_hasException := True\<rparr>)
         | Some f \<Rightarrow> (BLOCK_OK, B\<lparr>cb_rows := (cb_rows B)[row := f (cb_columns B ! column) (cb_rows B ! row)]\<rparr>)))"

definition CacheBlock_PutBlob :: "nat \<Rightarrow> nat \<Rightarrow> byte list option \<Rightarrow> cache_block \<Rightarrow> int \<times> cache_block" where
  "CacheBlock_PutBlob row column v = cache_put row column (v = None) (Some (\<lambda>c. Put c (VBlob (the v))))"

definition CacheBlock_PutString :: "nat \<Rightarrow> nat \<Rightarrow> byte list option \<Rightarrow> cache_block \<Rightarrow> int \<times> cache_block" where
  "CacheBlock_PutString row column v =
     cache_put row column (v = None)
       (Some (\<lambda>c. if length (the v) < 1 then PutString c [] else PutString c (of_bytes (butlast (the v)))))"

definition CacheBlock_PutAsset ::
    "'j json_ops \<Rightarrow> 64 word \<Rightarrow> nat \<Rightarrow> nat \<Rightarrow> byte list option \<Rightarrow> cache_block \<Rightarrow> int \<times> cache_block" where
  "CacheBlock_PutAsset J now row column v =
     cache_put row column (v = None)
       (let (dataLen, a) = ParserRawData_asset J now (the v) default_asset
        in if dataLen = 0 then None else Some (\<lambda>c. Put c (VAsset a)))"

definition CacheBlock_PutAssets ::
    "'j json_ops \<Rightarrow> 64 word \<Rightarrow> nat \<Rightarrow> nat \<Rightarrow> byte list option \<Rightarrow> cache_block \<Rightarrow> int \<times> cache_block" where
  "CacheBlock_PutAssets J now row column v =
     cache_put row column (v = None)
       (let (dataLen, as) = ParserRawData_assets J now (the v) []
        in if dataLen = 0 then None else Some (\<lambda>c. Put c (VAssets as)))"

definition CacheBlock_PutFloats :: "nat \<Rightarrow> nat \<Rightarrow> byte list option \<Rightarrow> cache_block \<Rightarrow> int \<times> cache_block" where
  "CacheBlock_PutFloats row column v =
     cache_put row column (v = None)
       (let (dataLen, fs) = ParserRawData_floats (the v) []
        in if dataLen = 0 then None else Some (\<lambda>c. Put c (VVecs fs)))"

definition CacheBlock_PutBigInt :: "nat \<Rightarrow> nat \<Rightarrow> byte list option \<Rightarrow> cache_block \<Rightarrow> int \<times> cache_block" where
  "CacheBlock_PutBigInt row column v =
     cache_put row column (v = None)
       (let (dataLen, b) = ParserRawData_bigint (the v) default_big
        in if dataLen = 0 then None else Some (\<lambda>c. Put c (VBigInt b)))"

definition CacheBlock_PutLong :: "nat \<Rightarrow> nat \<Rightarrow> 64 word \<Rightarrow> cache_block \<Rightarrow> int \<times> cache_block" where
  "CacheBlock_PutLong row column w = cache_put row column False (Some (\<lambda>c. PutLong c (sint w)))"

definition CacheBlock_PutDouble :: "nat \<Rightarrow> nat \<Rightarrow> 64 word \<Rightarrow> cache_block \<Rightarrow> int \<times> cache_block" where
  "CacheBlock_PutDouble row column w = cache_put row column False (Some (\<lambda>c. PutDouble c w))"

definition CacheBlock_PutNull :: "nat \<Rightarrow> nat \<Rightarrow> cache_block \<Rightarrow> int \<times> cache_block" where
  "CacheBlock_PutNull row column = cache_put row column False (Some PutNull)"

definition StealRows :: "cache_block \<Rightarrow> values_bucket list \<times> cache_block" where
  "StealRows B = (cb_rows B, B\<lparr>cb_rows := []\<rparr>)"

definition cache_block_ops :: "'j json_ops \<Rightarrow> 64 word \<Rightarrow> cache_block block_ops" where
  "cache_block_ops J now =
     \<lparr>b_Clear = CacheBlock_Clear, b_SetColumnNum = CacheBlock_SetColumnNum, b_AllocRow = CacheBlock_AllocRow,
      b_FreeLastRow = CacheBlock_FreeLastRow, b_PutBlob = CacheBlock_PutBlob, b_PutString = CacheBlock_PutString,
      b_PutAsset = CacheBlock_PutAsset J now, b_PutAssets = CacheBlock_PutAssets J now,
      b_PutFloats = CacheBlock_PutFloats, b_PutBigInt = CacheBlock_PutBigInt, b_PutLong = CacheBlock_PutLong,
      b_PutDouble = CacheBlock_PutDouble, b_PutNull = CacheBlock_PutNull\<rparr>"

lemma cache_block_ops_sel [simp]:
  "b_AllocRow (cache_block_ops J now) = CacheBlock_AllocRow" "b_FreeLastRow (cache_block_ops J now) = CacheBlock_FreeLastRow"
  "b_PutString (cache_block_ops J now) = CacheBlock_PutString" "b_PutLong (cache_block_ops J now) = CacheBlock_PutLong"
  "b_PutDouble (cache_block_ops J now) = CacheBlock_PutDouble" "b_PutNull (cache_block_ops J now) = CacheBlock_PutNull"
  by (simp_all add: cache_block_ops_def)

section \<open>What a block of rows keeps\<close>

text \<open>The value a cell is kept as, if it can be.\<close>

fun cached_value :: "'j json_ops \<Rightarrow> 64 word \<Rightarrow> string option \<Rightarrow> sql_value \<Rightarrow> value_object option" where
  "cached_value J now decl S_Null = Some VNull"
| "cached_value J now decl (S_Integer w) = Some (VInt (sint w))"
| "cached_value J now decl (S_Float d) = Some (VDouble d)"
| "cached_value J now decl (S_Text s) = Some (VString s)"
| "cached_value J now decl (S_Blob b) =
     (if b = [] then None
      else if block_kind decl = CELL_UNIT_TYPE_ASSET
      then (let (n, a) = ParserRawData_asset J now b default_asset in if n = 0 then None else Some (VAsset a))
      else if block_kind decl = CELL_UNIT_TYPE_ASSETS
      then (let (n, as) = ParserRawData_assets J now b [] in if n = 0 then None else Some (VAssets as))
      else if block_kind decl = CELL_UNIT_TYPE_FLOATS
      then (let (n, fs) = ParserRawData_floats b [] in if n = 0 then None else Some (VVecs fs))
      else if block_kind decl = CELL_UNIT_TYPE_BIGINT
      then (let (n, i) = ParserRawData_bigint b default_big in if n = 0 then None else Some (VBigInt i))
      else Some (VBlob b))"

lemma cache_put_full: "cb_isFull B \<Longrightarrow> cache_put r c nul u B = (BLOCK_OK, B)"
  by (simp add: cache_put_def)

lemma block_kind_cases: "block_kind decl \<in> {4, 5, 6, 7, 8}"
  by (auto simp: block_kind_def Let_def split: option.split)

lemma put_of_cache:
  "put_of (cache_block_ops J now) k r c v B =
     (if k = 3 then CacheBlock_PutString r c v B else if k = 5 then CacheBlock_PutAsset J now r c v B
      else if k = 6 then CacheBlock_PutAssets J now r c v B else if k = 7 then CacheBlock_PutFloats r c v B
      else if k = 8 then CacheBlock_PutBigInt r c v B else CacheBlock_PutBlob r c v B)"
  by (simp add: put_of_def cache_block_ops_def)

lemmas cache_puts = CacheBlock_PutBlob_def CacheBlock_PutString_def CacheBlock_PutAsset_def CacheBlock_PutAssets_def
  CacheBlock_PutFloats_def CacheBlock_PutBigInt_def CacheBlock_PutLong_def CacheBlock_PutDouble_def CacheBlock_PutNull_def

lemma fill_cell_full:
  assumes "column_is Q t (int i) v" "cb_isFull B"
  shows "fill_cell Q (cache_block_ops J now) t a i B = (FILL_ONE_ROW_SUCESS, B)"
  using assms
  by (cases v) (auto simp: fill_cell_def FillOneRowOfNull_def FillOneRowOfLong_def FillOneRowOfFloat_def
      FillOneRowOfString_def FillOneRowOfBlob_def blob_action_put put_of_cache put_result_def cache_put_full Let_def
      cache_puts)

lemma butlast_take_text: "take (nat (int (length s) + 1)) (to_bytes s @ [0]) = to_bytes s @ [0]"
  by (simp add: nat_add_distrib)

lemma put_absent:
  assumes "om_invar m" "map_of m c = None"
  shows "om_invar (om_emplace c v m) \<and> map_of (om_emplace c v m) = (map_of m)(c \<mapsto> v)"
    "om_invar (om_assign c v m) \<and> map_of (om_assign c v m) = (map_of m)(c \<mapsto> v)"
  using assms
  by (auto simp: smap.invar_emplace smap.invar_assign smap.find_emplace smap.find_assign fun_eq_iff)

lemma fill_cell_cache:
  assumes "column_is Q t (int i) v" "cached_value J now (sqlite3_column_decltype Q t (int i)) v = Some x"
    and B: "\<not> cb_isFull B" "nat a < length (cb_rows B)" "i < length (cb_columns B)"
    and m: "om_invar (cb_rows B ! nat a)" "map_of (cb_rows B ! nat a) (cb_columns B ! i) = None"
  shows "\<exists>m'. fill_cell Q (cache_block_ops J now) t a i B = (FILL_ONE_ROW_SUCESS, B\<lparr>cb_rows := (cb_rows B)[nat a := m']\<rparr>)
    \<and> om_invar m' \<and> map_of m' = (map_of (cb_rows B ! nat a))(cb_columns B ! i \<mapsto> x)"
proof -
  note defs = fill_cell_def FillOneRowOfNull_def FillOneRowOfLong_def FillOneRowOfFloat_def FillOneRowOfString_def
    FillOneRowOfBlob_def blob_action_put put_of_cache put_result_def cache_put_def Let_def cache_puts bucket_defs
    butlast_take_text
  show ?thesis
  proof (cases v)
    case (S_Blob b)
    then show ?thesis
      using assms put_absent [OF m] block_kind_cases [of "sqlite3_column_decltype Q t (int i)"]
      by (auto simp: defs split: if_splits prod.splits)
  qed (use assms put_absent [OF m] in \<open>auto simp: defs of_to_bytes\<close>)
qed

text \<open>The row of the first \<open>m\<close> columns.\<close>

definition kept_row ::
    "'j json_ops \<Rightarrow> 64 word \<Rightarrow> string list \<Rightarrow> (nat \<Rightarrow> string option) \<Rightarrow> nat \<Rightarrow> sql_value list \<Rightarrow> string \<rightharpoonup> value_object" where
  "kept_row J now cols decl m row = map_of (map (\<lambda>c. (cols ! c, the (cached_value J now (decl c) (row ! c)))) [0..<m])"

lemma kept_row_0 [simp]: "kept_row J now cols decl 0 row = Map.empty"
  by (simp add: kept_row_def)

lemma kept_row_Suc:
  assumes "distinct cols" "m < length cols"
  shows "kept_row J now cols decl m row (cols ! m) = None"
    "kept_row J now cols decl (Suc m) row = (kept_row J now cols decl m row)(cols ! m \<mapsto> the (cached_value J now (decl m) (row ! m)))"
proof -
  have "cols ! c \<noteq> cols ! m" if "c < m" for c using assms that by (simp add: nth_eq_iff_index_eq)
  then show none: "kept_row J now cols decl m row (cols ! m) = None"
    by (fastforce simp: kept_row_def map_of_eq_None_iff)
  then show "kept_row J now cols decl (Suc m) row = (kept_row J now cols decl m row)(cols ! m \<mapsto> the (cached_value J now (decl m) (row ! m)))"
    by (auto simp: kept_row_def map_add_def fun_eq_iff split: option.split)
qed

lemma kept_row_nth:
  "distinct cols \<Longrightarrow> m \<le> length cols \<Longrightarrow> c < m \<Longrightarrow>
     kept_row J now cols decl m row (cols ! c) = Some (the (cached_value J now (decl c) (row ! c)))"
proof (induction m)
  case (Suc m)
  then show ?case by (cases "c = m") (auto simp: kept_row_Suc nth_eq_iff_index_eq)
qed simp

text \<open>A query whose first \<open>n\<close> columns can be kept.\<close>

definition cacheable :: "'j json_ops \<Rightarrow> 64 word \<Rightarrow> (nat \<Rightarrow> string option) \<Rightarrow> nat \<Rightarrow> sql_value list list \<Rightarrow> bool" where
  "cacheable J now decl n rows \<longleftrightarrow> (\<forall>row \<in> set rows. \<forall>c < n. cached_value J now (decl c) (row ! c) \<noteq> None)"

lemma FillOneRow_loop_cache:
  assumes "i + m = n" "n \<le> length (cb_columns B)" "distinct (cb_columns B)"
    and col: "\<And>c. c < n \<Longrightarrow> column_is Q t (int c) (row ! c) \<and> cached_value J now (decl c) (row ! c) \<noteq> None
      \<and> sqlite3_column_decltype Q t (int c) = decl c"
    and "\<not> cb_isFull B" "nat a < length (cb_rows B)" "om_invar (cb_rows B ! nat a)"
      "map_of (cb_rows B ! nat a) = kept_row J now (cb_columns B) decl i row"
  shows "\<exists>m'. FillOneRow_loop Q (cache_block_ops J now) t a m i FILL_ONE_ROW_SUCESS B
      = (FILL_ONE_ROW_SUCESS, B\<lparr>cb_rows := (cb_rows B)[nat a := m']\<rparr>)
    \<and> om_invar m' \<and> map_of m' = kept_row J now (cb_columns B) decl n row"
  using assms(1,2,3,5-)
proof (induction m arbitrary: i B)
  case 0
  then show ?case by (intro exI [of _ "cb_rows B ! nat a"]) simp
next
  case (Suc m)
  have i: "i < n" "i < length (cb_columns B)" using Suc.prems(1,2) by simp_all
  note c = col [OF i(1)]
  obtain x where x: "cached_value J now (decl i) (row ! i) = Some x" using c by auto
  have "map_of (cb_rows B ! nat a) (cb_columns B ! i) = None"
    unfolding Suc.prems(7) by (rule kept_row_Suc(1) [OF Suc.prems(3) i(2)])
  then obtain m1 where m1: "fill_cell Q (cache_block_ops J now) t a i B = (FILL_ONE_ROW_SUCESS, B\<lparr>cb_rows := (cb_rows B)[nat a := m1]\<rparr>)"
      "om_invar m1" "map_of m1 = kept_row J now (cb_columns B) decl (Suc i) row"
    using fill_cell_cache [of Q t i "row ! i" J now x B a] c x Suc.prems(4-7) i(2)
      kept_row_Suc(2) [OF Suc.prems(3) i(2), of J now decl row] by auto
  let ?B = "B\<lparr>cb_rows := (cb_rows B)[nat a := m1]\<rparr>"
  obtain m' where "FillOneRow_loop Q (cache_block_ops J now) t a m (Suc i) FILL_ONE_ROW_SUCESS ?B
      = (FILL_ONE_ROW_SUCESS, ?B\<lparr>cb_rows := (cb_rows ?B)[nat a := m']\<rparr>)" "om_invar m'"
      "map_of m' = kept_row J now (cb_columns ?B) decl n row"
    using Suc.IH [of "Suc i" ?B] Suc.prems m1 by auto
  then show ?case
    unfolding FillOneRow_loop_Suc [OF conjunct1 [OF c]] m1(1) by (intro exI [of _ m']) simp
qed

lemma FillOneRow_loop_full:
  assumes "\<And>c. c < i + m \<Longrightarrow> \<exists>v. column_is Q t (int c) v" "cb_isFull B"
  shows "FillOneRow_loop Q (cache_block_ops J now) t a m i FILL_ONE_ROW_SUCESS B = (FILL_ONE_ROW_SUCESS, B)"
  using assms
proof (induction m arbitrary: i)
  case (Suc m)
  obtain v where v: "column_is Q t (int i) v" using Suc.prems(1) [of i] by auto
  have "FillOneRow_loop Q (cache_block_ops J now) t a m (Suc i) FILL_ONE_ROW_SUCESS B = (FILL_ONE_ROW_SUCESS, B)"
    by (rule Suc.IH) (use Suc.prems in auto)
  then show ?case unfolding FillOneRow_loop_Suc [OF v] fill_cell_full [OF v Suc.prems(2)] by simp
qed simp

text \<open>The block after \<open>T\<close> rows of the query.\<close>

definition keeps ::
    "'j json_ops \<Rightarrow> 64 word \<Rightarrow> string list \<Rightarrow> (nat \<Rightarrow> string option) \<Rightarrow> nat \<Rightarrow> nat \<Rightarrow> sql_value list list \<Rightarrow> nat \<Rightarrow> cache_block \<Rightarrow> bool" where
  "keeps J now cols decl n limit rows T B \<longleftrightarrow>
     cb_columns B = cols \<and> nat (cb_maxCount B mod 2 ^ 64) = limit \<and> \<not> cb_hasException B
     \<and> length (cb_rows B) = min T limit \<and> (cb_isFull B \<longleftrightarrow> limit < T)
     \<and> (\<forall>r < min T limit. om_invar (cb_rows B ! r) \<and> map_of (cb_rows B ! r) = kept_row J now cols decl n (rows ! r))"

lemma FillOneRow_keeps:
  assumes "keeps J now cols decl n limit rows T B" "n \<le> length cols" "distinct cols"
    and col: "\<And>c. c < n \<Longrightarrow> column_is Q t (int c) (rows ! T ! c) \<and> cached_value J now (decl c) (rows ! T ! c) \<noteq> None
      \<and> sqlite3_column_decltype Q t (int c) = decl c"
  shows "\<exists>B'. FillOneRow Q (cache_block_ops J now) t (int n) (int T) B = (FILL_ONE_ROW_SUCESS, B')
    \<and> keeps J now cols decl n limit rows (Suc T) B'"
proof (cases "T < limit")
  case True
  let ?B = "B\<lparr>cb_rows := cb_rows B @ [[]]\<rparr>"
  have len: "length (cb_rows B) = T" using assms(1) True by (simp add: keeps_def)
  have alloc: "CacheBlock_AllocRow B = (BLOCK_OK, ?B)" using assms(1) True by (simp add: keeps_def CacheBlock_AllocRow_def)
  obtain m' where m': "FillOneRow_loop Q (cache_block_ops J now) t (int T) n 0 FILL_ONE_ROW_SUCESS ?B
      = (FILL_ONE_ROW_SUCESS, ?B\<lparr>cb_rows := (cb_rows ?B)[T := m']\<rparr>)" "om_invar m'" "map_of m' = kept_row J now cols decl n (rows ! T)"
    using FillOneRow_loop_cache [of 0 n n ?B Q t "rows ! T" J now decl "int T"] assms True len
    by (auto simp: keeps_def nth_append)
  have upd: "(cb_rows B @ [[]])[T := m'] = cb_rows B @ [m']" using len by (simp add: list_update_append)
  have "keeps J now cols decl n limit rows (Suc T) (B\<lparr>cb_rows := cb_rows B @ [m']\<rparr>)"
    using assms(1) True len m'(2,3) by (auto simp: keeps_def nth_append less_Suc_eq)
  then show ?thesis using m'(1) alloc upd by (simp add: FillOneRow_def)
next
  case False
  let ?B = "B\<lparr>cb_isFull := True\<rparr>"
  have alloc: "CacheBlock_AllocRow B = (BLOCK_OK, ?B)" using assms(1) False by (simp add: keeps_def CacheBlock_AllocRow_def)
  have "FillOneRow_loop Q (cache_block_ops J now) t (int T) n 0 FILL_ONE_ROW_SUCESS ?B = (FILL_ONE_ROW_SUCESS, ?B)"
    by (rule FillOneRow_loop_full) (use col in auto)
  moreover have "keeps J now cols decl n limit rows (Suc T) ?B" using assms(1) False by (auto simp: keeps_def min_def)
  ultimately show ?thesis using alloc by (simp add: FillOneRow_def)
qed

lemma FillSharedBlock_loop_keeps:
  assumes q: "sqlite_query Q ok at names rows" "declares Q ok n decl" "cacheable J now decl n rows" "n \<le> length names" "distinct names"
    and "bi_sharedBlock info = Some B" "keeps J now names decl n limit rows T B" "bi_startPos info = 0"
      "bi_addedRows info = int T" "bi_totalRows info = int T" "bi_columnNum info = int n" "bi_isCountAllRows info"
      "\<not> bi_isFull info" "\<not> bi_hasException info" "T \<le> length rows" "ok t" "at t = T"
  shows "\<exists>info' t' B'. FillSharedBlock_loop Q (cache_block_ops J now) retryTime retryCount False False info t = Some (E_OK, info', t')
    \<and> ok t' \<and> bi_sharedBlock info' = Some B' \<and> keeps J now names decl n limit rows (length rows) B'
    \<and> bi_totalRows info' = int (length rows) \<and> \<not> bi_isFull info'"
  using assms(6-)
proof (induction "length rows - T" arbitrary: T info t retryCount B)
  case 0
  then have T: "T = length rows" by simp
  then obtain t1 where "sqlite3_step Q t = (SQLITE_DONE, t1)" "ok t1"
    using sqlite_queryD(2) [OF q(1), of t] "0.prems" by auto
  then show ?case using "0.prems" T by (subst FillSharedBlock_loop.simps) (simp add: SQLITE_ROW_def SQLITE_DONE_def)
next
  case (Suc m)
  have T: "T < length rows" and m: "m = length rows - Suc T" using Suc.hyps(2) by simp_all
  obtain t1 where t1: "sqlite3_step Q t = (SQLITE_ROW, t1)" "ok t1" "at t1 = Suc T"
    using sqlite_queryD(1) [OF q(1), of t] Suc.prems(11,12) T by auto
  have col: "column_is Q t1 (int c) (rows ! T ! c) \<and> cached_value J now (decl c) (rows ! T ! c) \<noteq> None
      \<and> sqlite3_column_decltype Q t1 (int c) = decl c" if "c < n" for c
    using sqlite_queryD(5) [OF q(1) t1(2), of c] q(2-4) that t1 T by (simp add: declares_def cacheable_def)
  obtain B' where B': "FillOneRow Q (cache_block_ops J now) t1 (int n) (int T) B = (FILL_ONE_ROW_SUCESS, B')"
      "keeps J now names decl n limit rows (Suc T) B'"
    using FillOneRow_keeps [OF Suc.prems(2) q(4,5) col] by blast
  let ?info = "info\<lparr>bi_totalRows := int (Suc T), bi_sharedBlock := Some B', bi_addedRows := int (Suc T)\<rparr>"
  have "fill_row Q (cache_block_ops J now) t1 (info\<lparr>bi_totalRows := int T + 1\<rparr>) = ?info"
    using Suc.prems B' by (simp add: fill_row_def FillRow_def)
  then have "FillSharedBlock_loop Q (cache_block_ops J now) retryTime retryCount False False info t
      = FillSharedBlock_loop Q (cache_block_ops J now) retryTime 0 False False ?info t1"
    using t1 Suc.prems by (subst FillSharedBlock_loop.simps) (simp add: Let_def)
  then show ?case using Suc.hyps(1) [OF m, of ?info B' t1 0] Suc.prems B'(2) t1 T by simp
qed

lemma keeps_new: "keeps J now names decl n (nat (maxCount mod 2 ^ 64)) rows 0 (CacheBlock_new maxCount names)"
  by (simp add: keeps_def CacheBlock_new_def)

lemma FillSharedBlock_keeps:
  assumes "sqlite_query Q ok at names rows" "declares Q ok n decl" "cacheable J now decl n rows" "n \<le> length names" "distinct names"
    and "ok t" "at t = 0"
    and i: "bi_sharedBlock info = Some (CacheBlock_new maxCount names)" "bi_startPos info = 0" "bi_columnNum info = int n"
      "bi_isCountAllRows info" "\<not> bi_isFull info" "\<not> bi_hasException info"
  shows "\<exists>info' t' B. FillSharedBlock Q (cache_block_ops J now) retryTime info t = Some (E_OK, info', t')
    \<and> ok t' \<and> bi_sharedBlock info' = Some B \<and> keeps J now names decl n (nat (maxCount mod 2 ^ 64)) rows (length rows) B
    \<and> bi_totalRows info' = int (length rows) \<and> \<not> bi_isFull info'"
  unfolding FillSharedBlock_def
  by (rule FillSharedBlock_loop_keeps [OF assms(1-5) _ keeps_new]) (use assms(6-) in simp_all)

section \<open>Properties\<close>

text \<open>
  C33: a block of rows filled from a query keeps the first \<open>maxCount\<close> rows and counts all of them:
  each kept row maps each column to its value, and has no other columns.
\<close>

theorem cache_block_keeps_first_rows:
  assumes "sqlite_query Q ok at names rows" "declares Q ok (length names) decl" "cacheable J now decl (length names) rows"
    and "distinct names" "ok t" "at t = 0" "0 \<le> maxCount" "maxCount < 2 ^ 31"
    and "info = (SharedBlockInfo_new (Some (CacheBlock_new maxCount names)))\<lparr>bi_columnNum := int (length names), bi_isCountAllRows := True\<rparr>"
  shows "\<exists>info' t' B. FillSharedBlock Q (cache_block_ops J now) retryTime info t = Some (E_OK, info', t')
    \<and> bi_sharedBlock info' = Some B \<and> \<not> cb_hasException B \<and> bi_totalRows info' = int (length rows)
    \<and> length (fst (StealRows B)) = min (nat maxCount) (length rows)
    \<and> (\<forall>r < length (fst (StealRows B)).
         dom (map_of (fst (StealRows B) ! r)) = set names
         \<and> (\<forall>c < length names. map_of (fst (StealRows B) ! r) (names ! c) = cached_value J now (decl c) (rows ! r ! c)))"
proof -
  obtain info' t' B where F: "FillSharedBlock Q (cache_block_ops J now) retryTime info t = Some (E_OK, info', t')"
      "bi_sharedBlock info' = Some B" "keeps J now names decl (length names) (nat (maxCount mod 2 ^ 64)) rows (length rows) B"
      "bi_totalRows info' = int (length rows)"
    using FillSharedBlock_keeps [OF assms(1-3) le_refl assms(4-6), of info maxCount retryTime] assms(9)
    by (auto simp: SharedBlockInfo_new_def)
  have lim: "nat (maxCount mod 2 ^ 64) = nat maxCount" using assms(7,8) by simp
  let ?row = "\<lambda>r. kept_row J now names decl (length names) (rows ! r)"
  have "dom (?row r) = set names" for r
    by (auto simp: kept_row_def dom_map_of_conv_image_fst image_image in_set_conv_nth)
  moreover have "?row r (names ! c) = cached_value J now (decl c) (rows ! r ! c)" if "r < length rows" "c < length names" for r c
    using kept_row_nth [OF assms(4) le_refl that(2), of J now decl] assms(3) that by (auto simp: cacheable_def)
  ultimately show ?thesis using F lim by (auto simp: keeps_def StealRows_def)
qed

theorem cache_block_keeps_first_rows_witness:
  "\<exists>info' t' B. FillSharedBlock sample_query (cache_block_ops sample_ops 0) 0
      ((SharedBlockInfo_new (Some (CacheBlock_new 2 [''id'', ''v''])))\<lparr>bi_columnNum := 2, bi_isCountAllRows := True\<rparr>) (Some 0)
        = Some (E_OK, info', t')
    \<and> bi_sharedBlock info' = Some B \<and> bi_totalRows info' = 3 \<and> length (fst (StealRows B)) = 2
    \<and> map_of (fst (StealRows B) ! 1) ''v'' = Some (VBlob [1, 2])"
proof -
  let ?d = "\<lambda>i. [Some ''INTEGER'', Some ''BLOB''] ! i"
  have c: "cacheable sample_ops 0 ?d 2 sample_rows"
    by (auto simp: cacheable_def sample_rows_def less_2_cases_iff block_kind_def StrToUpper_def to_upper_def TruncateAfterFirstParen_def)
  have v: "cached_value sample_ops 0 (Some ''BLOB'') (S_Blob [1, 2]) = Some (VBlob [1, 2])"
    by (simp add: block_kind_def StrToUpper_def to_upper_def TruncateAfterFirstParen_def)
  from cache_block_keeps_first_rows [OF sample_query_facts(1), of ?d sample_ops 0 "Some 0" 2 _ 0] sample_query_facts(2) c
  have "\<exists>info' t' B. FillSharedBlock sample_query (cache_block_ops sample_ops 0) 0
      ((SharedBlockInfo_new (Some (CacheBlock_new 2 [''id'', ''v''])))\<lparr>bi_columnNum := 2, bi_isCountAllRows := True\<rparr>) (Some 0)
        = Some (E_OK, info', t')
    \<and> bi_sharedBlock info' = Some B \<and> bi_totalRows info' = 3 \<and> length (fst (StealRows B)) = 2
    \<and> (\<forall>c < 2. map_of (fst (StealRows B) ! 1) ([''id'', ''v''] ! c) = cached_value sample_ops 0 (?d c) (sample_rows ! 1 ! c))"
    by (auto simp: numeral_2_eq_2 sample_rows_def)
  then obtain info' t' B where F: "FillSharedBlock sample_query (cache_block_ops sample_ops 0) 0
      ((SharedBlockInfo_new (Some (CacheBlock_new 2 [''id'', ''v''])))\<lparr>bi_columnNum := 2, bi_isCountAllRows := True\<rparr>) (Some 0)
        = Some (E_OK, info', t')"
      "bi_sharedBlock info' = Some B" "bi_totalRows info' = 3" "length (fst (StealRows B)) = 2"
      "\<forall>c < 2. map_of (fst (StealRows B) ! 1) ([''id'', ''v''] ! c) = cached_value sample_ops 0 (?d c) (sample_rows ! 1 ! c)"
    by blast
  have "map_of (fst (StealRows B) ! 1) ''v'' = Some (VBlob [1, 2])"
    using F(5) [rule_format, of 1] v by (simp add: sample_rows_def)
  then show ?thesis using F(1-4) by blast
qed

end
