(* ===== verification/Sqlite_Statement.thy ===== *)
theory Sqlite_Statement
  imports Cache_Block Result_Set
begin

text \<open>
  \<open>SqliteStatement\<close> (\<open>sqlite_statement.cpp\<close>): a prepared statement of sqlite with its parameters, the
  types of its columns, the connection it belongs to and, when the store keeps a replica, the same
  statement on the replica. The library, the JSON codec of assets, the clock and what a statement
  asks of its connection are the record \<open>stmt_lib\<close>. The statement of the replica has no replica of
  its own, so it is the record without the members for one. Reports, statistics and logs have no
  effect on what is modelled and are left out, but for the choice of the report for a missing table
  or column.
\<close>

section \<open>The object\<close>

record ('d, 't, 'c, 'j) stmt_lib =
  l_sqlite :: "('d, 't) sqlite3"
  l_json :: "'j json_ops"
  l_now :: "64 word"
  l_nullData :: bool
  l_IsWriter :: "'c \<Rightarrow> bool"
  l_LimitWalSize :: "'c \<Rightarrow> int"
  l_posix :: posix

record ('t, 'c) stmt_core =
  ss_readOnly :: bool
  ss_bound :: bool
  ss_columnCount :: int
  ss_numParameters :: int
  ss_stmt :: 't
  ss_conn :: "'c option"
  ss_sql :: string
  ss_types :: "int list"

record ('t, 'c) sqlite_statement = "('t, 'c) stmt_core" +
  ss_slave :: "('t, 'c) stmt_core option"
  ss_path :: string
  ss_files :: file_system

abbreviation null_stmt :: "('d, 't, 'c, 'j) stmt_lib \<Rightarrow> 't" where
  "null_stmt L \<equiv> sqlite3_null (l_sqlite L)"

definition SqliteStatement_new :: "('d, 't, 'c, 'j) stmt_lib \<Rightarrow> string \<Rightarrow> file_system \<Rightarrow> ('t, 'c) sqlite_statement" where
  "SqliteStatement_new L path files =
     \<lparr>ss_readOnly = False, ss_bound = False, ss_columnCount = 0, ss_numParameters = 0, ss_stmt = null_stmt L,
      ss_conn = None, ss_sql = [], ss_types = [], ss_slave = None, ss_path = path, ss_files = files\<rparr>"

definition mark_slave_invalid :: "('d, 't, 'c, 'j) stmt_lib \<Rightarrow> ('t, 'c) sqlite_statement \<Rightarrow> ('t, 'c) sqlite_statement" where
  "mark_slave_invalid L s = s\<lparr>ss_files := snd (SetSlaveInvalid (l_posix L) (ss_path s) (ss_files s))\<rparr>"

section \<open>Preparing\<close>

abbreviation COLUMN_TYPE_INVALID :: int where "COLUMN_TYPE_INVALID \<equiv> 0"

text \<open>The report for an error message of \<open>Prepare\<close>: its kind and its text.\<close>

datatype fault_code = E_DFX_IS_NOT_CREATE | E_DFX_IS_DELETE | E_DFX_IS_RENAME | E_DFX_IS_NOT_EXIST

definition state_report :: "string \<Rightarrow> string \<Rightarrow> err_msg_state \<Rightarrow> fault_code \<times> string" where
  "state_report what errMsg state =
     (if \<not> isCreated state then (E_DFX_IS_NOT_CREATE, what @ '' is not created '' @ errMsg)
      else if isDeleted state then (E_DFX_IS_DELETE, what @ '' is deleted '' @ errMsg)
      else if isRenamed state then (E_DFX_IS_RENAME, what @ '' is renamed '' @ errMsg)
      else (E_DFX_IS_NOT_EXIST, errMsg))"

definition TableReport :: "string \<Rightarrow> err_msg_state \<Rightarrow> fault_code \<times> string" where
  "TableReport = state_report ''table''"

definition ColumnReport :: "string \<Rightarrow> err_msg_state \<Rightarrow> fault_code \<times> string" where
  "ColumnReport = state_report ''column''"

definition HandleErrMsg :: "string \<Rightarrow> string \<Rightarrow> file_system \<Rightarrow> (fault_code \<times> string) list" where
  "HandleErrMsg errMsg dbPath fs =
     concat (map (\<lambda>err.
       if str_find err errMsg = None then []
       else if err = ''no such table:''
       then [TableReport errMsg (CompareTableFileContent dbPath (GetErrInfoFromMsg errMsg err) fs)]
       else [ColumnReport errMsg (CompareColumnFileContent dbPath (GetErrInfoFromMsg errMsg err) fs)])
     [''no such table:'', ''no such column:'', ''has no column named''])"

definition InnerFinalize ::
    "('d, 't, 'c, 'j) stmt_lib \<Rightarrow> ('t, 'c, 'z) stmt_core_scheme \<Rightarrow> int \<times> ('t, 'c, 'z) stmt_core_scheme" where
  "InnerFinalize L s =
     (if ss_stmt s = null_stmt L then (E_OK, s)
      else
        (let errCode = sqlite3_finalize (l_sqlite L) (ss_stmt s);
             s1 = s\<lparr>ss_stmt := null_stmt L, ss_sql := [], ss_readOnly := False, ss_columnCount := -1,
                    ss_numParameters := 0, ss_types := []\<rparr>
         in (if errCode \<noteq> SQLITE_OK then GetRdbErrorCode errCode else E_OK, s1)))"

definition Prepare_db ::
    "('d, 't, 'c, 'j) stmt_lib \<Rightarrow> 'd \<Rightarrow> string \<Rightarrow> ('t, 'c, 'z) stmt_core_scheme \<Rightarrow> int \<times> ('t, 'c, 'z) stmt_core_scheme" where
  "Prepare_db L dbHandle newSql s =
     (if ss_sql s = newSql then (E_OK, s)
      else
        (let (errCode, stmt) = sqlite3_prepare_v2 (l_sqlite L) dbHandle newSql
         in if errCode \<noteq> SQLITE_OK then (GetRdbErrorCode errCode, s)
            else
              (let s1 = snd (InnerFinalize L s);
                   n = sqlite3_column_count (l_sqlite L) stmt
               in (E_OK, s1\<lparr>ss_sql := newSql, ss_stmt := stmt, ss_readOnly := sqlite3_stmt_readonly (l_sqlite L) stmt,
                     ss_columnCount := n, ss_types := replicate (nat n) COLUMN_TYPE_INVALID,
                     ss_numParameters := sqlite3_bind_parameter_count (l_sqlite L) stmt\<rparr>))))"

definition prepare_self ::
    "('d, 't, 'c, 'j) stmt_lib \<Rightarrow> string \<Rightarrow> ('t, 'c, 'z) stmt_core_scheme \<Rightarrow> int \<times> ('t, 'c, 'z) stmt_core_scheme" where
  "prepare_self L sql s =
     (if ss_stmt s = null_stmt L then (E_ERROR, s)
      else Prepare_db L (sqlite3_db_handle (l_sqlite L) (ss_stmt s)) sql s)"

definition Stmt_Prepare ::
    "('d, 't, 'c, 'j) stmt_lib \<Rightarrow> string \<Rightarrow> ('t, 'c) sqlite_statement \<Rightarrow> int \<times> ('t, 'c) sqlite_statement" where
  "Stmt_Prepare L sql s =
     (let (errCode, s1) = prepare_self L sql s
      in if errCode \<noteq> E_OK then (errCode, s1)
         else
           (case ss_slave s1 of
              None \<Rightarrow> (E_OK, s1)
            | Some sl \<Rightarrow>
                (let (e, sl1) = prepare_self L sql sl;
                     s2 = s1\<lparr>ss_slave := Some sl1\<rparr>
                 in (E_OK, if e \<noteq> E_OK then mark_slave_invalid L s2 else s2))))"

section \<open>Binding\<close>

text \<open>
  The value an argument is bound as: the functions of the table \<open>ACTIONS\<close>, which is indexed by the
  alternative of the variant. A \<open>value_object\<close> always holds one of them, so the checks for a variant
  without a value never fail.
\<close>

fun bind_value :: "('d, 't, 'c, 'j) stmt_lib \<Rightarrow> value_object \<Rightarrow> sql_value" where
  "bind_value L VNull = S_Null"
| "bind_value L (VInt i) = S_Integer (word_of_int i)"
| "bind_value L (VDouble d) = S_Float d"
| "bind_value L (VString s) = S_Text s"
| "bind_value L (VBool b) = S_Integer (if b then 1 else 0)"
| "bind_value L (VBlob b) = S_Blob b"
| "bind_value L (VAsset a) = S_Blob (PackageRawData_asset (l_json L) a)"
| "bind_value L (VAssets as) = S_Blob (PackageRawData_assets (l_json L) as)"
| "bind_value L (VVecs fs) = S_Blob (PackageRawData_floats fs)"
| "bind_value L (VBigInt b) = S_Blob (PackageRawData_bigint (l_nullData L) b)"

fun BindArgs_loop ::
    "('d, 't, 'c, 'j) stmt_lib \<Rightarrow> value_object list \<Rightarrow> int \<Rightarrow> ('t, 'c, 'z) stmt_core_scheme \<Rightarrow> int \<times> ('t, 'c, 'z) stmt_core_scheme" where
  "BindArgs_loop L [] index s = (E_OK, s)"
| "BindArgs_loop L (arg # args) index s =
     (let (errCode, t) = sqlite3_bind (l_sqlite L) index (bind_value L arg) (ss_stmt s);
          s1 = s\<lparr>ss_stmt := t\<rparr>
      in if errCode \<noteq> SQLITE_OK then (GetRdbErrorCode errCode, s1) else BindArgs_loop L args (index + 1) s1)"

definition BindArgs ::
    "('d, 't, 'c, 'j) stmt_lib \<Rightarrow> value_object list \<Rightarrow> ('t, 'c, 'z) stmt_core_scheme \<Rightarrow> int \<times> ('t, 'c, 'z) stmt_core_scheme" where
  "BindArgs L bindArgs s =
     (let s1 = (if ss_bound s
                then s\<lparr>ss_stmt := sqlite3_clear_bindings (l_sqlite L) (snd (sqlite3_reset (l_sqlite L) (ss_stmt s)))\<rparr>
                else s)
      in BindArgs_loop L bindArgs 1 (s1\<lparr>ss_bound := True\<rparr>))"

definition bind_self ::
    "('d, 't, 'c, 'j) stmt_lib \<Rightarrow> value_object list \<Rightarrow> ('t, 'c, 'z) stmt_core_scheme \<Rightarrow> int \<times> ('t, 'c, 'z) stmt_core_scheme" where
  "bind_self L args s =
     (let count = to_i32 (int (length args));
          abindArgs = (if ss_numParameters s \<noteq> 0 \<and> count \<le> ss_numParameters s
                       then args @ replicate (nat (ss_numParameters s - count)) VNull else [])
      in if count > ss_numParameters s then (E_INVALID_BIND_ARGS_COUNT, s) else BindArgs L abindArgs s)"

definition Stmt_Bind ::
    "('d, 't, 'c, 'j) stmt_lib \<Rightarrow> value_object list \<Rightarrow> ('t, 'c) sqlite_statement \<Rightarrow> int \<times> ('t, 'c) sqlite_statement" where
  "Stmt_Bind L args s =
     (if to_i32 (int (length args)) = 0 then (E_OK, s)
      else
        (let (errCode, s1) = bind_self L args s
         in if errCode \<noteq> E_OK then (errCode, s1)
            else
              (case ss_slave s1 of
                 None \<Rightarrow> (E_OK, s1)
               | Some sl \<Rightarrow>
                   (let (e, sl1) = bind_self L args sl;
                        s2 = s1\<lparr>ss_slave := Some sl1\<rparr>
                    in (E_OK, if e \<noteq> E_OK then mark_slave_invalid L s2 else s2)))))"

section \<open>Stepping and executing\<close>

definition InnerStep ::
    "('d, 't, 'c, 'j) stmt_lib \<Rightarrow> ('t, 'c, 'z) stmt_core_scheme \<Rightarrow> int \<times> ('t, 'c, 'z) stmt_core_scheme" where
  "InnerStep L s =
     (let (errCode, t) = sqlite3_step (l_sqlite L) (ss_stmt s) in (GetRdbErrorCode errCode, s\<lparr>ss_stmt := t\<rparr>))"

definition Stmt_Step ::
    "('d, 't, 'c, 'j) stmt_lib \<Rightarrow> ('t, 'c) sqlite_statement \<Rightarrow> int \<times> ('t, 'c) sqlite_statement" where
  "Stmt_Step L s =
     (let (ret, s1) = InnerStep L s
      in if ret \<noteq> E_OK then (ret, s1)
         else (E_OK, s1\<lparr>ss_slave := map_option (\<lambda>sl. snd (InnerStep L sl)) (ss_slave s1)\<rparr>))"

definition reset_self ::
    "('d, 't, 'c, 'j) stmt_lib \<Rightarrow> ('t, 'c, 'z) stmt_core_scheme \<Rightarrow> int \<times> ('t, 'c, 'z) stmt_core_scheme" where
  "reset_self L s =
     (if ss_stmt s = null_stmt L then (E_OK, s)
      else
        (let (errCode, t) = sqlite3_reset (l_sqlite L) (ss_stmt s)
         in (if errCode \<noteq> SQLITE_OK then GetRdbErrorCode errCode else E_OK, s\<lparr>ss_stmt := t\<rparr>)))"

text \<open>A null statement returns before its replica is reset.\<close>

definition Stmt_Reset ::
    "('d, 't, 'c, 'j) stmt_lib \<Rightarrow> ('t, 'c) sqlite_statement \<Rightarrow> int \<times> ('t, 'c) sqlite_statement" where
  "Stmt_Reset L s =
     (if ss_stmt s = null_stmt L then (E_OK, s)
      else
        (let (errCode, s1) = reset_self L s
         in if errCode \<noteq> E_OK then (errCode, s1)
            else (E_OK, s1\<lparr>ss_slave := map_option (\<lambda>sl. snd (reset_self L sl)) (ss_slave s1)\<rparr>)))"

definition Stmt_Finalize ::
    "('d, 't, 'c, 'j) stmt_lib \<Rightarrow> ('t, 'c) sqlite_statement \<Rightarrow> int \<times> ('t, 'c) sqlite_statement" where
  "Stmt_Finalize L s =
     (let (errCode, s1) = InnerFinalize L s
      in if errCode \<noteq> E_OK then (errCode, s1)
         else (E_OK, s1\<lparr>ss_slave := map_option (\<lambda>sl. snd (InnerFinalize L sl)) (ss_slave s1)\<rparr>))"

definition CheckEnvironment :: "('d, 't, 'c, 'j) stmt_lib \<Rightarrow> int \<Rightarrow> ('t, 'c, 'z) stmt_core_scheme \<Rightarrow> int" where
  "CheckEnvironment L paramCount s =
     (if paramCount \<noteq> ss_numParameters s then E_INVALID_BIND_ARGS_COUNT
      else
        (case ss_conn s of
           None \<Rightarrow> E_OK
         | Some conn \<Rightarrow>
             if \<not> l_IsWriter L conn \<and> \<not> ss_readOnly s then E_EXECUTE_WRITE_IN_READ_CONNECTION
             else
               (let sqlType = GetSqlStatementType (ss_sql s)
                in if sqlType \<noteq> STATEMENT_COMMIT \<and> sqlType \<noteq> STATEMENT_ROLLBACK then l_LimitWalSize L conn else E_OK)))"

text \<open>\<open>errno\<close> 28 is a full device.\<close>

definition step_error :: "('d, 't, 'c, 'j) stmt_lib \<Rightarrow> ('t, 'c, 'z) stmt_core_scheme \<Rightarrow> int \<Rightarrow> int" where
  "step_error L s errCode =
     (let db = sqlite3_db_handle (l_sqlite L) (ss_stmt s)
      in if errCode = E_SQLITE_IOERR \<and> sqlite3_system_errno (l_sqlite L) db = 28 then E_SQLITE_IOERR_FULL else errCode)"

definition execute_self ::
    "('d, 't, 'c, 'j) stmt_lib \<Rightarrow> value_object list \<Rightarrow> ('t, 'c, 'z) stmt_core_scheme \<Rightarrow> int \<times> ('t, 'c, 'z) stmt_core_scheme" where
  "execute_self L args s =
     (let errCode = CheckEnvironment L (to_i32 (int (length args))) s
      in if errCode \<noteq> E_OK then (errCode, s)
         else
           (let (errCode1, s1) = BindArgs L args s
            in if errCode1 \<noteq> E_OK then (errCode1, s1)
               else
                 (let (errCode2, s2) = InnerStep L s1
                  in if errCode2 \<noteq> E_NO_MORE_ROWS \<and> errCode2 \<noteq> E_OK then (step_error L s2 errCode2, s2)
                     else (E_OK, s2))))"

definition execute_slave ::
    "('d, 't, 'c, 'j) stmt_lib \<Rightarrow> value_object list \<Rightarrow> ('t, 'c) sqlite_statement \<Rightarrow> ('t, 'c) sqlite_statement" where
  "execute_slave L args s =
     (case ss_slave s of
        None \<Rightarrow> s
      | Some sl \<Rightarrow>
          (let (code, sl1) = execute_self L args sl;
               s1 = s\<lparr>ss_slave := Some sl1\<rparr>
           in if code \<noteq> E_OK then mark_slave_invalid L s1 else s1))"

definition Stmt_Execute ::
    "('d, 't, 'c, 'j) stmt_lib \<Rightarrow> value_object list \<Rightarrow> ('t, 'c) sqlite_statement \<Rightarrow> int \<times> ('t, 'c) sqlite_statement" where
  "Stmt_Execute L args s =
     (let (errCode, s1) = execute_self L args s
      in if errCode \<noteq> E_OK then (errCode, s1) else (E_OK, execute_slave L args s1))"

definition Changes :: "('d, 't, 'c, 'j) stmt_lib \<Rightarrow> ('t, 'c, 'z) stmt_core_scheme \<Rightarrow> int" where
  "Changes L s =
     (if ss_stmt s = null_stmt L then -1
      else sqlite3_changes (l_sqlite L) (sqlite3_db_handle (l_sqlite L) (ss_stmt s)))"

definition LastInsertRowId :: "('d, 't, 'c, 'j) stmt_lib \<Rightarrow> ('t, 'c, 'z) stmt_core_scheme \<Rightarrow> int" where
  "LastInsertRowId L s =
     (if ss_stmt s = null_stmt L then -1
      else sqlite3_last_insert_rowid (l_sqlite L) (sqlite3_db_handle (l_sqlite L) (ss_stmt s)))"

section \<open>Columns\<close>

definition IsValid :: "('d, 't, 'c, 'j) stmt_lib \<Rightarrow> int \<Rightarrow> ('t, 'c, 'z) stmt_core_scheme \<Rightarrow> int" where
  "IsValid L index s =
     (if ss_stmt s = null_stmt L then E_ALREADY_CLOSED
      else if index \<ge> ss_columnCount s \<or> index < 0 then E_COLUMN_OUT_RANGE else E_OK)"

definition Stmt_GetColumnName :: "('d, 't, 'c, 'j) stmt_lib \<Rightarrow> int \<Rightarrow> ('t, 'c, 'z) stmt_core_scheme \<Rightarrow> int \<times> string" where
  "Stmt_GetColumnName L index s =
     (let ret = IsValid L index s
      in if ret \<noteq> E_OK then (ret, [])
         else (case sqlite3_column_name (l_sqlite L) (ss_stmt s) index of None \<Rightarrow> (E_ERROR, []) | Some name \<Rightarrow> (E_OK, name)))"

definition Convert2ColumnType :: "int \<Rightarrow> column_type" where
  "Convert2ColumnType type =
     (if type = SQLITE_INTEGER then CT_INTEGER else if type = SQLITE_FLOAT then CT_FLOAT
      else if type = SQLITE_BLOB then CT_BLOB else if type = SQLITE_TEXT then CT_STRING else CT_NULL)"

definition decl_column_type :: "string \<Rightarrow> column_type" where
  "decl_column_type decl =
     (let declType = TruncateAfterFirstParen (StrToUpper decl)
      in if declType = DECL_ASSET then CT_ASSET else if declType = DECL_ASSETS then CT_ASSETS
         else if declType = DECL_FLOATS then CT_FLOAT32_ARRAY else if declType = DECL_BIGINT then CT_BIGINT
         else CT_BLOB)"

text \<open>The declared type of a blob column is kept in \<open>types_\<close>, which is mutable.\<close>

definition Stmt_GetColumnType ::
    "('d, 't, 'c, 'j) stmt_lib \<Rightarrow> int \<Rightarrow> ('t, 'c, 'z) stmt_core_scheme \<Rightarrow> (int \<times> column_type) \<times> ('t, 'c, 'z) stmt_core_scheme" where
  "Stmt_GetColumnType L index s =
     (let ret = IsValid L index s
      in if ret \<noteq> E_OK then ((ret, CT_NULL), s)
         else
           (let type = sqlite3_column_type (l_sqlite L) (ss_stmt s) index
            in if type \<noteq> SQLITE_BLOB then ((E_OK, Convert2ColumnType type), s)
               else if ss_types s ! nat index \<noteq> COLUMN_TYPE_INVALID then ((E_OK, ss_types s ! nat index), s)
               else
                 (case sqlite3_column_decltype (l_sqlite L) (ss_stmt s) index of
                    None \<Rightarrow> ((E_ERROR, CT_NULL), s)
                  | Some decl \<Rightarrow>
                      (let ct = decl_column_type decl in ((E_OK, ct), s\<lparr>ss_types := (ss_types s)[nat index := ct]\<rparr>)))))"

definition Stmt_GetSize ::
    "('d, 't, 'c, 'j) stmt_lib \<Rightarrow> int \<Rightarrow> ('t, 'c, 'z) stmt_core_scheme \<Rightarrow> (int \<times> nat) \<times> ('t, 'c, 'z) stmt_core_scheme" where
  "Stmt_GetSize L index s =
     (let ((errCode, type), s1) = Stmt_GetColumnType L index s
      in (if errCode \<noteq> E_OK then (errCode, 0)
          else if type = CT_BLOB \<or> type = CT_NULL then (E_OK, nat (sqlite3_column_bytes (l_sqlite L) (ss_stmt s1) index))
          else if type = CT_STRING then (E_OK, nat (sqlite3_column_bytes (l_sqlite L) (ss_stmt s1) index + 1))
          else (E_INVALID_COLUMN_TYPE, 0), s1))"

text \<open>The result of the parser is not looked at: a blob that does not parse gives an empty value.\<close>

definition parse_blob :: "('d, 't, 'c, 'j) stmt_lib \<Rightarrow> column_type \<Rightarrow> byte list \<Rightarrow> value_object" where
  "parse_blob L type b =
     (if type = CT_ASSET then VAsset (snd (ParserRawData_asset (l_json L) (l_now L) b default_asset))
      else if type = CT_ASSETS then VAssets (snd (ParserRawData_assets (l_json L) (l_now L) b []))
      else if type = CT_FLOAT32_ARRAY then VVecs (snd (ParserRawData_floats b []))
      else if type = CT_BIGINT then VBigInt (snd (ParserRawData_bigint b default_big))
      else VBlob b)"

definition GetValueFromBlob :: "('d, 't, 'c, 'j) stmt_lib \<Rightarrow> int \<Rightarrow> column_type \<Rightarrow> ('t, 'c, 'z) stmt_core_scheme \<Rightarrow> value_object" where
  "GetValueFromBlob L index type s =
     (let sz = sqlite3_column_bytes (l_sqlite L) (ss_stmt s) index
      in case sqlite3_column_blob (l_sqlite L) (ss_stmt s) index of
           None \<Rightarrow> VNull
         | Some blob \<Rightarrow> if sz \<le> 0 then VNull else parse_blob L type (take (nat sz) blob))"

definition Stmt_GetColumn ::
    "('d, 't, 'c, 'j) stmt_lib \<Rightarrow> int \<Rightarrow> ('t, 'c, 'z) stmt_core_scheme \<Rightarrow> (int \<times> value_object) \<times> ('t, 'c, 'z) stmt_core_scheme" where
  "Stmt_GetColumn L index s =
     (let ((errCode, type), s1) = Stmt_GetColumnType L index s
      in (if errCode \<noteq> E_OK then (errCode, VNull)
          else if type = CT_FLOAT then (E_OK, VDouble (sqlite3_column_double (l_sqlite L) (ss_stmt s1) index))
          else if type = CT_INTEGER then (E_OK, VInt (sint (sqlite3_column_int64 (l_sqlite L) (ss_stmt s1) index)))
          else if type = CT_STRING
          then (E_OK, VString (case sqlite3_column_text (l_sqlite L) (ss_stmt s1) index of
                                 None \<Rightarrow> []
                               | Some str \<Rightarrow> take (nat (sqlite3_column_bytes (l_sqlite L) (ss_stmt s1) index)) str))
          else if type = CT_NULL then (E_OK, VNull)
          else (E_OK, GetValueFromBlob L index type s1), s1))"

definition ExecuteForValue ::
    "('d, 't, 'c, 'j) stmt_lib \<Rightarrow> value_object list \<Rightarrow> ('t, 'c) sqlite_statement \<Rightarrow> (int \<times> value_object) \<times> ('t, 'c) sqlite_statement" where
  "ExecuteForValue L args s =
     (let (errCode, s1) = Stmt_Execute L args s
      in if errCode = E_OK then Stmt_GetColumn L 0 s1 else ((errCode, VNull), s1))"

section \<open>Blocks of rows\<close>

text \<open>
  \<open>fillOpt\<close> is the shared-block extension of sqlite, which \<open>FillSharedBlockOpt\<close> runs. A pointer to the
  information about the block is never null in the calls of the library.
\<close>

type_synonym ('b, 't) fill_opt = "'b block_info \<Rightarrow> 't \<Rightarrow> int \<Rightarrow> (int \<times> 'b block_info \<times> 't) option"

definition SupportBlockInfo :: "('d, 't, 'c, 'j) stmt_lib \<Rightarrow> ('t, 'c, 'z) stmt_core_scheme \<Rightarrow> bool" where
  "SupportBlockInfo L s = sqlite3_use_sharedblock (l_sqlite L) (sqlite3_db_handle (l_sqlite L) (ss_stmt s))"

definition FillBlockInfo ::
    "('d, 't, 'c, 'j) stmt_lib \<Rightarrow> 'b block_ops \<Rightarrow> ('b, 't) fill_opt \<Rightarrow> 'b block_info \<Rightarrow> int \<Rightarrow> ('t, 'c, 'z) stmt_core_scheme \<Rightarrow>
     (int \<times> 'b block_info \<times> ('t, 'c, 'z) stmt_core_scheme) option" where
  "FillBlockInfo L W fillOpt info retryTime s = do {
     (errCode, info1, t1) \<leftarrow> (if SupportBlockInfo L s then fillOpt info (ss_stmt s) retryTime
                               else FillSharedBlock (l_sqlite L) W retryTime info (ss_stmt s));
     if errCode \<noteq> E_OK then Some (errCode, info1, s\<lparr>ss_stmt := t1\<rparr>)
     else (let (done_ok, t2) = ResetStatement (l_sqlite L) info1 t1
           in Some (if done_ok then E_OK else E_ERROR, info1, s\<lparr>ss_stmt := t2\<rparr>))
   }"

abbreviation RETRY_TIME :: int where "RETRY_TIME \<equiv> 50"

text \<open>There is no block, so no operation of one is called; any record of operations will do.\<close>

definition Stmt_Count ::
    "('d, 't, 'c, 'j) stmt_lib \<Rightarrow> (shared_block, 't) fill_opt \<Rightarrow> ('t, 'c, 'z) stmt_core_scheme \<Rightarrow>
     ((int \<times> int) \<times> ('t, 'c, 'z) stmt_core_scheme) option" where
  "Stmt_Count L fillOpt s = do {
     (errCode, info, s1) \<leftarrow> FillBlockInfo L shared_block_ops fillOpt
        ((SharedBlockInfo_new None)\<lparr>bi_isCountAllRows := True, bi_isFull := True, bi_totalRows := -1\<rparr>) RETRY_TIME s;
     Some (if errCode \<noteq> E_OK then (errCode, -1) else (errCode, bi_totalRows info), s1)
   }"

fun GetRows_names ::
    "('d, 't, 'c, 'j) stmt_lib \<Rightarrow> nat \<Rightarrow> int \<Rightarrow> string list \<Rightarrow> ('t, 'c, 'z) stmt_core_scheme \<Rightarrow> int \<times> string list" where
  "GetRows_names L 0 i names s = (E_OK, names)"
| "GetRows_names L (Suc m) i names s =
     (let (code, colName) = Stmt_GetColumnName L i s
      in if code \<noteq> E_OK then (code, []) else GetRows_names L m (i + 1) (names @ [colName]) s)"

definition GetRows ::
    "('d, 't, 'c, 'j) stmt_lib \<Rightarrow> (cache_block, 't) fill_opt \<Rightarrow> int \<Rightarrow> ('t, 'c, 'z) stmt_core_scheme \<Rightarrow>
     ((int \<times> values_bucket list) \<times> ('t, 'c, 'z) stmt_core_scheme) option" where
  "GetRows L fillOpt maxCount s =
     (let colCount = ss_columnCount s
      in if colCount \<le> 0 then Some ((E_OK, []), s)
         else
           (let (code, colNames) = GetRows_names L (nat colCount) 0 [] s
            in if code \<noteq> E_OK then Some ((code, []), s)
               else do {
                 (res, info, s1) \<leftarrow> FillBlockInfo L (cache_block_ops (l_json L) (l_now L)) fillOpt
                    ((SharedBlockInfo_new (Some (CacheBlock_new maxCount colNames)))\<lparr>bi_isCountAllRows := True, bi_totalRows := -1\<rparr>)
                    0 s;
                 let block = the (bi_sharedBlock info);
                 Some (if res \<noteq> E_OK then (res, []) else if cb_hasException block then (E_ERROR, [])
                       else (E_OK, fst (StealRows block)), s1)
               }))"

definition ExecuteForRows ::
    "('d, 't, 'c, 'j) stmt_lib \<Rightarrow> (cache_block, 't) fill_opt \<Rightarrow> value_object list \<Rightarrow> int \<Rightarrow> ('t, 'c) sqlite_statement \<Rightarrow>
     ((int \<times> values_bucket list) \<times> ('t, 'c) sqlite_statement) option" where
  "ExecuteForRows L fillOpt args maxCount s =
     (if ss_columnCount s \<le> 0 then (let (e, s1) = Stmt_Execute L args s in Some ((e, []), s1))
      else
        (let errCode = CheckEnvironment L (to_i32 (int (length args))) s
         in if errCode \<noteq> E_OK then Some ((errCode, []), s)
            else
              (let (errCode1, s1) = BindArgs L args s
               in if errCode1 \<noteq> E_OK then Some ((errCode1, []), s1)
                  else do {
                    ((errCode2, rows), s2) \<leftarrow> GetRows L fillOpt maxCount s1;
                    Some (if errCode2 \<noteq> E_NO_MORE_ROWS \<and> errCode2 \<noteq> E_OK then ((step_error L s2 errCode2, rows), s2)
                          else ((E_OK, rows), execute_slave L args s2))
                  })))"

section \<open>Locks and messages\<close>

datatype db_status = DB_OK | DB_WAIT_COMPENSATED_SYNC | DB_NOT_FOUND | DB_OTHER

text \<open>\<open>lock\<close> stands for \<open>Lock\<close> and \<open>UnLock\<close> of the distributed database, \<open>None\<close> for a null handle.\<close>

definition ModifyLockStatus ::
    "('d, 't, 'c, 'j) stmt_lib \<Rightarrow> (bool \<Rightarrow> 'd \<Rightarrow> db_status option) \<Rightarrow> bool \<Rightarrow> ('t, 'c, 'z) stmt_core_scheme \<Rightarrow> int" where
  "ModifyLockStatus L lock isLock s =
     (case lock isLock (sqlite3_db_handle (l_sqlite L) (ss_stmt s)) of
        None \<Rightarrow> E_ERROR
      | Some DB_OK \<Rightarrow> E_OK
      | Some DB_WAIT_COMPENSATED_SYNC \<Rightarrow> E_WAIT_COMPENSATED_SYNC
      | Some DB_NOT_FOUND \<Rightarrow> E_NO_ROW_IN_QUERY
      | Some DB_OTHER \<Rightarrow> E_ERROR)"

definition Stmt_GetLastErrorMsg :: "('d, 't, 'c, 'j) stmt_lib \<Rightarrow> ('t, 'c, 'z) stmt_core_scheme \<Rightarrow> string" where
  "Stmt_GetLastErrorMsg L s = sqlite3_errmsg (l_sqlite L) (sqlite3_db_handle (l_sqlite L) (ss_stmt s))"

section \<open>Reading a column\<close>

text \<open>What a column of the current row reads as, given its declared type.\<close>

fun column_value :: "('d, 't, 'c, 'j) stmt_lib \<Rightarrow> string option \<Rightarrow> sql_value \<Rightarrow> int \<times> value_object" where
  "column_value L decl S_Null = (E_OK, VNull)"
| "column_value L decl (S_Integer w) = (E_OK, VInt (sint w))"
| "column_value L decl (S_Float d) = (E_OK, VDouble d)"
| "column_value L decl (S_Text s) = (E_OK, VString s)"
| "column_value L decl (S_Blob b) =
     (case decl of
        None \<Rightarrow> (E_ERROR, VNull)
      | Some d \<Rightarrow> (E_OK, if b = [] then VNull else parse_blob L (decl_column_type d) b))"

text \<open>
  A prepared statement: its members are what the library says of it, and the types it remembers are
  those of the declarations.
\<close>

definition prepared ::
    "('d, 't, 'c, 'j) stmt_lib \<Rightarrow> ('t \<Rightarrow> bool) \<Rightarrow> nat \<Rightarrow> (nat \<Rightarrow> string option) \<Rightarrow> ('t, 'c, 'z) stmt_core_scheme \<Rightarrow> bool" where
  "prepared L ok n decl s \<longleftrightarrow> ok (ss_stmt s) \<and> ss_stmt s \<noteq> null_stmt L \<and> ss_columnCount s = int n \<and> length (ss_types s) = n
     \<and> (\<forall>i < n. ss_types s ! i = COLUMN_TYPE_INVALID \<or> (\<exists>d. decl i = Some d \<and> ss_types s ! i = decl_column_type d))"

lemma decl_column_type_cases: "decl_column_type d \<in> {CT_ASSET, CT_ASSETS, CT_FLOAT32_ARRAY, CT_BIGINT, CT_BLOB}"
  by (auto simp: decl_column_type_def Let_def)

lemma decl_column_type_valid: "decl_column_type d \<noteq> COLUMN_TYPE_INVALID"
  using decl_column_type_cases [of d] by (auto simp: column_type_defs)

lemma prepared_types:
  assumes "prepared L ok n decl s" "i < n" "decl i = Some d"
  shows "prepared L ok n decl (s\<lparr>ss_types := (ss_types s)[i := decl_column_type d]\<rparr>)"
  using assms by (auto simp: prepared_def nth_list_update)

lemma GetColumnType_prepared:
  assumes P: "prepared L ok n decl s" and "i < n" "declares (l_sqlite L) ok n decl" "column_is (l_sqlite L) (ss_stmt s) (int i) v"
  shows "\<exists>ts. snd (Stmt_GetColumnType L (int i) s) = s\<lparr>ss_types := ts\<rparr> \<and> prepared L ok n decl (s\<lparr>ss_types := ts\<rparr>)
    \<and> fst (Stmt_GetColumnType L (int i) s) =
        (case v of S_Blob b \<Rightarrow> (case decl i of None \<Rightarrow> (E_ERROR, CT_NULL) | Some d \<Rightarrow> (E_OK, decl_column_type d))
         | _ \<Rightarrow> (E_OK, Convert2ColumnType (sqlite3_column_type (l_sqlite L) (ss_stmt s) (int i))))"
proof -
  have V: "IsValid L (int i) s = E_OK" using P assms(2) by (simp add: IsValid_def prepared_def)
  have D: "sqlite3_column_decltype (l_sqlite L) (ss_stmt s) (int i) = decl i"
    using P assms(2,3) by (simp add: declares_def prepared_def)
  have same: "\<exists>ts. s = s\<lparr>ss_types := ts\<rparr> \<and> prepared L ok n decl (s\<lparr>ss_types := ts\<rparr>)"
    using P by (intro exI [of _ "ss_types s"]) simp
  show ?thesis
  proof (cases v)
    case (S_Blob b)
    then have B: "sqlite3_column_type (l_sqlite L) (ss_stmt s) (int i) = SQLITE_BLOB" using assms(4) by simp
    show ?thesis
    proof (cases "ss_types s ! i = COLUMN_TYPE_INVALID")
      case False
      then obtain d where "decl i = Some d" "ss_types s ! i = decl_column_type d"
        using P assms(2) by (auto simp: prepared_def)
      then show ?thesis using V B False same S_Blob by (simp add: Stmt_GetColumnType_def)
    next
      case True
      show ?thesis
      proof (cases "decl i")
        case None
        then show ?thesis using V B True D same S_Blob by (simp add: Stmt_GetColumnType_def)
      next
        case (Some d)
        then show ?thesis using V B True D S_Blob prepared_types [OF P assms(2) Some]
          by (auto simp: Stmt_GetColumnType_def Let_def)
      qed
    qed
  qed (use V assms(4) same in \<open>simp_all add: Stmt_GetColumnType_def\<close>)
qed

lemma GetColumn_prepared:
  assumes "prepared L ok n decl s" "i < n" "declares (l_sqlite L) ok n decl" "column_is (l_sqlite L) (ss_stmt s) (int i) v"
  shows "\<exists>ts. Stmt_GetColumn L (int i) s = (column_value L (decl i) v, s\<lparr>ss_types := ts\<rparr>)
    \<and> prepared L ok n decl (s\<lparr>ss_types := ts\<rparr>)"
proof -
  obtain e ct ts where T: "Stmt_GetColumnType L (int i) s = ((e, ct), s\<lparr>ss_types := ts\<rparr>)" "prepared L ok n decl (s\<lparr>ss_types := ts\<rparr>)"
      "(e, ct) = (case v of S_Blob b \<Rightarrow> (case decl i of None \<Rightarrow> (E_ERROR, CT_NULL) | Some d \<Rightarrow> (E_OK, decl_column_type d))
         | _ \<Rightarrow> (E_OK, Convert2ColumnType (sqlite3_column_type (l_sqlite L) (ss_stmt s) (int i))))"
    using GetColumnType_prepared [OF assms] by (metis prod.collapse)
  have "fst (Stmt_GetColumn L (int i) s) = column_value L (decl i) v"
  proof (cases v)
    case (S_Blob b)
    then show ?thesis using T(1,3) assms(4)
    proof (cases "decl i")
      case (Some d)
      then show ?thesis using T(1,3) assms(4) S_Blob decl_column_type_cases [of d]
        by (auto simp: Stmt_GetColumn_def GetValueFromBlob_def column_type_defs)
    qed (simp add: Stmt_GetColumn_def errno)
  qed (use T(1,3) assms(4) in \<open>simp_all add: Stmt_GetColumn_def Convert2ColumnType_def column_type_defs\<close>)
  moreover have "snd (Stmt_GetColumn L (int i) s) = s\<lparr>ss_types := ts\<rparr>" using T(1) by (simp add: Stmt_GetColumn_def)
  ultimately show ?thesis using T(2) by (metis prod.collapse)
qed

text \<open>
  C34: reading a column of a prepared statement gives the value that sqlite has in the current row,
  converted by its type and, for a blob, by the declared type of the column, whatever columns were
  read before: the remembered types never go wrong. Only a blob in a column without a declared type,
  as of an expression, is refused.
\<close>

theorem GetColumn_reads_value:
  assumes "prepared L ok n decl s" "declares (l_sqlite L) ok n decl" "i < n"
    and "\<forall>j < n. column_is (l_sqlite L) (ss_stmt s) (int j) (row ! j)" "set before \<subseteq> {..<n}"
    and "s1 = fold (\<lambda>j s. snd (Stmt_GetColumn L (int j) s)) before s"
  shows "fst (Stmt_GetColumn L (int i) s1) = column_value L (decl i) (row ! i)"
proof -
  have "prepared L ok n decl (fold (\<lambda>j s. snd (Stmt_GetColumn L (int j) s)) js s)
      \<and> ss_stmt (fold (\<lambda>j s. snd (Stmt_GetColumn L (int j) s)) js s) = ss_stmt s" if "set js \<subseteq> {..<n}" for js
    using that
  proof (induction js rule: rev_induct)
    case (snoc j js)
    let ?s = "fold (\<lambda>j s. snd (Stmt_GetColumn L (int j) s)) js s"
    have "prepared L ok n decl ?s" "ss_stmt ?s = ss_stmt s" "j < n" using snoc by auto
    with GetColumn_prepared [of L ok n decl ?s j "row ! j"] assms(2,4) show ?case by auto
  qed (use assms(1) in simp)
  from this [OF assms(5)] have "prepared L ok n decl s1" "ss_stmt s1 = ss_stmt s" using assms(6) by simp_all
  with GetColumn_prepared [of L ok n decl s1 i "row ! i"] assms(2-4) show ?thesis by auto
qed

text \<open>A library for the examples: a query of three rows, a writing connection is \<open>True\<close>.\<close>

definition sample_lib :: "(unit, nat option, bool, jv) stmt_lib" where
  "sample_lib = \<lparr>l_sqlite = sample_query, l_json = sample_ops, l_now = 9, l_nullData = True, l_IsWriter = (\<lambda>c. c),
     l_LimitWalSize = (\<lambda>c. E_OK),
     l_posix = \<lparr>can_create = (\<lambda>_. True), can_remove = (\<lambda>_. True), can_read = (\<lambda>_. True), written = (\<lambda>_ c. c)\<rparr>\<rparr>"

definition sample_stmt :: "(nat option, bool) sqlite_statement" where
  "sample_stmt = snd (Prepare_db sample_lib () ''SELECT id, v FROM t'' (SqliteStatement_new sample_lib ''/d/a.db'' Map.empty))"

abbreviation sample_decl :: "nat \<Rightarrow> string option" where
  "sample_decl \<equiv> (\<lambda>i. [Some ''INTEGER'', Some ''BLOB''] ! i)"

lemma sample_stmt_facts:
  "ss_stmt sample_stmt = Some 0" "ss_columnCount sample_stmt = 2" "ss_types sample_stmt = [0, 0]"
  "ss_numParameters sample_stmt = 0" "ss_conn sample_stmt = None" "ss_slave sample_stmt = None" "\<not> ss_bound sample_stmt"
  by (simp_all add: sample_stmt_def Prepare_db_def SqliteStatement_new_def sample_lib_def sample_query_def list_query_def
      InnerFinalize_def SQLITE_OK_def numeral_2_eq_2)

lemma sample_prepared:
  "k \<le> 3 \<Longrightarrow> prepared sample_lib (list_query_ok (length sample_rows)) 2 sample_decl (sample_stmt\<lparr>ss_stmt := Some k\<rparr>)"
  by (auto simp: prepared_def sample_stmt_facts sample_lib_def sample_query_def list_query_def sample_rows_def less_2_cases_iff)

theorem GetColumn_reads_value_witness:
  "fst (Stmt_GetColumn sample_lib 1 (fold (\<lambda>j s. snd (Stmt_GetColumn sample_lib (int j) s)) [1, 0, 1] (sample_stmt\<lparr>ss_stmt := Some 2\<rparr>)))
     = (E_OK, VBlob [1, 2])"
proof -
  have c: "\<forall>j < 2. column_is (l_sqlite sample_lib) (ss_stmt (sample_stmt\<lparr>ss_stmt := Some 2\<rparr>)) (int j) (sample_rows ! 1 ! j)"
    by (simp add: sample_lib_def sample_query_def list_query_def list_cell_def sample_rows_def less_2_cases_iff)
  have v: "column_value sample_lib (Some ''BLOB'') (S_Blob [1, 2]) = (E_OK, VBlob [1, 2])"
    by (simp add: decl_column_type_def parse_blob_def StrToUpper_def to_upper_def TruncateAfterFirstParen_def column_type_defs)
  have d: "declares (l_sqlite sample_lib) (list_query_ok (length sample_rows)) 2 sample_decl"
    using sample_query_facts(2) by (simp add: sample_lib_def)
  show ?thesis
    using GetColumn_reads_value [OF sample_prepared d _ c, of 1 "[1, 0, 1]"] v by (simp add: sample_rows_def)
qed

section \<open>Binding and reading back\<close>

lemma le_enc_Nil [simp]: "le_enc n k = [] \<longleftrightarrow> n = 0"
  by (metis length_0_conv length_le_enc)

text \<open>
  The values a column with this declaration can store, and what is read back: a truth value becomes
  a number and an empty blob a null; an asset that was being downloaded is found abnormal once its
  time is over.
\<close>

fun storable :: "('d, 't, 'c, 'j) stmt_lib \<Rightarrow> string \<Rightarrow> value_object \<Rightarrow> bool" where
  "storable L d (VInt i) \<longleftrightarrow> - (2 ^ 63) \<le> i \<and> i < 2 ^ 63"
| "storable L d (VBlob b) \<longleftrightarrow> decl_column_type d = CT_BLOB"
| "storable L d (VAsset a) \<longleftrightarrow> decl_column_type d = CT_ASSET \<and> asset_packable (l_json L) a"
| "storable L d (VAssets as) \<longleftrightarrow>
     decl_column_type d = CT_ASSETS \<and> list_all (asset_packable (l_json L)) as \<and> length as \<le> 17747"
| "storable L d (VVecs fs) \<longleftrightarrow> decl_column_type d = CT_FLOAT32_ARRAY \<and> floats_valid fs"
| "storable L d (VBigInt b) \<longleftrightarrow> decl_column_type d = CT_BIGINT \<and> bigint_valid b"
| "storable L d _ \<longleftrightarrow> True"

fun read_back :: "64 word \<Rightarrow> value_object \<Rightarrow> value_object" where
  "read_back now (VBool b) = VInt (if b then 1 else 0)"
| "read_back now (VBlob b) = (if b = [] then VNull else VBlob b)"
| "read_back now (VAsset a) = VAsset (settle now a)"
| "read_back now (VAssets as) = VAssets (map (settle now) as)"
| "read_back now v = v"



section \<open>Executing\<close>

text \<open>
  What the library says of parameters: a statement that was reset since its last step takes a value
  for each of its \<open>n\<close> parameters, resetting keeps the values and clearing makes them null.
\<close>

definition sqlite_params ::
    "('d, 't) sqlite3 \<Rightarrow> ('t \<Rightarrow> bool) \<Rightarrow> ('t \<Rightarrow> bool) \<Rightarrow> ('t \<Rightarrow> sql_value list) \<Rightarrow> nat \<Rightarrow> bool" where
  "sqlite_params Q ok fresh params n \<longleftrightarrow>
     (\<forall>t. ok t \<longrightarrow> length (params t) = n) \<and>
     (\<forall>t i v. ok t \<longrightarrow> fresh t \<longrightarrow> i < n \<longrightarrow>
        (\<exists>t'. sqlite3_bind Q (int i + 1) v t = (SQLITE_OK, t') \<and> ok t' \<and> fresh t' \<and> params t' = (params t)[i := v])) \<and>
     (\<forall>t. ok t \<longrightarrow> ok (snd (sqlite3_reset Q t)) \<and> fresh (snd (sqlite3_reset Q t))) \<and>
     (\<forall>t. ok t \<longrightarrow> fresh t \<longrightarrow> ok (sqlite3_clear_bindings Q t) \<and> fresh (sqlite3_clear_bindings Q t)
        \<and> params (sqlite3_clear_bindings Q t) = replicate n S_Null)"

lemma sqlite_params_bind:
  "sqlite_params Q ok fresh params n \<Longrightarrow> ok t \<Longrightarrow> fresh t \<Longrightarrow> i < n \<Longrightarrow>
     \<exists>t'. sqlite3_bind Q (int i + 1) v t = (SQLITE_OK, t') \<and> ok t' \<and> fresh t' \<and> params t' = (params t)[i := v]"
  unfolding sqlite_params_def by blast

lemma BindArgs_loop_params:
  assumes "sqlite_params (l_sqlite L) ok fresh params n" "ok (ss_stmt s)" "fresh (ss_stmt s)" "k + length args \<le> n"
  shows "\<exists>t. BindArgs_loop L args (int k + 1) s = (E_OK, s\<lparr>ss_stmt := t\<rparr>) \<and> ok t \<and> fresh t
    \<and> params t = take k (params (ss_stmt s)) @ map (bind_value L) args @ drop (k + length args) (params (ss_stmt s))"
  using assms(2-)
proof (induction args arbitrary: k s)
  case Nil
  then show ?case by (intro exI [of _ "ss_stmt s"]) simp
next
  case (Cons a args)
  obtain t where t: "sqlite3_bind (l_sqlite L) (int k + 1) (bind_value L a) (ss_stmt s) = (SQLITE_OK, t)" "ok t" "fresh t"
      "params t = (params (ss_stmt s))[k := bind_value L a]"
    using sqlite_params_bind [OF assms(1) Cons.prems(1,2), of k "bind_value L a"] Cons.prems(3) by auto
  have k: "k < length (params (ss_stmt s))" using assms(1) Cons.prems by (simp add: sqlite_params_def)
  have i: "int k + 1 + 1 = int (Suc k) + 1" by simp
  obtain t' where t': "BindArgs_loop L args (int (Suc k) + 1) (s\<lparr>ss_stmt := t\<rparr>) = (E_OK, s\<lparr>ss_stmt := t'\<rparr>)" "ok t'" "fresh t'"
      "params t' = take (Suc k) (params t) @ map (bind_value L) args @ drop (Suc k + length args) (params t)"
    using Cons.IH [of "s\<lparr>ss_stmt := t\<rparr>" "Suc k"] t Cons.prems(3) by auto
  have "params t' = take k (params (ss_stmt s)) @ map (bind_value L) (a # args) @ drop (k + length (a # args)) (params (ss_stmt s))"
    unfolding t'(4) t(4) using k by (simp add: take_Suc_conv_app_nth)
  then show ?case using t(1) t'(1-3) i by (intro exI [of _ t']) simp
qed

lemma BindArgs_params:
  assumes P: "sqlite_params (l_sqlite L) ok fresh params n" and "ok (ss_stmt s)" "ss_bound s \<or> fresh (ss_stmt s)" "length args = n"
  shows "\<exists>t. BindArgs L args s = (E_OK, s\<lparr>ss_stmt := t, ss_bound := True\<rparr>) \<and> ok t \<and> fresh t \<and> params t = map (bind_value L) args"
proof -
  define s1 where "s1 = (if ss_bound s
      then s\<lparr>ss_stmt := sqlite3_clear_bindings (l_sqlite L) (snd (sqlite3_reset (l_sqlite L) (ss_stmt s)))\<rparr> else s)\<lparr>ss_bound := True\<rparr>"
  have s1: "ok (ss_stmt s1)" "fresh (ss_stmt s1)"
    using P assms(2,3) unfolding sqlite_params_def s1_def by auto
  obtain t where "BindArgs_loop L args 1 s1 = (E_OK, s1\<lparr>ss_stmt := t\<rparr>)" "ok t" "fresh t"
      "params t = map (bind_value L) args @ drop n (params (ss_stmt s1))"
    using BindArgs_loop_params [OF P s1, of 0 args] assms(4) by auto
  moreover have "length (params (ss_stmt s1)) = n" using P s1(1) by (simp add: sqlite_params_def)
  moreover have "s1\<lparr>ss_stmt := t\<rparr> = s\<lparr>ss_stmt := t, ss_bound := True\<rparr>" for t by (simp add: s1_def)
  moreover have "BindArgs L args s = BindArgs_loop L args 1 s1" by (simp add: BindArgs_def Let_def s1_def)
  ultimately show ?thesis by auto
qed

lemma execute_self_runs:
  assumes "sqlite_params (l_sqlite L) ok fresh params n" "ok (ss_stmt s)" "ss_bound s \<or> fresh (ss_stmt s)"
    and "length args = n" "n < 2 ^ 31" "CheckEnvironment L (int n) s = E_OK"
  shows "\<exists>t. ok t \<and> fresh t \<and> params t = map (bind_value L) args
    \<and> snd (execute_self L args s) = s\<lparr>ss_stmt := snd (sqlite3_step (l_sqlite L) t), ss_bound := True\<rparr>
    \<and> (fst (execute_self L args s) = E_OK \<longleftrightarrow> GetRdbErrorCode (fst (sqlite3_step (l_sqlite L) t)) \<in> {E_OK, E_NO_MORE_ROWS})"
proof -
  obtain t where t: "BindArgs L args s = (E_OK, s\<lparr>ss_stmt := t, ss_bound := True\<rparr>)" "ok t" "fresh t" "params t = map (bind_value L) args"
    using BindArgs_params [OF assms(1-4)] by blast
  obtain e t1 where e: "sqlite3_step (l_sqlite L) t = (e, t1)" by fastforce
  have n: "to_i32 (int (length args)) = int n" using assms(4,5) by (simp add: to_i32_id)
  have "E_SQLITE_IOERR_FULL \<noteq> E_OK" by (simp add: errno)
  then show ?thesis
    using t e n assms(6)
    by (intro exI [of _ t]) (auto simp: execute_self_def InnerStep_def step_error_def Let_def)
qed

text \<open>
  C30: executing a statement steps it once with exactly the given arguments, whatever was bound to it
  before and however far it had been stepped, and reports success exactly when that step ends with a
  row or with the end of the statement.
\<close>

theorem Execute_runs_with_its_arguments:
  assumes "sqlite_params (l_sqlite L) ok fresh params n" "ok (ss_stmt s)" "ss_bound s \<or> fresh (ss_stmt s)"
    and "length args = n" "n < 2 ^ 31" "CheckEnvironment L (int n) s = E_OK"
  shows "\<exists>t. ok t \<and> params t = map (bind_value L) args
    \<and> ss_stmt (snd (Stmt_Execute L args s)) = snd (sqlite3_step (l_sqlite L) t)
    \<and> (fst (Stmt_Execute L args s) = E_OK \<longleftrightarrow> GetRdbErrorCode (fst (sqlite3_step (l_sqlite L) t)) \<in> {E_OK, E_NO_MORE_ROWS})"
proof -
  have "ss_stmt (execute_slave L args s') = ss_stmt s'" for s' :: "('b, 'c) sqlite_statement"
    by (simp add: execute_slave_def mark_slave_invalid_def Let_def split: option.split prod.split)
  then show ?thesis using execute_self_runs [OF assms]
    by (auto simp: Stmt_Execute_def Let_def split: prod.splits)
qed

text \<open>
  A call with the wrong number of arguments, and a statement that writes on a connection for
  reading, are refused before anything is bound or stepped.
\<close>

lemma Execute_refused:
  assumes "length args < 2 ^ 31"
  shows "(int (length args) \<noteq> ss_numParameters s \<longrightarrow> Stmt_Execute L args s = (E_INVALID_BIND_ARGS_COUNT, s))
    \<and> (int (length args) = ss_numParameters s \<and> ss_conn s = Some c \<and> \<not> l_IsWriter L c \<and> \<not> ss_readOnly s \<longrightarrow>
         Stmt_Execute L args s = (E_EXECUTE_WRITE_IN_READ_CONNECTION, s)
         \<and> ExecuteForRows L fillOpt args maxCount s = Some ((E_EXECUTE_WRITE_IN_READ_CONNECTION, []), s))"
  using assms
  by (simp add: Stmt_Execute_def execute_self_def ExecuteForRows_def CheckEnvironment_def to_i32_id errno)

text \<open>
  C31: the replica keeps up or is given up: when a statement succeeds on the store, the replica has
  either stepped its copy with the same arguments and without an error, or is marked invalid.
\<close>

theorem replica_follows_or_is_invalid:
  assumes P: "sqlite_params (l_sqlite L) ok fresh params n" and "ss_slave s = Some sl" "ok (ss_stmt sl)" "ss_bound sl \<or> fresh (ss_stmt sl)"
    and "ss_numParameters sl = int n" "length args < 2 ^ 31" "can_create (l_posix L) (ss_path s @ SLAVE_FAILURE)"
    and "Stmt_Execute L args s = (E_OK, s')"
  shows "IsSlaveInvalid (ss_path s) (ss_files s')
    \<or> (\<exists>t sl'. ss_slave s' = Some sl' \<and> params t = map (bind_value L) args
         \<and> ss_stmt sl' = snd (sqlite3_step (l_sqlite L) t)
         \<and> GetRdbErrorCode (fst (sqlite3_step (l_sqlite L) t)) \<in> {E_OK, E_NO_MORE_ROWS})"
proof -
  obtain s1 where s1: "execute_self L args s = (E_OK, s1)" "s' = execute_slave L args s1"
    using assms(8) by (auto simp: Stmt_Execute_def Let_def split: prod.splits if_splits)
  have frame: "ss_slave s1 = Some sl \<and> ss_path s1 = ss_path s"
  proof -
    have loop: "ss_slave (snd (BindArgs_loop L as i z)) = ss_slave z \<and> ss_path (snd (BindArgs_loop L as i z)) = ss_path z"
      for as i and z :: "('b, 'c) sqlite_statement"
      by (induction as arbitrary: i z) (auto simp: Let_def split: prod.splits)
    have "ss_slave (snd (BindArgs L args s)) = Some sl \<and> ss_path (snd (BindArgs L args s)) = ss_path s"
      using assms(2) by (simp add: BindArgs_def Let_def loop)
    then show ?thesis using s1(1)
      by (auto simp: execute_self_def InnerStep_def Let_def split: if_splits prod.splits)
  qed
  show ?thesis
  proof (cases "fst (execute_self L args sl) = E_OK")
    case False
    then show ?thesis using frame assms(7) s1(2)
      by (auto simp: execute_slave_def mark_slave_invalid_def SetSlaveInvalid_def open_trunc_def IsSlaveInvalid_def Let_def split: prod.splits)
  next
    case True
    then have c: "CheckEnvironment L (int n) sl = E_OK" and n: "length args = n"
      using assms(5,6) by (auto simp: execute_self_def CheckEnvironment_def Let_def to_i32_id errno split: if_splits)
    have "n < 2 ^ 31" using n assms(6) by simp
    from execute_self_runs [OF P assms(3,4) n this c] True show ?thesis
      using frame s1(2) by (auto simp: execute_slave_def Let_def split: prod.splits)
  qed
qed

text \<open>A library with parameters only: a statement is its values and whether it was reset.\<close>

definition param_sqlite :: "nat \<Rightarrow> (unit, (bool \<times> sql_value list) option) sqlite3" where
  "param_sqlite n =
     \<lparr>sqlite3_null = None, sqlite3_prepare_v2 = (\<lambda>_ _. (0, Some (True, replicate n S_Null))), sqlite3_db_handle = (\<lambda>_. ()),
      sqlite3_step = (\<lambda>t. (SQLITE_DONE, map_option (\<lambda>(f, p). (False, p)) t)),
      sqlite3_reset = (\<lambda>t. (0, map_option (\<lambda>(f, p). (True, p)) t)), sqlite3_finalize = (\<lambda>t. 0),
      sqlite3_clear_bindings = map_option (\<lambda>(f, p). (f, replicate n S_Null)),
      sqlite3_bind = (\<lambda>i v t. case t of Some (True, p) \<Rightarrow> (0, Some (True, p[nat (i - 1) := v])) | _ \<Rightarrow> (21, t)),
      sqlite3_bind_parameter_count = (\<lambda>t. int n), sqlite3_column_count = (\<lambda>t. 0),
      sqlite3_column_name = (\<lambda>t i. None), sqlite3_column_decltype = (\<lambda>t i. None), sqlite3_column_type = (\<lambda>t i. SQLITE_NULL),
      sqlite3_column_int64 = (\<lambda>t i. 0), sqlite3_column_double = (\<lambda>t i. 0), sqlite3_column_text = (\<lambda>t i. None),
      sqlite3_column_blob = (\<lambda>t i. None), sqlite3_column_bytes = (\<lambda>t i. 0), sqlite3_stmt_readonly = (\<lambda>t. False),
      sqlite3_changes = (\<lambda>d. 1), sqlite3_last_insert_rowid = (\<lambda>d. 1), sqlite3_system_errno = (\<lambda>d. 0),
      sqlite3_errmsg = (\<lambda>d. []), sqlite3_use_sharedblock = (\<lambda>d. False)\<rparr>"

abbreviation param_ok :: "nat \<Rightarrow> (bool \<times> sql_value list) option \<Rightarrow> bool" where
  "param_ok n t \<equiv> t \<noteq> None \<and> length (snd (the t)) = n"

lemma param_sqlite_params: "sqlite_params (param_sqlite n) (param_ok n) (\<lambda>t. fst (the t)) (\<lambda>t. snd (the t)) n"
  by (auto simp: sqlite_params_def param_sqlite_def SQLITE_OK_def split: prod.splits)

definition param_lib :: "(unit, (bool \<times> sql_value list) option, bool, jv) stmt_lib" where
  "param_lib = \<lparr>l_sqlite = param_sqlite 2, l_json = sample_ops, l_now = 9, l_nullData = True, l_IsWriter = (\<lambda>c. c),
     l_LimitWalSize = (\<lambda>c. E_OK), l_posix = l_posix sample_lib\<rparr>"

text \<open>A statement that was executed before with other arguments, with a copy on the replica.\<close>

definition used_core :: "((bool \<times> sql_value list) option, bool) stmt_core" where
  "used_core = \<lparr>ss_readOnly = False, ss_bound = True, ss_columnCount = 0, ss_numParameters = 2,
     ss_stmt = Some (False, [S_Text ''x'', S_Integer 3]), ss_conn = Some True, ss_sql = ''INSERT INTO t VALUES (?, ?)'', ss_types = []\<rparr>"

definition used_stmt :: "((bool \<times> sql_value list) option, bool) sqlite_statement" where
  "used_stmt = \<lparr>ss_readOnly = False, ss_bound = True, ss_columnCount = 0, ss_numParameters = 2,
     ss_stmt = Some (False, [S_Text ''x'', S_Integer 3]), ss_conn = Some True, ss_sql = ''INSERT INTO t VALUES (?, ?)'', ss_types = [],
     ss_slave = Some used_core, ss_path = ''/d/a.db'', ss_files = Map.empty\<rparr>"

lemma used_stmt_environment: "CheckEnvironment param_lib 2 used_stmt = E_OK"
  by (simp add: CheckEnvironment_def used_stmt_def param_lib_def Let_def)

theorem Execute_runs_with_its_arguments_witness:
  "ss_stmt (snd (Stmt_Execute param_lib [VInt 1, VBool True] used_stmt)) = Some (False, [S_Integer 1, S_Integer 1])"
proof -
  have P: "sqlite_params (l_sqlite param_lib) (param_ok 2) (\<lambda>t. fst (the t)) (\<lambda>t. snd (the t)) 2"
    using param_sqlite_params [of 2] by (simp add: param_lib_def)
  obtain t where t: "param_ok 2 t" "snd (the t) = [S_Integer 1, S_Integer 1]"
      "ss_stmt (snd (Stmt_Execute param_lib [VInt 1, VBool True] used_stmt)) = snd (sqlite3_step (l_sqlite param_lib) t)"
    using Execute_runs_with_its_arguments [OF P, of used_stmt "[VInt 1, VBool True]"] used_stmt_environment
    by (auto simp: used_stmt_def)
  then show ?thesis by (cases t) (auto simp: param_lib_def param_sqlite_def split: prod.splits)
qed

theorem replica_follows_or_is_invalid_witness:
  "IsSlaveInvalid ''/d/a.db'' (ss_files (snd (Stmt_Execute param_lib [VInt 1, VNull] used_stmt)))
    \<or> (\<exists>t sl'. ss_slave (snd (Stmt_Execute param_lib [VInt 1, VNull] used_stmt)) = Some sl' \<and> snd (the t) = [S_Integer 1, S_Null]
         \<and> ss_stmt sl' = snd (sqlite3_step (param_sqlite 2) t))"
proof -
  have P: "sqlite_params (l_sqlite param_lib) (param_ok 2) (\<lambda>t. fst (the t)) (\<lambda>t. snd (the t)) 2"
    using param_sqlite_params [of 2] by (simp add: param_lib_def)
  have "fst (Stmt_Execute param_lib [VInt 1, VNull] used_stmt) = E_OK"
    by code_simp
  then have "Stmt_Execute param_lib [VInt 1, VNull] used_stmt = (E_OK, snd (Stmt_Execute param_lib [VInt 1, VNull] used_stmt))"
    by (metis prod.collapse)
  from replica_follows_or_is_invalid [OF P _ _ _ _ _ _ this, of used_core] show ?thesis
    by (auto simp: used_stmt_def used_core_def param_lib_def sample_lib_def)
qed

section \<open>Counting and fetching\<close>

lemma Count_rows:
  assumes "sqlite_query (l_sqlite L) ok at names rows" "ok (ss_stmt s)" "at (ss_stmt s) = 0" "\<not> SupportBlockInfo L s"
  shows "\<exists>t. Stmt_Count L fillOpt s = Some ((E_OK, int (length rows)), s\<lparr>ss_stmt := t\<rparr>) \<and> ok t \<and> at t = 0"
proof -
  let ?info = "(SharedBlockInfo_new None)\<lparr>bi_isCountAllRows := True, bi_isFull := True, bi_totalRows := 0\<rparr> :: shared_block block_info"
  obtain info' t' where F: "FillSharedBlock_loop (l_sqlite L) shared_block_ops RETRY_TIME 0 False False ?info (ss_stmt s)
        = Some (E_OK, info', t')" "ok t'" "bi_totalRows info' = int (length rows)" "bi_sharedBlock info' = None"
    using FillSharedBlock_loop_counts [OF assms(1), of ?info "ss_stmt s" False shared_block_ops RETRY_TIME 0] assms(2,3)
    by (auto simp: SharedBlockInfo_new_def)
  then show ?thesis using assms(4) sqlite_queryD(3,4) [OF assms(1) F(2)]
    by (auto simp: Stmt_Count_def FillBlockInfo_def FillSharedBlock_def ResetStatement_def SharedBlockInfo_new_def)
qed

lemma sample_lib_query:
  "sqlite_query (l_sqlite sample_lib) (list_query_ok (length sample_rows)) rows_read [''id'', ''v''] sample_rows"
  "\<not> SupportBlockInfo sample_lib sample_stmt"
  using sample_query_facts(1) by (simp_all add: sample_lib_def SupportBlockInfo_def sample_query_def list_query_def)

lemma GetRows_names_prepared:
  assumes "sqlite_query (l_sqlite L) ok at names rows" "prepared L ok (length names) decl s" "i + m = length names"
  shows "GetRows_names L m (int i) ns s = (E_OK, ns @ drop i names)"
  using assms(3)
proof (induction m arbitrary: i ns)
  case (Suc m)
  then have "Stmt_GetColumnName L (int i) s = (E_OK, names ! i)"
    using assms(2) sqlite_queryD(7) [OF assms(1), of "ss_stmt s" i] by (simp add: Stmt_GetColumnName_def IsValid_def prepared_def)
  then show ?case using Suc.IH [of "Suc i" "ns @ [names ! i]"] Suc.prems
    by (simp add: add.commute Cons_nth_drop_Suc flip: of_nat_Suc)
qed simp

text \<open>
  Without the shared-block extension the rows that \<open>GetRows\<close> fetches have no columns. The number of
  columns of the block information is never set, so each of the first \<open>maxCount\<close> rows comes back
  as an empty bucket, with \<open>E_OK\<close>.
\<close>

lemma GetRows_without_extension_has_no_columns:
  assumes "sqlite_query (l_sqlite L) ok at names rows" "prepared L ok (length names) decl s" "at (ss_stmt s) = 0"
    and "names \<noteq> []" "distinct names" "\<not> SupportBlockInfo L s" "0 \<le> maxCount" "maxCount < 2 ^ 31"
  shows "\<exists>t. GetRows L fillOpt maxCount s = Some ((E_OK, replicate (min (nat maxCount) (length rows)) []), s\<lparr>ss_stmt := t\<rparr>)"
proof -
  let ?info = "(SharedBlockInfo_new (Some (CacheBlock_new maxCount names)))\<lparr>bi_isCountAllRows := True, bi_totalRows := -1\<rparr>"
  have ok: "ok (ss_stmt s)" using assms(2) by (simp add: prepared_def)
  obtain info' t' B where F: "FillSharedBlock (l_sqlite L) (cache_block_ops (l_json L) (l_now L)) 0 ?info (ss_stmt s) = Some (E_OK, info', t')"
      "ok t'" "bi_sharedBlock info' = Some B" "keeps (l_json L) (l_now L) names decl 0 (nat (maxCount mod 2 ^ 64)) rows (length rows) B"
      "\<not> bi_isFull info'"
    using FillSharedBlock_keeps [OF assms(1), of 0 decl "l_json L" "l_now L" "ss_stmt s" ?info maxCount 0] assms(3,5) ok
    by (auto simp: SharedBlockInfo_new_def declares_def cacheable_def)
  have "cb_rows B = replicate (min (nat maxCount) (length rows)) []" using F(4) assms(7,8)
    by (auto simp: keeps_def intro!: nth_equalityI)
  moreover have "GetRows_names L (length names) 0 [] s = (E_OK, names)"
    using GetRows_names_prepared [OF assms(1,2), of 0 "length names" "[]"] by simp
  moreover have "ss_columnCount s = int (length names)" using assms(2) by (simp add: prepared_def)
  moreover have "\<not> cb_hasException B" using F(4) by (simp add: keeps_def)
  ultimately show ?thesis using assms(4,6) F(1,3,5)
    by (auto simp: GetRows_def FillBlockInfo_def ResetStatement_def StealRows_def split: prod.split)
qed

lemma sample_stmt_at_0: "sample_stmt\<lparr>ss_stmt := Some 0\<rparr> = sample_stmt" "rows_read (ss_stmt sample_stmt) = 0"
  using sample_stmt_facts(1) by (metis sqlite_statement.ext_inject sqlite_statement.surjective stmt_core.update_convs(5)) (simp add: sample_stmt_facts)

end
