(* ===== verification/Statement_Queries.thy ===== *)
theory Statement_Queries
  imports Sqlite_Statement Step_Result_Set
begin

text \<open>
  Statements of a connection (\<open>CreateStatement\<close>, \<open>CreateReplicaStatement\<close> and
  \<open>CreateStatementInner\<close> of \<open>sqlite_connection.cpp\<close>) and queries through them: \<open>SqliteStatement\<close> as an
  implementation of the interface \<open>Statement\<close> that \<open>StepResultSet\<close> is written against. A statement
  over the rows of a query in sqlite serves these rows, so that the cursor reads what the query gave.
  Memory that sqlite is asked to release has no effect on what is modelled.
\<close>

section \<open>Statements of a connection\<close>

record ('d, 'c) sqlite_connection =
  cn_dbHandle :: 'd
  cn_slaveConnection :: "('d \<times> 'c) option"
  cn_isWriter :: bool
  cn_binlog :: bool
  cn_path :: string

definition CreateStatementInner ::
    "('d, 't, 'c, 'j) stmt_lib \<Rightarrow> file_system \<Rightarrow> string \<Rightarrow> 'c option \<Rightarrow> 'd \<Rightarrow> bool \<Rightarrow> string \<Rightarrow> ('d, 'c) sqlite_connection \<Rightarrow>
     int \<times> ('t, 'c) sqlite_statement option" where
  "CreateStatementInner L files sql owner db isFromReplica returningSql cn =
     (let (errCode, s) = Prepare_db L db (sql @ returningSql) (SqliteStatement_new L (cn_path cn) files)
      in if errCode \<noteq> E_OK then (errCode, None)
         else
           (let s1 = s\<lparr>ss_conn := owner\<rparr>
            in case cn_slaveConnection cn of
                 Some (slaveDb, slaveConn) \<Rightarrow>
                   if \<not> isFromReplica \<and> cn_isWriter cn \<and> \<not> cn_binlog cn \<and> \<not> IsSlaveRestoring (cn_path cn) files
                   then
                     (let slaveStmt = (stmt_core.truncate (SqliteStatement_new L [] files))\<lparr>ss_conn := Some slaveConn\<rparr>;
                          (e, sl) = Prepare_db L slaveDb sql slaveStmt
                      in if e \<noteq> E_OK then (E_OK, Some (mark_slave_invalid L s1))
                         else (E_OK, Some (s1\<lparr>ss_slave := Some sl\<rparr>)))
                   else (E_OK, Some s1)
               | None \<Rightarrow> (E_OK, Some s1)))"

definition CreateStatement ::
    "('d, 't, 'c, 'j) stmt_lib \<Rightarrow> file_system \<Rightarrow> string \<Rightarrow> 'c option \<Rightarrow> string \<Rightarrow> ('d, 'c) sqlite_connection \<Rightarrow>
     int \<times> ('t, 'c) sqlite_statement option" where
  "CreateStatement L files sql owner returningSql cn =
     CreateStatementInner L files sql owner (cn_dbHandle cn) False returningSql cn"

text \<open>\<open>slave\<close> stands for \<open>CreateSlaveConnection\<close>, and \<open>exists\<close> says whether the file of the replica does.\<close>

definition CreateReplicaStatement ::
    "('d, 't, 'c, 'j) stmt_lib \<Rightarrow> file_system \<Rightarrow> bool \<Rightarrow> int \<times> 'd \<times> 'c \<Rightarrow> string \<Rightarrow> 'c option \<Rightarrow> string \<Rightarrow>
     ('d, 'c) sqlite_connection \<Rightarrow> (int \<times> ('t, 'c) sqlite_statement option) \<times> ('d, 'c) sqlite_connection" where
  "CreateReplicaStatement L files exists slave sql owner returningSql cn =
     (let opens = (cn_slaveConnection cn = None \<and> exists \<and> fst slave = E_OK);
          cn1 = (if opens then cn\<lparr>cn_slaveConnection := Some (snd slave)\<rparr> else cn);
          db = (if opens then fst (snd slave) else cn_dbHandle cn)
      in (CreateStatementInner L files sql owner db True returningSql cn1, cn1))"

section \<open>\<open>SqliteStatement\<close> as a \<open>Statement\<close>\<close>

definition sqlite_statement_ops ::
    "('d, 't, 'c, 'j) stmt_lib \<Rightarrow> (shared_block, 't) fill_opt \<Rightarrow> ('t, 'c) sqlite_statement statement_ops" where
  "sqlite_statement_ops L fillOpt =
     \<lparr>st_Step = Stmt_Step L, st_Reset = Stmt_Reset L, st_Count = Stmt_Count L fillOpt, st_Bind = Stmt_Bind L,
      st_ReadOnly = ss_readOnly, st_GetColumnCount = ss_columnCount,
      st_GetColumnName = Stmt_GetColumnName L, st_GetColumnType = Stmt_GetColumnType L, st_GetSize = Stmt_GetSize L,
      st_GetColumn = Stmt_GetColumn L, st_GetLastErrorMsg = Stmt_GetLastErrorMsg L\<rparr>"

lemma sqlite_statement_ops_simps [simp]:
  "st_Step (sqlite_statement_ops L f) = Stmt_Step L" "st_Reset (sqlite_statement_ops L f) = Stmt_Reset L"
  "st_Count (sqlite_statement_ops L f) = Stmt_Count L f" "st_Bind (sqlite_statement_ops L f) = Stmt_Bind L"
  "st_ReadOnly (sqlite_statement_ops L f) = ss_readOnly" "st_GetColumnCount (sqlite_statement_ops L f) = ss_columnCount"
  "st_GetColumnName (sqlite_statement_ops L f) = Stmt_GetColumnName L" "st_GetColumn (sqlite_statement_ops L f) = Stmt_GetColumn L"
  by (simp_all add: sqlite_statement_ops_def)

text \<open>The values of a row, and the rows whose values can all be read.\<close>

definition row_values :: "('d, 't, 'c, 'j) stmt_lib \<Rightarrow> (nat \<Rightarrow> string option) \<Rightarrow> sql_value list \<Rightarrow> value_object list" where
  "row_values L decl row = map (\<lambda>i. snd (column_value L (decl i) (row ! i))) [0..<length row]"

definition readable :: "('d, 't, 'c, 'j) stmt_lib \<Rightarrow> (nat \<Rightarrow> string option) \<Rightarrow> sql_value list list \<Rightarrow> bool" where
  "readable L decl rows \<longleftrightarrow> list_all (\<lambda>row. \<forall>i < length row. fst (column_value L (decl i) (row ! i)) = E_OK) rows"

lemma prepared_stmt: "prepared L ok n decl s \<Longrightarrow> ok t \<Longrightarrow> t \<noteq> null_stmt L \<Longrightarrow> prepared L ok n decl (s\<lparr>ss_stmt := t\<rparr>)"
  by (simp add: prepared_def)

lemma prepared_slave [simp]: "prepared L ok n decl (s\<lparr>ss_slave := x\<rparr>) = prepared L ok n decl s"
  by (simp add: prepared_def)

lemma prepared_columns: "prepared L ok n decl s \<Longrightarrow> ss_columnCount s = int n"
  by (simp add: prepared_def)

lemma step_codes: "GetRdbErrorCode SQLITE_ROW = E_OK" "GetRdbErrorCode SQLITE_DONE = E_NO_MORE_ROWS"
  by code_simp+

lemma Step_prepared:
  assumes "sqlite_query (l_sqlite L) ok at names rows" "prepared L ok n decl s"
  shows "at (ss_stmt s) < length rows \<Longrightarrow> fst (Stmt_Step L s) = E_OK \<and> prepared L ok n decl (snd (Stmt_Step L s))
      \<and> at (ss_stmt (snd (Stmt_Step L s))) = Suc (at (ss_stmt s))"
    "at (ss_stmt s) = length rows \<Longrightarrow> fst (Stmt_Step L s) = E_NO_MORE_ROWS \<and> prepared L ok n decl (snd (Stmt_Step L s))
      \<and> at (ss_stmt (snd (Stmt_Step L s))) = 0"
proof -
  have ok: "ok (ss_stmt s)" using assms(2) by (simp add: prepared_def)
  {
    assume "at (ss_stmt s) < length rows"
    then obtain t where t: "sqlite3_step (l_sqlite L) (ss_stmt s) = (SQLITE_ROW, t)" "ok t" "at t = Suc (at (ss_stmt s))"
      using sqlite_queryD(1) [OF assms(1) ok] by blast
    have "prepared L ok n decl (s\<lparr>ss_stmt := t\<rparr>)" using prepared_stmt [OF assms(2) t(2)] sqlite_queryD(8) [OF assms(1) t(2)] by blast
    then show "fst (Stmt_Step L s) = E_OK \<and> prepared L ok n decl (snd (Stmt_Step L s))
        \<and> at (ss_stmt (snd (Stmt_Step L s))) = Suc (at (ss_stmt s))"
      using t by (simp add: Stmt_Step_def InnerStep_def step_codes)
  }
  {
    assume "at (ss_stmt s) = length rows"
    then obtain t where t: "sqlite3_step (l_sqlite L) (ss_stmt s) = (SQLITE_DONE, t)" "ok t" "at t = 0"
      using sqlite_queryD(2) [OF assms(1) ok] by blast
    have "prepared L ok n decl (s\<lparr>ss_stmt := t\<rparr>)" using prepared_stmt [OF assms(2) t(2)] sqlite_queryD(8) [OF assms(1) t(2)] by blast
    then show "fst (Stmt_Step L s) = E_NO_MORE_ROWS \<and> prepared L ok n decl (snd (Stmt_Step L s))
        \<and> at (ss_stmt (snd (Stmt_Step L s))) = 0"
      using t by (simp add: Stmt_Step_def InnerStep_def step_codes errno)
  }
qed

lemma Reset_prepared:
  assumes "sqlite_query (l_sqlite L) ok at names rows" "prepared L ok n decl s"
  shows "prepared L ok n decl (snd (Stmt_Reset L s)) \<and> at (ss_stmt (snd (Stmt_Reset L s))) = 0"
proof -
  obtain e t where t: "sqlite3_reset (l_sqlite L) (ss_stmt s) = (e, t)" by fastforce
  have "ok (ss_stmt s)" "ss_stmt s \<noteq> null_stmt L" using assms(2) by (simp_all add: prepared_def)
  moreover have "ok t" "at t = 0" using sqlite_queryD(3,4) [OF assms(1) calculation(1)] t by simp_all
  moreover have "prepared L ok n decl (s\<lparr>ss_stmt := t\<rparr>)"
    using prepared_stmt [OF assms(2) calculation(3)] sqlite_queryD(8) [OF assms(1) calculation(3)] by blast
  ultimately show ?thesis using t by (simp add: Stmt_Reset_def reset_self_def)
qed

lemma sqlite_statement_serves:
  assumes Q: "sqlite_query (l_sqlite L) ok at names rows" and D: "declares (l_sqlite L) ok (length names) decl"
    and R: "readable L decl rows"
  shows "serves (sqlite_statement_ops L f) (prepared L ok (length names) decl) (\<lambda>s. at (ss_stmt s)) names (map (row_values L decl) rows)"
proof -
  have len: "length (rows ! r) = length names" if "r < length rows" for r
    using Q that by (auto simp: sqlite_query_def list_all_length)
  have col: "fst (Stmt_GetColumn L (int i) s) = (E_OK, map (row_values L decl) rows ! (at (ss_stmt s) - 1) ! i)
      \<and> prepared L ok (length names) decl (snd (Stmt_GetColumn L (int i) s))
      \<and> at (ss_stmt (snd (Stmt_GetColumn L (int i) s))) = at (ss_stmt s)"
    if P: "prepared L ok (length names) decl s" and "0 < at (ss_stmt s)" "at (ss_stmt s) \<le> length rows" "i < length names" for s i
  proof -
    let ?row = "rows ! (at (ss_stmt s) - 1)"
    have "column_is (l_sqlite L) (ss_stmt s) (int i) (?row ! i)"
      using sqlite_queryD(5) [OF Q, of "ss_stmt s" i] that by (simp add: prepared_def)
    from GetColumn_prepared [OF P that(4) D this] obtain ts
      where G: "Stmt_GetColumn L (int i) s = (column_value L (decl i) (?row ! i), s\<lparr>ss_types := ts\<rparr>)"
        "prepared L ok (length names) decl (s\<lparr>ss_types := ts\<rparr>)" by blast
    have "fst (column_value L (decl i) (?row ! i)) = E_OK"
      using R that len [of "at (ss_stmt s) - 1"] by (auto simp: readable_def list_all_length)
    then have "column_value L (decl i) (?row ! i) = (E_OK, row_values L decl ?row ! i)"
      using that len [of "at (ss_stmt s) - 1"] by (simp add: row_values_def prod_eq_iff)
    then show ?thesis using G that by simp
  qed
  have name: "Stmt_GetColumnName L (int i) s = (E_OK, names ! i)" if "prepared L ok (length names) decl s" "i < length names" for s i
    using that sqlite_queryD(7) [OF Q, of "ss_stmt s" i] by (simp add: Stmt_GetColumnName_def IsValid_def prepared_def)
  have "list_all (\<lambda>row. length row = length names) (map (row_values L decl) rows)"
    using len by (simp add: list_all_length row_values_def)
  then show ?thesis unfolding serves_def sqlite_statement_ops_simps length_map
    using Step_prepared [OF Q] Reset_prepared [OF Q] prepared_columns col name by blast
qed

section \<open>A query from its text to its rows\<close>

text \<open>
  What sqlite does with a query of \<open>n\<close> parameters: it prepares the text as a statement with no value
  bound, which is read-only, and bound to the arguments, with null for those left out, the statement
  stands before the first row.
\<close>

definition answers ::
    "('d, 't, 'c, 'j) stmt_lib \<Rightarrow> 'd \<Rightarrow> string \<Rightarrow> nat \<Rightarrow> value_object list \<Rightarrow> ('t \<Rightarrow> bool) \<Rightarrow> ('t \<Rightarrow> nat) \<Rightarrow> nat \<Rightarrow> bool" where
  "answers L db sql n args ok at columns \<longleftrightarrow>
     (\<exists>okp fresh params t. sqlite_params (l_sqlite L) okp fresh params n
        \<and> sqlite3_prepare_v2 (l_sqlite L) db sql = (SQLITE_OK, t) \<and> okp t \<and> fresh t \<and> params t = replicate n S_Null
        \<and> sqlite3_stmt_readonly (l_sqlite L) t \<and> sqlite3_bind_parameter_count (l_sqlite L) t = int n
        \<and> sqlite3_column_count (l_sqlite L) t = int columns
        \<and> (\<forall>t. okp t \<longrightarrow> fresh t \<longrightarrow> params t = map (bind_value L) args @ replicate (n - length args) S_Null \<longrightarrow> ok t \<and> at t = 0))"

lemma CreateStatement_prepares:
  assumes "sqlite3_prepare_v2 (l_sqlite L) (cn_dbHandle cn) sql = (SQLITE_OK, t)" "sql \<noteq> []"
  shows "\<exists>s. CreateStatement L files sql owner [] cn = (E_OK, Some s) \<and> ss_stmt s = t \<and> \<not> ss_bound s
    \<and> ss_readOnly s = sqlite3_stmt_readonly (l_sqlite L) t \<and> ss_numParameters s = sqlite3_bind_parameter_count (l_sqlite L) t
    \<and> ss_columnCount s = sqlite3_column_count (l_sqlite L) t
    \<and> ss_types s = replicate (nat (sqlite3_column_count (l_sqlite L) t)) COLUMN_TYPE_INVALID"
  using assms
  by (simp add: CreateStatement_def CreateStatementInner_def Prepare_db_def [of L "cn_dbHandle cn"] SqliteStatement_new_def
      InnerFinalize_def Let_def mark_slave_invalid_def split: option.split prod.split)

lemma Stmt_Bind_params:
  assumes P: "sqlite_params (l_sqlite L) okp fresh params n" and s: "okp (ss_stmt s)" "fresh (ss_stmt s)" "\<not> ss_bound s"
    and "params (ss_stmt s) = replicate n S_Null" "ss_numParameters s = int n" "length args \<le> n" "n < 2 ^ 31"
  shows "\<exists>s1 t. Stmt_Bind L args s = (E_OK, s1) \<and> stmt_core.truncate s1 = stmt_core.truncate (s\<lparr>ss_stmt := t, ss_bound := ss_bound s1\<rparr>)
    \<and> okp t \<and> fresh t \<and> params t = map (bind_value L) args @ replicate (n - length args) S_Null"
proof (cases "args = []")
  case True
  then show ?thesis using s assms(5) by (intro exI [of _ s] exI [of _ "ss_stmt s"]) (simp add: Stmt_Bind_def to_i32_id stmt_core.truncate_def)
next
  case False
  let ?args = "args @ replicate (n - length args) VNull"
  obtain t where t: "BindArgs L ?args s = (E_OK, s\<lparr>ss_stmt := t, ss_bound := True\<rparr>)" "okp t" "fresh t"
      "params t = map (bind_value L) ?args"
    using BindArgs_params [OF P s(1), of ?args] s(2) assms(7) by auto
  have "to_i32 (int (length args)) = int (length args)" using assms(7,8) by (simp add: to_i32_id)
  moreover have "nat (int n - int (length args)) = n - length args" using assms(7) by simp
  moreover have "0 < length args" using False by simp
  moreover from this have "n \<noteq> 0" using assms(7) by linarith
  ultimately have "bind_self L args s = (E_OK, s\<lparr>ss_stmt := t, ss_bound := True\<rparr>)" "to_i32 (int (length args)) \<noteq> 0"
    using assms(6,7) t(1) by (simp_all add: bind_self_def)
  then show ?thesis using t(2-4)
    by (auto simp: Stmt_Bind_def Let_def stmt_core.truncate_def mark_slave_invalid_def split: option.split prod.split intro!: exI [of _ t])
qed

text \<open>A query of a connection is created, bound and counted; its statement then stands before the first row.\<close>

lemma query_statement:
  assumes "sqlite_query (l_sqlite L) ok at names rows"
    and "answers L (cn_dbHandle cn) sql n args ok at (length names)" "length args \<le> n" "n < 2 ^ 31"
    and "sql \<noteq> []" "\<forall>t. ok t \<longrightarrow> \<not> sqlite3_use_sharedblock (l_sqlite L) (sqlite3_db_handle (l_sqlite L) t)"
  shows "\<exists>s0 s1 w. CreateStatement L files sql owner [] cn = (E_OK, Some s0) \<and> ss_readOnly s0 \<and> Stmt_Bind L args s0 = (E_OK, s1)
    \<and> prepared L ok (length names) decl s1 \<and> at (ss_stmt s1) = 0
    \<and> Stmt_Count L fillOpt s1 = Some ((E_OK, int (length rows)), s1\<lparr>ss_stmt := w\<rparr>)
    \<and> prepared L ok (length names) decl (s1\<lparr>ss_stmt := w\<rparr>) \<and> at w = 0"
proof -
  obtain okp fresh params t where A: "sqlite_params (l_sqlite L) okp fresh params n"
      "sqlite3_prepare_v2 (l_sqlite L) (cn_dbHandle cn) sql = (SQLITE_OK, t)" "okp t" "fresh t" "params t = replicate n S_Null"
      "sqlite3_stmt_readonly (l_sqlite L) t" "sqlite3_bind_parameter_count (l_sqlite L) t = int n"
      "sqlite3_column_count (l_sqlite L) t = int (length names)"
      "\<And>t. okp t \<Longrightarrow> fresh t \<Longrightarrow> params t = map (bind_value L) args @ replicate (n - length args) S_Null \<Longrightarrow> ok t \<and> at t = 0"
    using assms(2) unfolding answers_def by blast
  obtain s0 where C: "CreateStatement L files sql owner [] cn = (E_OK, Some s0)" "ss_stmt s0 = t" "\<not> ss_bound s0"
      "ss_readOnly s0" "ss_numParameters s0 = int n" "ss_columnCount s0 = int (length names)"
      "ss_types s0 = replicate (length names) COLUMN_TYPE_INVALID"
    using CreateStatement_prepares [OF A(2) assms(5), of files owner] A(6-8) by auto
  obtain s1 u where B: "Stmt_Bind L args s0 = (E_OK, s1)"
      "stmt_core.truncate s1 = stmt_core.truncate (s0\<lparr>ss_stmt := u, ss_bound := ss_bound s1\<rparr>)" "okp u" "fresh u"
      "params u = map (bind_value L) args @ replicate (n - length args) S_Null"
    using Stmt_Bind_params [OF A(1), of s0 args] C A(3-5) assms(3,4) by auto
  have u: "ok u" "at u = 0" "u \<noteq> null_stmt L" using A(9) [OF B(3-5)] sqlite_queryD(8) [OF assms(1)] by auto
  have s1: "prepared L ok (length names) decl s1" "at (ss_stmt s1) = 0" "ss_stmt s1 = u"
    using B(2) C(6,7) u by (auto simp: prepared_def stmt_core.truncate_def)
  obtain w where w: "Stmt_Count L fillOpt s1 = Some ((E_OK, int (length rows)), s1\<lparr>ss_stmt := w\<rparr>)" "ok w" "at w = 0"
    using Count_rows [OF assms(1), of s1 fillOpt] s1 u assms(6) by (auto simp: SupportBlockInfo_def)
  moreover have "prepared L ok (length names) decl (s1\<lparr>ss_stmt := w\<rparr>)"
    using prepared_stmt [OF s1(1) w(2)] sqlite_queryD(8) [OF assms(1) w(2)] by blast
  ultimately show ?thesis using C(1,4) B(1) s1 by blast
qed

text \<open>
  C28: a query through a connection, from its text and arguments to its rows: the statement is created
  and bound, the rows are counted if asked for, and after any sequence of moves the cursor reads in each
  row the values that sqlite has there.
\<close>

theorem query_cursor_reads_rows:
  assumes "sqlite_query (l_sqlite L) ok at names rows" "declares (l_sqlite L) ok (length names) decl" "readable L decl rows"
    and "answers L (cn_dbHandle cn) sql n args ok at (length names)" "length args \<le> n" "n < 2 ^ 31"
    and "GetSqlStatementType sql \<noteq> STATEMENT_ERROR" "\<forall>t. ok t \<longrightarrow> \<not> sqlite3_use_sharedblock (l_sqlite L) (sqlite3_db_handle (l_sqlite L) t)"
    and "0 \<le> p" "p < int (length rows)" "S = sqlite_statement_ops L fillOpt"
  shows "\<exists>s. StepResultSet_new S (\<lambda>sql. CreateStatement L files sql owner [] cn) True sql args preCount f = Some s
    \<and> (\<forall>ms s'. s' = fold (\<lambda>m. case m of Some q \<Rightarrow> snd \<circ> Step_GoToRow S q | None \<Rightarrow> snd \<circ> Step_GoToNextRow S) ms s \<longrightarrow>
         fst (Step_GoToRow S p s') = E_OK
         \<and> current_row S (snd (Step_GoToRow S p s')) = Some (row_values L decl (rows ! nat p)))"
proof -
  let ?ok = "prepared L ok (length names) decl" and ?at = "\<lambda>s. at (ss_stmt s)" and ?rows = "map (row_values L decl) rows"
  have V: "serves S ?ok ?at names ?rows" using sqlite_statement_serves [OF assms(1-3)] assms(11) by simp
  have ne: "sql \<noteq> []" using assms(7) by (auto simp: GetSqlStatementType_def)
  obtain s0 s1 w where C: "CreateStatement L files sql owner [] cn = (E_OK, Some s0)" "ss_readOnly s0" "Stmt_Bind L args s0 = (E_OK, s1)"
      "?ok s1" "?at s1 = 0" "Stmt_Count L fillOpt s1 = Some ((E_OK, int (length rows)), s1\<lparr>ss_stmt := w\<rparr>)" "?ok (s1\<lparr>ss_stmt := w\<rparr>)" "at w = 0"
    using query_statement [OF assms(1,4-6) ne assms(8)] by blast
  then obtain s where "StepResultSet_new S (\<lambda>sql. CreateStatement L files sql owner [] cn) True sql args preCount f = Some s"
      "srs_inv ?ok ?at names ?rows s"
    using new_result_set_inv [OF V assms(7), of "\<lambda>sql. CreateStatement L files sql owner [] cn" s0 args s1 preCount "s1\<lparr>ss_stmt := w\<rparr>" f]
      assms(11) by auto
  then show ?thesis
    using cursor.seek_peek [OF step_result_set_cursor [OF V], of s p] assms(9,10) by auto
qed

definition sample_connection :: "(unit, bool) sqlite_connection" where
  "sample_connection = \<lparr>cn_dbHandle = (), cn_slaveConnection = Some ((), True), cn_isWriter = False, cn_binlog = False, cn_path = ''/d/a.db''\<rparr>"

lemma sample_answers: "answers sample_lib () ''SELECT id, v FROM t'' 0 [] (list_query_ok (length sample_rows)) rows_read 2"
proof -
  have "sqlite_params (l_sqlite sample_lib) (list_query_ok (length sample_rows)) (\<lambda>t. rows_read t = 0) (\<lambda>_. []) 0"
    by (simp add: sqlite_params_def sample_lib_def sample_query_def list_query_def)
  then show ?thesis unfolding answers_def
    by (intro exI [of _ "list_query_ok (length sample_rows)"] exI [of _ "\<lambda>t. rows_read t = 0"] exI [of _ "\<lambda>_. []"] exI [of _ "Some 0"])
      (simp add: sample_lib_def sample_query_def list_query_def SQLITE_OK_def)
qed

theorem query_cursor_reads_rows_witness:
  "\<exists>s. StepResultSet_new (sqlite_statement_ops sample_lib (\<lambda>_ _ _. None))
      (\<lambda>sql. CreateStatement sample_lib Map.empty sql (Some True) [] sample_connection) True ''SELECT id, v FROM t'' [] True False = Some s
    \<and> current_row (sqlite_statement_ops sample_lib (\<lambda>_ _ _. None))
        (snd (Step_GoToRow (sqlite_statement_ops sample_lib (\<lambda>_ _ _. None)) 1 s)) = Some [VNull, VBlob [1, 2]]"
proof -
  let ?S = "sqlite_statement_ops sample_lib (\<lambda>_ _ _. None) :: (nat option, bool) sqlite_statement statement_ops"
  let ?ok = "list_query_ok (length sample_rows)" and ?sql = "''SELECT id, v FROM t''"
  have d: "declares (l_sqlite sample_lib) ?ok (length [''id'', ''v'']) sample_decl"
    using sample_query_facts(2) by (simp add: sample_lib_def numeral_2_eq_2)
  have r: "readable sample_lib sample_decl sample_rows"
    by (simp add: readable_def sample_rows_def less_Suc_eq)
  have a: "answers sample_lib (cn_dbHandle sample_connection) ?sql 0 [] ?ok rows_read (length [''id'', ''v''])"
    using sample_answers by (simp add: sample_connection_def numeral_2_eq_2)
  have k: "GetSqlStatementType ?sql \<noteq> STATEMENT_ERROR" by code_simp
  have b: "\<forall>t. ?ok t \<longrightarrow> \<not> sqlite3_use_sharedblock (l_sqlite sample_lib) (sqlite3_db_handle (l_sqlite sample_lib) t)"
    by (simp add: sample_lib_def sample_query_def list_query_def)
  have v: "row_values sample_lib sample_decl (sample_rows ! nat 1) = [VNull, VBlob [1, 2]]" by code_simp
  have p: "length ([] :: value_object list) \<le> 0" "(0 :: nat) < 2 ^ 31" "(0 :: int) \<le> 1" "1 < int (length sample_rows)"
    by (simp_all add: sample_rows_def)
  from query_cursor_reads_rows [OF sample_lib_query(1) d r a p(1,2) k b p(3,4) refl, of "\<lambda>_ _ _. None" Map.empty "Some True" True False]
  obtain s where A: "StepResultSet_new ?S (\<lambda>sql. CreateStatement sample_lib Map.empty sql (Some True) [] sample_connection) True ?sql [] True False = Some s"
    and B: "\<forall>ms s'. s' = fold (\<lambda>m. case m of Some q \<Rightarrow> snd \<circ> Step_GoToRow ?S q | None \<Rightarrow> snd \<circ> Step_GoToNextRow ?S) ms s \<longrightarrow>
        fst (Step_GoToRow ?S 1 s') = E_OK
        \<and> current_row ?S (snd (Step_GoToRow ?S 1 s')) = Some (row_values sample_lib sample_decl (sample_rows ! nat 1))"
    by (elim exE conjE) (rule that)
  have f: "s = fold g [] s" for g :: "int option \<Rightarrow> _" by simp
  show ?thesis using A conjunct2 [OF B [rule_format, OF f]] unfolding v by (intro exI [of _ s] conjI)
qed

text \<open>
  C35: a statement that a writing connection with a replica creates, outside of a restore and without a
  binary log, has the same statement prepared on the replica, or the replica is marked invalid; the
  statement itself is created either way.
\<close>

theorem CreateStatement_on_replica:
  assumes "sqlite3_prepare_v2 (l_sqlite L) (cn_dbHandle cn) (sql @ returningSql) = (SQLITE_OK, t)" "sql \<noteq> []"
    and "cn_slaveConnection cn = Some (slaveDb, slaveConn)" "cn_isWriter cn" "\<not> cn_binlog cn"
    and "\<not> IsSlaveRestoring (cn_path cn) files" "can_create (l_posix L) (cn_path cn @ SLAVE_FAILURE)"
    and "GetRdbErrorCode (fst (sqlite3_prepare_v2 (l_sqlite L) slaveDb sql)) = E_OK \<longrightarrow> fst (sqlite3_prepare_v2 (l_sqlite L) slaveDb sql) = SQLITE_OK"
  shows "\<exists>s. CreateStatement L files sql owner returningSql cn = (E_OK, Some s) \<and> ss_stmt s = t
    \<and> (IsSlaveInvalid (cn_path cn) (ss_files s)
       \<or> (\<exists>sl. ss_slave s = Some sl \<and> sqlite3_prepare_v2 (l_sqlite L) slaveDb sql = (SQLITE_OK, ss_stmt sl)
            \<and> ss_conn sl = Some slaveConn \<and> ss_sql sl = sql))"
proof -
  have "IsSlaveInvalid p (snd (SetSlaveInvalid (l_posix L) p fs))" if "can_create (l_posix L) (p @ SLAVE_FAILURE)" for p fs
    using that by (simp add: IsSlaveInvalid_def SetSlaveInvalid_def open_trunc_def Let_def)
  then show ?thesis using assms
    by (cases "sqlite3_prepare_v2 (l_sqlite L) slaveDb sql")
      (simp add: CreateStatement_def CreateStatementInner_def Prepare_db_def SqliteStatement_new_def InnerFinalize_def
        stmt_core.truncate_def mark_slave_invalid_def Let_def)
qed

theorem CreateStatement_on_replica_witness:
  "\<exists>s sl. CreateStatement sample_lib Map.empty ''DELETE FROM t'' (Some True) [] (sample_connection\<lparr>cn_isWriter := True\<rparr>) = (E_OK, Some s)
     \<and> (IsSlaveInvalid ''/d/a.db'' (ss_files s) \<or> ss_slave s = Some sl \<and> ss_sql sl = ''DELETE FROM t'')"
  using CreateStatement_on_replica [of sample_lib "sample_connection\<lparr>cn_isWriter := True\<rparr>" "''DELETE FROM t''" "[]" "Some 0" "()" True Map.empty
      "Some True"]
  by (auto simp: sample_connection_def sample_lib_def sample_query_def list_query_def IsSlaveRestoring_def SQLITE_OK_def)

end
