(* ===== verification/Shared_Result_Set.thy ===== *)
theory Shared_Result_Set
  imports Statement_Queries Sql_Builder
begin

text \<open>
  The result set over a shared block: \<open>AbsSharedResultSet\<close> (\<open>abs_shared_result_set.cpp\<close>) and
  \<open>SqliteSharedResultSet\<close> (\<open>sqlite_shared_result_set.cpp\<close>). The block holds a window of the rows of
  the query, which is filled again from the statement when the cursor leaves it.

  The statement is its interface, the operations of \<open>statement_ops\<close> and \<open>FillBlockInfo\<close>. What a
  result set asks of its surroundings is the record \<open>shared_env\<close>: the statement operations, the
  statements of the connection and its last error message, the memory that \<open>Ashmem\<close> maps for a new block
  (\<open>None\<close> when it cannot), the JSON codec of assets and the clock. Members that point to the block are
  the block itself, as it has one owner. The locks guard single accesses.
\<close>

section \<open>The object\<close>

record 's block_statement_ops = "'s statement_ops" +
  st_FillBlockInfo :: "shared_block block_info \<Rightarrow> 's \<Rightarrow> (int \<times> shared_block block_info \<times> 's) option"

record ('s, 'j) shared_env =
  e_ops :: "'s block_statement_ops"
  e_create :: "string \<Rightarrow> int \<times> 's option"
  e_connMsg :: string
  e_ashmem :: "memory option"
  e_json :: "'j json_ops"
  e_now :: "64 word"

record 's shared_result_set = abs_result_set +
  sh_block :: "shared_block option"
  sh_lowMem :: bool
  sh_name :: string
  sh_onlyFill :: bool
  sh_capacity :: nat
  sh_rowNum :: int
  sh_conn :: bool
  sh_stmt :: "'s option"
  sh_sql :: string
  sh_args :: "value_object list"

abbreviation DEFAULT_BLOCK_SIZE :: nat where "DEFAULT_BLOCK_SIZE \<equiv> 2097152"
abbreviation PICK_POS :: int where "PICK_POS \<equiv> 3"

text \<open>\<open>SharedBlock::Create\<close>: a block over mapped memory, cleared by \<open>Init\<close>.\<close>

definition SharedBlock_Create :: "memory option \<Rightarrow> nat \<Rightarrow> shared_block option" where
  "SharedBlock_Create ashmem sz =
     map_option (\<lambda>m. Init_block \<lparr>mData = m, mSize = sz, mReadOnly = False\<rparr>) ashmem"

definition GetBlock :: "('s, 'j) shared_env \<Rightarrow> 's shared_result_set \<Rightarrow> 's shared_result_set" where
  "GetBlock E s =
     (if sh_block s \<noteq> None \<or> isClosed s \<or> sh_lowMem s then s
      else (case SharedBlock_Create (e_ashmem E) DEFAULT_BLOCK_SIZE of
              None \<Rightarrow> s\<lparr>sh_lowMem := True\<rparr>
            | Some block \<Rightarrow> s\<lparr>sh_block := Some block\<rparr>))"

section \<open>The statement and the columns\<close>

text \<open>A statement made here is not kept in the object: only the constructor stores one.\<close>

definition Shared_PrepareStep ::
    "('s, 'j) shared_env \<Rightarrow> 's shared_result_set \<Rightarrow> ('s option \<times> int) \<times> 's shared_result_set" where
  "Shared_PrepareStep E s =
     (if \<not> sh_conn s then ((None, E_ALREADY_CLOSED), s\<lparr>lastErr := E_ALREADY_CLOSED\<rparr>)
      else if sh_stmt s \<noteq> None then ((sh_stmt s, E_OK), s)
      else if GetSqlStatementType (sh_sql s) = STATEMENT_ERROR then ((None, E_INVALID_ARGS), s\<lparr>lastErr := E_INVALID_ARGS\<rparr>)
      else
        (case e_create E (sh_sql s) of
           (errCode, None) \<Rightarrow> ((None, errCode), s\<lparr>lastErr := errCode\<rparr>)
         | (errCode, Some t) \<Rightarrow>
             if \<not> st_ReadOnly (e_ops E) t then ((None, E_NOT_SELECT), s\<lparr>lastErr := E_NOT_SELECT\<rparr>)
             else
               (let (errCode1, t1) = st_Bind (e_ops E) (sh_args s) t
                in if errCode1 \<noteq> E_OK then ((None, errCode1), s\<lparr>lastErr := errCode1\<rparr>)
                   else ((Some t1, E_OK), s))))"

definition SqliteSharedResultSet_new ::
    "('s, 'j) shared_env \<Rightarrow> bool \<Rightarrow> string \<Rightarrow> value_object list \<Rightarrow> string \<Rightarrow> 's shared_result_set option" where
  "SqliteSharedResultSet_new E hasConn sql args path =
     (let s0 = \<lparr>lastErrMsg = [], rowPos = INIT_POS, isClosed = False, rowCount = NO_COUNT, lastErr = E_OK,
                columnCount = -1, wholeColumnNames = [], columnMap = [], sh_block = None, sh_lowMem = False,
                sh_name = path, sh_onlyFill = False, sh_capacity = 0, sh_rowNum = NO_COUNT, sh_conn = hasConn,
                sh_stmt = None, sh_sql = sql, sh_args = args\<rparr>
      in if \<not> hasConn then Some (s0\<lparr>isClosed := True\<rparr>)
         else
           (let ((stmt, errCode), s1) = Shared_PrepareStep E s0
            in if errCode \<noteq> E_OK then Some s1
               else do {
                 t \<leftarrow> stmt;
                 ((e, n), t1) \<leftarrow> st_Count (e_ops E) t;
                 Some (s1\<lparr>sh_stmt := Some t1, lastErr := e, rowCount := n\<rparr>)
               }))"

fun Shared_names_loop :: "'s statement_ops \<Rightarrow> 's \<Rightarrow> nat \<Rightarrow> int \<Rightarrow> string list \<Rightarrow> int \<times> string list" where
  "Shared_names_loop S t 0 i names = (E_OK, names)"
| "Shared_names_loop S t (Suc m) i names =
     (let (ret, name) = st_GetColumnName S i t
      in if ret \<noteq> E_OK then (ret, []) else Shared_names_loop S t m (i + 1) (names @ [name]))"

definition Shared_GetColumnNames ::
    "('s, 'j) shared_env \<Rightarrow> 's shared_result_set \<Rightarrow> (int \<times> string list) \<times> 's shared_result_set" where
  "Shared_GetColumnNames E s =
     (if isClosed s then ((E_ALREADY_CLOSED, []), s)
      else
        (let ((stmt, errCode), s1) = Shared_PrepareStep E s
         in case stmt of
              None \<Rightarrow> ((errCode, []), s1)
            | Some t \<Rightarrow>
                (Shared_names_loop (statement_ops.truncate (e_ops E)) t (nat (st_GetColumnCount (e_ops E) t)) 0 [], s1)))"

section \<open>Filling the block\<close>

definition on_block :: "(shared_block \<Rightarrow> shared_block) \<Rightarrow> 's shared_result_set \<Rightarrow> 's shared_result_set" where
  "on_block f s = s\<lparr>sh_block := map_option f (sh_block s)\<rparr>"

definition ClearBlock :: "('s, 'j) shared_env \<Rightarrow> 's shared_result_set \<Rightarrow> 's shared_result_set" where
  "ClearBlock E s = on_block (\<lambda>block. snd (Clear_block block)) (GetBlock E s)"

text \<open>
  The block in the argument is that of the object. The statement is updated in the object only if it
  is the one stored there.
\<close>

definition ExecuteForSharedBlock ::
    "('s, 'j) shared_env \<Rightarrow> shared_block \<Rightarrow> int \<Rightarrow> int \<Rightarrow> 's shared_result_set \<Rightarrow> (int \<times> 's shared_result_set) option" where
  "ExecuteForSharedBlock E block start required s =
     (let ((stmt, errCode), s1) = Shared_PrepareStep E s
      in if errCode \<noteq> E_OK then Some (errCode, s1)
         else do {
           t \<leftarrow> stmt;
           let (code, block1) = Clear_block block;
           let s2 = s1\<lparr>sh_block := Some block1\<rparr>;
           if code \<noteq> SHARED_BLOCK_OK then Some (E_ERROR, s2)
           else do {
             let (code1, block2) = SetColumnNum (nat (st_GetColumnCount (e_ops E) t mod 2 ^ 32)) block1;
             let s3 = s2\<lparr>sh_block := Some block2\<rparr>;
             if code1 \<noteq> SHARED_BLOCK_OK then Some (E_ERROR, s3)
             else do {
               (errCode1, info, t1) \<leftarrow> st_FillBlockInfo (e_ops E)
                 ((SharedBlockInfo_new (Some block2))\<lparr>bi_requiredPos := required, bi_columnNum := st_GetColumnCount (e_ops E) t,
                    bi_isCountAllRows := False, bi_startPos := start\<rparr>) t;
               let block3 = the (bi_sharedBlock info);
               let s4 = s3\<lparr>sh_block := Some block3, sh_stmt := map_option (\<lambda>_. t1) (sh_stmt s3)\<rparr>;
               Some (if errCode1 \<noteq> E_OK then (errCode1, s4)
                     else (E_OK, s4\<lparr>sh_block := Some
                       (SetLastPos (nat ((bi_startPos info + int (rowNums (mData block3))) mod 2 ^ 32))
                          (SetBlockPos (nat ((required - bi_startPos info) mod 2 ^ 32))
                            (SetStartPos (nat (bi_startPos info mod 2 ^ 32)) block3)))\<rparr>))
             }
           }
         })"

definition PickFillBlockStartPosition :: "int \<Rightarrow> int \<Rightarrow> int" where
  "PickFillBlockStartPosition resultSetPosition blockCapacity = max (resultSetPosition - trunc_div blockCapacity PICK_POS) 0"

definition FillBlock ::
    "('s, 'j) shared_env \<Rightarrow> int \<Rightarrow> 's shared_result_set \<Rightarrow> (int \<times> 's shared_result_set) option" where
  "FillBlock E requiredPos s =
     (let s1 = GetBlock E s
      in if sh_block s1 = None then Some (E_ERROR, s1)
         else
           (let s2 = ClearBlock E s1;
                start = (if sh_onlyFill s2 then requiredPos
                         else PickFillBlockStartPosition requiredPos (to_i32 (int (sh_capacity s2))))
            in do {
                 (errCode, s3) \<leftarrow> ExecuteForSharedBlock E (the (sh_block s2)) start requiredPos s2;
                 Some (if errCode \<noteq> E_OK then (errCode, s3)
                       else
                         (let m = mData (the (sh_block s3))
                          in (if nat (requiredPos mod 2 ^ 32) \<ge> lastPos m then E_NO_MORE_ROWS else E_OK,
                              s3\<lparr>sh_capacity := rowNums m\<rparr>)))
               }))"

section \<open>Moving\<close>

definition OnGo ::
    "('s, 'j) shared_env \<Rightarrow> int \<Rightarrow> int \<Rightarrow> 's shared_result_set \<Rightarrow> (int \<times> 's shared_result_set) option" where
  "OnGo E oldPosition newPosition s =
     (if isClosed s then Some (E_ALREADY_CLOSED, s)
      else
        (let s1 = GetBlock E s
         in case sh_block s1 of
              None \<Rightarrow> Some (E_ERROR, s1)
            | Some block \<Rightarrow>
                (let new = nat (newPosition mod 2 ^ 32)
                 in if new < startPos (mData block) \<or> new \<ge> lastPos (mData block) \<or> oldPosition = rowCount s1
                    then do {
                      (errCode, s2) \<leftarrow> FillBlock E newPosition s1;
                      Some (if errCode = E_NO_MORE_ROWS \<and> rowCount s2 \<noteq> INVALID_COUNT
                            then
                              (let last = lastPos (mData (the (sh_block s2)));
                                   s3 = s2\<lparr>rowCount := if int last > 2147483647 then INVALID_COUNT else int last\<rparr>;
                                   s4 = s3\<lparr>rowPos := if rowPos s3 > rowCount s3 then rowCount s3 else rowPos s3\<rparr>
                               in (E_ROW_OUT_RANGE, SetLastErrorMsg (BuildRowRangeCtx s4) s4))
                            else (errCode, SetLastErrorMsg (e_connMsg E) s2))
                    }
                    else Some (E_OK, s1))))"

definition UpdateBlockPos ::
    "('s, 'j) shared_env \<Rightarrow> int \<Rightarrow> 's shared_result_set \<Rightarrow> (int \<times> 's shared_result_set) option" where
  "UpdateBlockPos E position s = do {
     (ret, s1) \<leftarrow> OnGo E (rowPos s) position (GetBlock E s);
     Some (if ret = E_OK
           then
             (ret, on_block (\<lambda>block.
                let start = startPos (mData block); pos = blockPos (mData block)
                in if nat (position mod 2 ^ 32) \<noteq> u32 (start + pos)
                   then SetBlockPos (nat ((position - int start) mod 2 ^ 32)) block else block) s1)
           else (ret, s1))
   }"

definition Shared_GoToRow ::
    "('s, 'j) shared_env \<Rightarrow> int \<Rightarrow> 's shared_result_set \<Rightarrow> (int \<times> 's shared_result_set) option" where
  "Shared_GoToRow E position s =
     (if isClosed s then Some (E_ALREADY_CLOSED, s)
      else
        (let (ret, rowCnt) = AbsResultSet_GetRowCount 0 s
         in if ret \<noteq> E_OK then Some (ret, s)
            else if position \<ge> rowCnt \<or> position < 0
            then
              (let s1 = s\<lparr>rowPos := if position \<ge> rowCnt \<and> rowCnt \<noteq> 0 then rowCnt else rowPos s\<rparr>
               in Some (E_ROW_OUT_RANGE, SetLastErrorMsg (BuildRowRangeCtx s1) s1))
            else if position = rowPos s then Some (E_OK, s)
            else do {
              (ret1, s1) \<leftarrow> UpdateBlockPos E position s;
              Some (if ret1 = E_OK then (ret1, s1\<lparr>rowPos := position\<rparr>) else (ret1, s1))
            }))"

section \<open>Reading\<close>

text \<open>
  The calls of the base class on this class. The value that a client passes to \<open>Get\<close> is written only
  when the cell is not null; the base class passes a new one.
\<close>

definition Shared_GetRowCount ::
    "int \<Rightarrow> 's shared_result_set \<Rightarrow> ((int \<times> int) \<times> 's shared_result_set) option" where
  "Shared_GetRowCount count s = Some (AbsResultSet_GetRowCount count s, s)"

definition names_vtable :: "('s, 'j) shared_env \<Rightarrow> ('s shared_result_set) vtable" where
  "names_vtable E =
     \<lparr>v_GetColumnNames = Shared_GetColumnNames E, v_Get = (\<lambda>_ _. None), v_GoToRow = Shared_GoToRow E,
      v_GoToNextRow = (\<lambda>s. Shared_GoToRow E (rowPos s + 1) s), v_GetRowCount = Shared_GetRowCount,
      v_GetColumnType = (\<lambda>_ _ _. None)\<rparr>"

text \<open>If the column names cannot be read, the index is compared with the number of rows.\<close>

definition CheckState :: "('s, 'j) shared_env \<Rightarrow> int \<Rightarrow> 's shared_result_set \<Rightarrow> int \<times> 's shared_result_set" where
  "CheckState E columnIndex s =
     (if isClosed s then (E_ALREADY_CLOSED, s)
      else
        (let s1 = GetBlock E s
         in if sh_block s1 = None then (E_ERROR, s1)
            else
              (let count = snd (AbsResultSet_GetRowCount 0 s1)
               in if rowPos s1 < 0 \<or> rowPos s1 \<ge> count
                  then (E_ROW_OUT_RANGE, SetLastErrorMsg (BuildRowRangeCtx s1) s1)
                  else
                    (let ((_, count1), s2) = GetColumnCount (names_vtable E) count s1
                     in if columnIndex \<ge> count1 \<or> columnIndex < 0
                        then (E_COLUMN_OUT_RANGE,
                              SetLastErrorMsg (''The columnIndex: '' @ to_string_int columnIndex @ '' is out of range'') s2)
                        else (E_OK, s2)))))"

text \<open>The cell of a column in the row of the block position.\<close>

definition cell_at :: "int \<Rightarrow> shared_block \<Rightarrow> nat option" where
  "cell_at col block = GetCellUnit (blockPos (mData block)) (nat (col mod 2 ^ 32)) block"

definition GetCustomerValue ::
    "('s, 'j) shared_env \<Rightarrow> int \<Rightarrow> value_object \<Rightarrow> shared_block \<Rightarrow> (int \<times> value_object) option" where
  "GetCustomerValue E index val block =
     (case cell_at index block of
        None \<Rightarrow> Some (E_ERROR, val)
      | Some unit \<Rightarrow>
          (let t = cell_type unit (mData block)
           in if t \<notin> {CELL_UNIT_TYPE_ASSET, CELL_UNIT_TYPE_ASSETS, CELL_UNIT_TYPE_FLOATS, CELL_UNIT_TYPE_BIGINT}
              then Some (E_INVALID_OBJECT_TYPE, val)
              else do {
                p \<leftarrow> CellUnit_GetRawData unit block;
                let data = bytes_at p (cell_size unit (mData block)) (mData block);
                Some (E_OK,
                  if t = CELL_UNIT_TYPE_ASSET then VAsset (snd (ParserRawData_asset (e_json E) (e_now E) data default_asset))
                  else if t = CELL_UNIT_TYPE_ASSETS then VAssets (snd (ParserRawData_assets (e_json E) (e_now E) data []))
                  else if t = CELL_UNIT_TYPE_FLOATS then VVecs (snd (ParserRawData_floats data []))
                  else VBigInt (snd (ParserRawData_bigint data default_big)))
              }))"

definition Shared_Get ::
    "('s, 'j) shared_env \<Rightarrow> int \<Rightarrow> value_object \<Rightarrow> 's shared_result_set \<Rightarrow>
     ((int \<times> value_object) \<times> 's shared_result_set) option" where
  "Shared_Get E col val s =
     (let (errorCode, s1) = CheckState E col (GetBlock E s)
      in case sh_block s1 of
           None \<Rightarrow> Some ((errorCode, val), s1)
         | Some block \<Rightarrow>
             if errorCode \<noteq> E_OK then Some ((errorCode, val), s1)
             else
               (case cell_at col block of
                  None \<Rightarrow> Some ((E_ERROR, val), s1)
                | Some unit \<Rightarrow>
                    (let t = cell_type unit (mData block)
                     in if t = CELL_UNIT_TYPE_NULL then Some ((E_OK, val), s1)
                        else if t = CELL_UNIT_TYPE_INTEGER then Some ((E_OK, VInt (sint (cell_bits unit (mData block)))), s1)
                        else if t = CELL_UNIT_TYPE_FLOAT then Some ((E_OK, VDouble (cell_bits unit (mData block))), s1)
                        else if t = CELL_UNIT_TYPE_STRING
                        then do { bs \<leftarrow> CellUnit_GetString unit block; Some ((E_OK, VString (of_bytes bs)), s1) }
                        else if t = CELL_UNIT_TYPE_BLOB
                        then do { bs \<leftarrow> CellUnit_GetBlob unit block; Some ((E_OK, VBlob bs), s1) }
                        else do { r \<leftarrow> GetCustomerValue E col val block; Some (r, s1) })))"

definition Shared_GetColumnType ::
    "('s, 'j) shared_env \<Rightarrow> int \<Rightarrow> column_type \<Rightarrow> 's shared_result_set \<Rightarrow>
     ((int \<times> column_type) \<times> 's shared_result_set) option" where
  "Shared_GetColumnType E columnIndex columnType s =
     (let (errorCode, s1) = CheckState E columnIndex (GetBlock E s)
      in if errorCode \<noteq> E_OK then Some ((errorCode, columnType), s1)
         else (case cell_at columnIndex (the (sh_block s1)) of
                 None \<Rightarrow> Some ((E_ERROR, columnType), s1)
               | Some unit \<Rightarrow> Some ((E_OK, int (cell_type unit (mData (the (sh_block s1))))), s1)))"

definition Shared_GetSize ::
    "('s, 'j) shared_env \<Rightarrow> int \<Rightarrow> 's shared_result_set \<Rightarrow> (int \<times> nat) \<times> 's shared_result_set" where
  "Shared_GetSize E columnIndex s =
     (let (errorCode, s1) = CheckState E columnIndex (GetBlock E s)
      in if errorCode \<noteq> E_OK then ((errorCode, 0), s1)
         else (case cell_at columnIndex (the (sh_block s1)) of
                 None \<Rightarrow> ((E_ERROR, 0), s1)
               | Some unit \<Rightarrow>
                   if cell_type unit (mData (the (sh_block s1))) \<in> {CELL_UNIT_TYPE_STRING, CELL_UNIT_TYPE_BLOB, CELL_UNIT_TYPE_NULL}
                   then ((E_OK, cell_size unit (mData (the (sh_block s1)))), s1) else ((E_INVALID_OBJECT_TYPE, 0), s1)))"

definition shared_vtable :: "('s, 'j) shared_env \<Rightarrow> ('s shared_result_set) vtable" where
  "shared_vtable E =
     (names_vtable E)\<lparr>v_Get := (\<lambda>col. Shared_Get E col VNull), v_GetColumnType := Shared_GetColumnType E\<rparr>"

section \<open>Closing\<close>

definition SetBlock :: "shared_block option \<Rightarrow> 's shared_result_set \<Rightarrow> 's shared_result_set" where
  "SetBlock block s = s\<lparr>sh_block := block, sh_rowNum := NO_COUNT\<rparr>"

definition HasBlock :: "('s, 'j) shared_env \<Rightarrow> 's shared_result_set \<Rightarrow> bool \<times> 's shared_result_set" where
  "HasBlock E s = (sh_block (GetBlock E s) \<noteq> None, GetBlock E s)"

definition SetFillBlockForwardOnly :: "bool \<Rightarrow> 's shared_result_set \<Rightarrow> 's shared_result_set" where
  "SetFillBlockForwardOnly only s = s\<lparr>sh_onlyFill := only\<rparr>"

definition AbsSharedResultSet_Close :: "'s shared_result_set \<Rightarrow> int \<times> 's shared_result_set" where
  "AbsSharedResultSet_Close s =
     (if isClosed s then (E_OK, s) else (E_OK, (snd (AbsResultSet_Close s))\<lparr>sh_block := None, sh_name := []\<rparr>))"

definition Shared_Close :: "'s shared_result_set \<Rightarrow> int \<times> 's shared_result_set" where
  "Shared_Close s =
     (let s1 = snd (AbsSharedResultSet_Close s)
      in (E_OK, s1\<lparr>sh_stmt := None, sh_conn := False, rowCount := NO_COUNT, sh_sql := [], sh_args := []\<rparr>))"

section \<open>A statement that fills blocks\<close>

text \<open>
  What the result set relies on: the statement knows its columns, and filling a cleared block from a
  start position leaves the required row in the block, in a window of rows of the query. A statement
  that is \<open>ready\<close> stands before its first row, and is so again after filling.
\<close>

definition window_of :: "nat \<Rightarrow> (nat \<Rightarrow> string option) \<Rightarrow> sql_value list list \<Rightarrow> nat \<Rightarrow> shared_block \<Rightarrow> bool" where
  "window_of n decl rows start B \<longleftrightarrow> mSize B = DEFAULT_BLOCK_SIZE \<and> start + rowNums (mData B) \<le> length rows
     \<and> (\<exists>G. stands_for B G \<and> g_rows G = rowNums (mData B) \<and> (g_rows G = 0 \<or> g_cols G = n)
         \<and> (\<forall>r < g_rows G. \<forall>c < n. g_cell G r c = Some (cell_of (decl c) (rows ! (start + r) ! c))))"

definition fills ::
    "'s block_statement_ops \<Rightarrow> ('s \<Rightarrow> bool) \<Rightarrow> string list \<Rightarrow> (nat \<Rightarrow> string option) \<Rightarrow> sql_value list list \<Rightarrow> bool" where
  "fills S ready names decl rows \<longleftrightarrow>
     (\<forall>t. ready t \<longrightarrow> st_GetColumnCount S t = int (length names)) \<and>
     (\<forall>t i. ready t \<longrightarrow> i < length names \<longrightarrow> st_GetColumnName S (int i) t = (E_OK, names ! i)) \<and>
     (\<forall>t blk k req. ready t \<longrightarrow> cleared DEFAULT_BLOCK_SIZE (length names) blk \<longrightarrow> k \<le> req \<longrightarrow> req < length rows \<longrightarrow>
        (\<exists>info t' B s. st_FillBlockInfo S
             ((SharedBlockInfo_new (Some blk))\<lparr>bi_requiredPos := int req, bi_columnNum := int (length names),
                bi_isCountAllRows := False, bi_startPos := int k\<rparr>) t = Some (E_OK, info, t')
           \<and> ready t' \<and> bi_sharedBlock info = Some B \<and> bi_startPos info = int s
           \<and> window_of (length names) decl rows s B \<and> s \<le> req \<and> req < s + rowNums (mData B)))"

lemma fills_fill:
  assumes "fills S ready names decl rows" "ready t" "cleared DEFAULT_BLOCK_SIZE (length names) blk" "k \<le> req" "req < length rows"
  shows "\<exists>info t' B s. st_FillBlockInfo S
             ((SharedBlockInfo_new (Some blk))\<lparr>bi_requiredPos := int req, bi_columnNum := int (length names),
                bi_isCountAllRows := False, bi_startPos := int k\<rparr>) t = Some (E_OK, info, t')
           \<and> ready t' \<and> bi_sharedBlock info = Some B \<and> bi_startPos info = int s
           \<and> window_of (length names) decl rows s B \<and> s \<le> req \<and> req < s + rowNums (mData B)"
  using assms unfolding fills_def by blast

lemma fills_names:
  assumes "fills S ready names decl rows" "ready t"
  shows "st_GetColumnCount S t = int (length names)" "i < length names \<Longrightarrow> st_GetColumnName S (int i) t = (E_OK, names ! i)"
  using assms unfolding fills_def by blast+

lemma window_of_positions:
  assumes "window_of n decl rows s B"
  shows "window_of n decl rows s (SetStartPos p B)" "window_of n decl rows s (SetLastPos p B)" "window_of n decl rows s (SetBlockPos p B)"
  using assms set_positions [of B] unfolding window_of_def position_selectors by blast+

lemma window_of_rows: "window_of n decl rows s B \<Longrightarrow> rowNums (mData B) \<le> 16384"
  by (auto simp: window_of_def stands_for_def layout_def)

section \<open>The invariant of the cursor\<close>

definition in_window :: "nat \<Rightarrow> (nat \<Rightarrow> string option) \<Rightarrow> sql_value list list \<Rightarrow> int \<Rightarrow> shared_block \<Rightarrow> bool" where
  "in_window n decl rows pos B \<longleftrightarrow> window_of n decl rows (startPos (mData B)) B
     \<and> lastPos (mData B) = startPos (mData B) + rowNums (mData B)
     \<and> (0 \<le> pos \<and> pos < int (length rows) \<longrightarrow>
          int (startPos (mData B) + blockPos (mData B)) = pos \<and> blockPos (mData B) < rowNums (mData B))"

definition sh_inv ::
    "('s \<Rightarrow> bool) \<Rightarrow> string list \<Rightarrow> (nat \<Rightarrow> string option) \<Rightarrow> sql_value list list \<Rightarrow> 's shared_result_set \<Rightarrow> bool" where
  "sh_inv ready names decl rows s \<longleftrightarrow>
     \<not> isClosed s \<and> sh_conn s \<and> \<not> sh_lowMem s \<and> lastErr s = E_OK \<and> rowCount s = int (length rows)
     \<and> (\<exists>t. sh_stmt s = Some t \<and> ready t) \<and> sh_capacity s \<le> 16384
     \<and> (columnCount s = -1 \<or> columnCount s = int (length names) \<and> length (wholeColumnNames s) = length names)
     \<and> -1 \<le> rowPos s \<and> rowPos s \<le> int (length rows)
     \<and> (case sh_block s of
          None \<Rightarrow> rowPos s = -1 \<or> rowPos s = int (length rows)
        | Some B \<Rightarrow> in_window (length names) decl rows (rowPos s) B)"

lemma new_block_window: "in_window n decl rows pos (the (SharedBlock_Create (Some m) DEFAULT_BLOCK_SIZE))"
  if "\<not> (0 \<le> pos \<and> pos < int (length rows))"
proof -
  let ?B = "\<lparr>mData = m, mSize = DEFAULT_BLOCK_SIZE, mReadOnly = False\<rparr>"
  note C = Clear_empty [of ?B, simplified]
  have "rowNums (mData (snd (Clear_block ?B))) = 0" "startPos (mData (snd (Clear_block ?B))) = 0" "lastPos (mData (snd (Clear_block ?B))) = 0"
    by (simp_all add: Clear_block_def Let_def rowNums_def startPos_def lastPos_def load_store_other load_memcpy_other load_store)
  moreover have "window_of n decl rows 0 (snd (Clear_block ?B))"
    unfolding window_of_def using C calculation(1) by (auto intro!: exI [of _ empty_grid])
  ultimately show ?thesis using that by (simp add: in_window_def SharedBlock_Create_def Init_block_def)
qed

lemma GetBlock_inv:
  assumes "sh_inv ready names decl rows s" "e_ashmem E = Some m"
  shows "sh_inv ready names decl rows (GetBlock E s) \<and> rowPos (GetBlock E s) = rowPos s \<and> (\<exists>B. sh_block (GetBlock E s) = Some B)"
proof (cases "sh_block s")
  case None
  then have "in_window (length names) decl rows (rowPos s) (the (SharedBlock_Create (Some m) DEFAULT_BLOCK_SIZE))"
    using assms(1) by (intro new_block_window) (auto simp: sh_inv_def)
  then show ?thesis using assms None by (auto simp: GetBlock_def sh_inv_def SharedBlock_Create_def)
next
  case (Some B)
  then show ?thesis using assms(1) by (simp add: GetBlock_def)
qed

section \<open>Moving keeps the invariant\<close>

lemma nat_u32: "x < 2 ^ 32 \<Longrightarrow> nat (int x mod 2 ^ 32) = x" "x < 2 ^ 32 \<Longrightarrow> u32 x = x"
  by (simp_all add: u32_def)

lemma ExecuteForSharedBlock_cleared:
  assumes S: "fills (e_ops E) ready names decl rows" and inv: "sh_inv ready names decl rows s"
    and w: "\<not> mReadOnly B" "mSize B = DEFAULT_BLOCK_SIZE"
    and n: "length names \<le> COL_MAX_NUM" and r: "k \<le> req" "req < length rows" "length rows < 2 ^ 31"
  shows "\<exists>B' t'. ExecuteForSharedBlock E B (int k) (int req) (s\<lparr>sh_block := Some B\<rparr>) = Some (E_OK, s\<lparr>sh_block := Some B', sh_stmt := Some t'\<rparr>)
    \<and> ready t' \<and> in_window (length names) decl rows (int req) B' \<and> req < lastPos (mData B')"
proof -
  obtain t where t: "sh_stmt s = Some t" "ready t" "sh_conn s" using inv by (auto simp: sh_inv_def)
  let ?B1 = "snd (Clear_block B)" let ?B2 = "snd (SetColumnNum (length names) ?B1)"
  have c: "fst (Clear_block B) = SHARED_BLOCK_OK" "fst (SetColumnNum (length names) ?B1) = SHARED_BLOCK_OK"
    "cleared DEFAULT_BLOCK_SIZE (length names) ?B2"
    using Clear_empty(1) [of B] clearedI [of B "length names"] w n by simp_all
  obtain info t' B' st where F: "st_FillBlockInfo (e_ops E)
             ((SharedBlockInfo_new (Some ?B2))\<lparr>bi_requiredPos := int req, bi_columnNum := int (length names),
                bi_isCountAllRows := False, bi_startPos := int k\<rparr>) t = Some (E_OK, info, t')"
      "ready t'" "bi_sharedBlock info = Some B'" "bi_startPos info = int st" "window_of (length names) decl rows st B'"
      "st \<le> req" "req < st + rowNums (mData B')"
    using fills_fill [OF S t(2) c(3) r(1,2)] by blast
  let ?B = "SetLastPos (nat ((int st + int (rowNums (mData B'))) mod 2 ^ 32))
    (SetBlockPos (nat ((int req - int st) mod 2 ^ 32)) (SetStartPos (nat (int st mod 2 ^ 32)) B'))"
  have le: "st + rowNums (mData B') \<le> length rows" using F(5) by (simp add: window_of_def)
  have p: "startPos (mData ?B) = st" "lastPos (mData ?B) = st + rowNums (mData B')" "blockPos (mData ?B) = req - st"
    using nat_u32 [of st] nat_u32 [of "st + rowNums (mData B')"] nat_u32 [of "req - st"] le F(6,7) r(2,3)
    by (simp_all add: of_nat_diff)
  have "in_window (length names) decl rows (int req) ?B"
    unfolding in_window_def p using F(5-7) by (auto intro!: window_of_positions)
  moreover have "nat (int (length names) mod 2 ^ 32) = length names" using n by (intro nat_u32) simp
  ultimately show ?thesis using c(1,2) t F(1-4) fills_names(1) [OF S t(2)] p(2) F(7)
    by (intro exI [of _ ?B] exI [of _ t'])
      (simp add: ExecuteForSharedBlock_def Shared_PrepareStep_def Let_def case_prod_beta)
qed

lemma PickFillBlockStartPosition_le:
  "cap \<le> 16384 \<Longrightarrow> 0 \<le> req \<Longrightarrow> \<exists>k. PickFillBlockStartPosition req (to_i32 (int cap)) = int k \<and> int k \<le> req"
  by (intro exI [of _ "nat (PickFillBlockStartPosition req (to_i32 (int cap)))"])
    (simp add: PickFillBlockStartPosition_def to_i32_id trunc_div_pos)

lemma FillBlock_ok:
  assumes S: "fills (e_ops E) ready names decl rows" and inv: "sh_inv ready names decl rows s" and B: "sh_block s = Some B"
    and n: "length names \<le> COL_MAX_NUM" and r: "req < length rows" "length rows < 2 ^ 31"
  shows "\<exists>B' t' cap. FillBlock E (int req) s = Some (E_OK, s\<lparr>sh_block := Some B', sh_stmt := Some t', sh_capacity := cap\<rparr>)
    \<and> ready t' \<and> cap \<le> 16384 \<and> in_window (length names) decl rows (int req) B'"
proof -
  let ?B1 = "snd (Clear_block B)" let ?s = "s\<lparr>sh_block := Some ?B1\<rparr>"
  have w: "\<not> mReadOnly B" "mSize B = DEFAULT_BLOCK_SIZE"
    using inv B by (auto simp: sh_inv_def in_window_def window_of_def stands_for_def)
  have g: "GetBlock E s = s" "ClearBlock E s = ?s" using B by (simp_all add: GetBlock_def ClearBlock_def on_block_def)
  have "\<not> mReadOnly ?B1" "mSize ?B1 = DEFAULT_BLOCK_SIZE" using w by (simp_all add: Clear_block_def Let_def)
  then have *: "\<exists>B' t'. ExecuteForSharedBlock E ?B1 (int k) (int req) ?s = Some (E_OK, ?s\<lparr>sh_block := Some B', sh_stmt := Some t'\<rparr>)
      \<and> ready t' \<and> in_window (length names) decl rows (int req) B' \<and> req < lastPos (mData B')" if "k \<le> req" for k
    using ExecuteForSharedBlock_cleared [OF S inv _ _ n that r, of ?B1] by simp
  obtain k where k: "(if sh_onlyFill s then int req else PickFillBlockStartPosition (int req) (to_i32 (int (sh_capacity s)))) = int k" "k \<le> req"
    using PickFillBlockStartPosition_le [of "sh_capacity s" "int req"] inv
    by (cases "sh_onlyFill s") (auto simp: sh_inv_def)
  from * [OF k(2)] obtain B' t' where X: "ExecuteForSharedBlock E ?B1 (int k) (int req) ?s = Some (E_OK, s\<lparr>sh_block := Some B', sh_stmt := Some t'\<rparr>)"
      "ready t'" "in_window (length names) decl rows (int req) B'" "req < lastPos (mData B')" by auto
  moreover have "rowNums (mData B') \<le> 16384" using X(3) window_of_rows by (auto simp: in_window_def)
  moreover have "nat (int req mod 2 ^ 32) = req" using r by (intro nat_u32) simp
  ultimately show ?thesis using B g k(1)
    by (intro exI [of _ B'] exI [of _ t'] exI [of _ "rowNums (mData B')"], cases "sh_onlyFill s")
      (simp_all add: FillBlock_def Let_def)
qed

lemma sh_inv_moved:
  assumes "sh_inv ready names decl rows s" "in_window (length names) decl rows p B" "ready t" "cap \<le> 16384"
    "-1 \<le> p" "p \<le> int (length rows)"
  shows "sh_inv ready names decl rows (s\<lparr>sh_block := Some B, sh_stmt := Some t, sh_capacity := cap, lastErrMsg := m, rowPos := p\<rparr>)"
  using assms by (auto simp: sh_inv_def)

text \<open>A move to an existing row ends in the window, which is filled again if the row is not in it.\<close>

lemma OnGo_ok:
  assumes S: "fills (e_ops E) ready names decl rows" and inv: "sh_inv ready names decl rows s" and B: "sh_block s = Some B"
    and n: "length names \<le> COL_MAX_NUM" and r: "req < length rows" "length rows < 2 ^ 31"
  shows "(startPos (mData B) \<le> req \<and> req < lastPos (mData B) \<and> OnGo E old (int req) s = Some (E_OK, s))
    \<or> (\<exists>B' t' cap m. OnGo E old (int req) s = Some (E_OK, s\<lparr>sh_block := Some B', sh_stmt := Some t', sh_capacity := cap, lastErrMsg := m\<rparr>)
        \<and> ready t' \<and> cap \<le> 16384 \<and> in_window (length names) decl rows (int req) B')"
proof -
  have u: "nat (int req mod 2 ^ 32) = req" using r by (intro nat_u32) simp
  have s: "\<not> isClosed s" "GetBlock E s = s" "E_OK \<noteq> E_NO_MORE_ROWS" using inv B by (auto simp: sh_inv_def GetBlock_def errno)
  obtain B' t' cap where F: "FillBlock E (int req) s = Some (E_OK, s\<lparr>sh_block := Some B', sh_stmt := Some t', sh_capacity := cap\<rparr>)"
      "ready t'" "cap \<le> 16384" "in_window (length names) decl rows (int req) B'"
    using FillBlock_ok [OF S inv B n r] by blast
  show ?thesis
  proof (cases "startPos (mData B) \<le> req \<and> req < lastPos (mData B) \<and> old \<noteq> rowCount s")
    case True
    then show ?thesis using B s u by (simp add: OnGo_def)
  next
    case False
    then have "OnGo E old (int req) s
        = Some (E_OK, s\<lparr>sh_block := Some B', sh_stmt := Some t', sh_capacity := cap, lastErrMsg := e_connMsg E\<rparr>)"
      using B s u F(1) by (auto simp: OnGo_def Let_def SetLastErrorMsg_def)
    then show ?thesis using F(2-4) by blast
  qed
qed

lemma UpdateBlockPos_ok:
  assumes S: "fills (e_ops E) ready names decl rows" and inv: "sh_inv ready names decl rows s" and "e_ashmem E = Some mem"
    and n: "length names \<le> COL_MAX_NUM" and r: "req < length rows" "length rows < 2 ^ 31"
  shows "\<exists>s'. UpdateBlockPos E (int req) s = Some (E_OK, s') \<and> sh_inv ready names decl rows (s'\<lparr>rowPos := int req\<rparr>)"
proof -
  let ?s = "GetBlock E s"
  obtain B where G: "sh_inv ready names decl rows ?s" "rowPos ?s = rowPos s" "sh_block ?s = Some B"
    using GetBlock_inv [OF inv assms(3)] by blast
  obtain t where t: "sh_stmt ?s = Some t" "ready t" "sh_capacity ?s \<le> 16384" using G(1) by (auto simp: sh_inv_def)
  have u: "nat (int req mod 2 ^ 32) = req" using r by (intro nat_u32) simp
  from OnGo_ok [OF S G(1,3) n r, of "rowPos s"] show ?thesis
  proof
    assume *: "startPos (mData B) \<le> req \<and> req < lastPos (mData B) \<and> OnGo E (rowPos s) (int req) ?s = Some (E_OK, ?s)"
    let ?B = "if req \<noteq> u32 (startPos (mData B) + blockPos (mData B)) then SetBlockPos (nat ((int req - int (startPos (mData B))) mod 2 ^ 32)) B else B"
    have w: "window_of (length names) decl rows (startPos (mData B)) B" "lastPos (mData B) = startPos (mData B) + rowNums (mData B)"
      using G(1,3) by (auto simp: sh_inv_def in_window_def)
    have bp: "blockPos (mData B) < 2 ^ 32" using load_bound [of 4 20 "mData B"] by (simp add: blockPos_def)
    have "in_window (length names) decl rows (int req) ?B"
    proof (cases "req = startPos (mData B) + blockPos (mData B)")
      case True
      then have "u32 (startPos (mData B) + blockPos (mData B)) = startPos (mData B) + blockPos (mData B)" using r by (intro nat_u32) simp
      then show ?thesis using True w * by (auto simp: in_window_def)
    next
      case False
      show ?thesis
      proof (cases "req = u32 (startPos (mData B) + blockPos (mData B))")
        case True
        have "startPos (mData B) < 2 ^ 31" "blockPos (mData B) < 2 ^ 32" using * r bp by auto
        have "startPos (mData B) + blockPos (mData B) \<ge> 2 ^ 32" using True False nat_u32(2) [of "startPos (mData B) + blockPos (mData B)"] by (metis not_le)
        then have "u32 (startPos (mData B) + blockPos (mData B)) = startPos (mData B) + blockPos (mData B) - 2 ^ 32"
          using \<open>startPos (mData B) < 2 ^ 31\<close> bp by (simp add: u32_def mod_if)
        then have "req < startPos (mData B)"
          using True bp \<open>startPos (mData B) + blockPos (mData B) \<ge> 2 ^ 32\<close> by linarith
        then show ?thesis using * by simp
      next
        case False
        have "nat ((int req - int (startPos (mData B))) mod 2 ^ 32) = req - startPos (mData B)"
          using * r nat_u32 [of "req - startPos (mData B)"] by (simp add: of_nat_diff)
        moreover have "u32 (req - startPos (mData B)) = req - startPos (mData B)" using r by (intro nat_u32) simp
        ultimately have "in_window (length names) decl rows (int req) (SetBlockPos (req - startPos (mData B)) B)" "?B = SetBlockPos (req - startPos (mData B)) B"
          using w * False by (auto simp: in_window_def nat_diff_distrib' intro!: window_of_positions)
        then show ?thesis by simp
      qed
    qed
    from sh_inv_moved [OF G(1) this t(2,3), of "lastErrMsg ?s"]
    have "sh_inv ready names decl rows (?s\<lparr>sh_block := Some ?B, rowPos := int req\<rparr>)" using t(1) r(1) by (simp add: sh_inv_def)
    moreover have "UpdateBlockPos E (int req) s = Some (E_OK, ?s\<lparr>sh_block := Some ?B\<rparr>)"
      using * G(3) u by (simp add: UpdateBlockPos_def on_block_def Let_def)
    ultimately show ?thesis by auto
  next
    assume "\<exists>B' t' cap m. OnGo E (rowPos s) (int req) ?s = Some (E_OK, ?s\<lparr>sh_block := Some B', sh_stmt := Some t', sh_capacity := cap, lastErrMsg := m\<rparr>)
        \<and> ready t' \<and> cap \<le> 16384 \<and> in_window (length names) decl rows (int req) B'"
    then obtain B' t' cap m where F: "OnGo E (rowPos s) (int req) ?s = Some (E_OK, ?s\<lparr>sh_block := Some B', sh_stmt := Some t', sh_capacity := cap, lastErrMsg := m\<rparr>)"
        "ready t'" "cap \<le> 16384" "in_window (length names) decl rows (int req) B'" by blast
    have "startPos (mData B') + blockPos (mData B') = req" using F(4) r(1) by (simp add: in_window_def)
    moreover from this have "u32 (startPos (mData B') + blockPos (mData B')) = req" using r by (simp add: nat_u32)
    ultimately have "UpdateBlockPos E (int req) s = Some (E_OK, ?s\<lparr>sh_block := Some B', sh_stmt := Some t', sh_capacity := cap, lastErrMsg := m\<rparr>)"
      using F(1) u by (simp add: UpdateBlockPos_def on_block_def Let_def)
    then show ?thesis using sh_inv_moved [OF G(1) F(4,2,3), of m] r(1) by simp
  qed
qed

lemma Shared_GoToRow_row:
  assumes S: "fills (e_ops E) ready names decl rows" and inv: "sh_inv ready names decl rows s" and "e_ashmem E = Some mem"
    and "length names \<le> COL_MAX_NUM" "length rows < 2 ^ 31" "0 \<le> p" "p < int (length rows)"
  shows "\<exists>s'. Shared_GoToRow E p s = Some (E_OK, s') \<and> sh_inv ready names decl rows s' \<and> rowPos s' = p"
proof -
  have s: "\<not> isClosed s" "AbsResultSet_GetRowCount 0 s = (E_OK, int (length rows))"
    using inv by (auto simp: sh_inv_def AbsResultSet_GetRowCount_def)
  obtain s' where "UpdateBlockPos E p s = Some (E_OK, s')" "sh_inv ready names decl rows (s'\<lparr>rowPos := p\<rparr>)"
    using UpdateBlockPos_ok [OF assms(1-4), of "nat p"] assms(5-7) by (auto simp: nat_less_iff)
  then show ?thesis using s inv assms(6,7) by (auto simp: Shared_GoToRow_def)
qed

lemma Shared_GoToRow_outside:
  assumes inv: "sh_inv ready names decl rows s" and "p < 0 \<or> int (length rows) \<le> p"
  shows "\<exists>s'. Shared_GoToRow E p s = Some (E_ROW_OUT_RANGE, s') \<and> sh_inv ready names decl rows s'"
proof -
  have s: "\<not> isClosed s" "AbsResultSet_GetRowCount 0 s = (E_OK, int (length rows))"
    using inv by (auto simp: sh_inv_def AbsResultSet_GetRowCount_def)
  let ?p = "if p \<ge> int (length rows) \<and> int (length rows) \<noteq> 0 then int (length rows) else rowPos s"
  have "sh_inv ready names decl rows (s\<lparr>rowPos := ?p, lastErrMsg := m\<rparr>)" for m
    using inv by (auto simp: sh_inv_def in_window_def split: option.splits)
  then show ?thesis using s assms(2) by (auto simp: Shared_GoToRow_def Let_def SetLastErrorMsg_def)
qed

section \<open>What is read\<close>

text \<open>The value of a cell, \<open>old\<close> being what the caller had. Text ends at its first NUL.\<close>

definition kind_value :: "'j json_ops \<Rightarrow> 64 word \<Rightarrow> nat \<Rightarrow> byte list \<Rightarrow> value_object" where
  "kind_value J now k b =
     (if k = CELL_UNIT_TYPE_ASSET then VAsset (snd (ParserRawData_asset J now b default_asset))
      else if k = CELL_UNIT_TYPE_ASSETS then VAssets (snd (ParserRawData_assets J now b []))
      else if k = CELL_UNIT_TYPE_FLOATS then VVecs (snd (ParserRawData_floats b []))
      else if k = CELL_UNIT_TYPE_BIGINT then VBigInt (snd (ParserRawData_bigint b default_big))
      else VBlob b)"

fun block_value :: "'j json_ops \<Rightarrow> 64 word \<Rightarrow> string option \<Rightarrow> value_object \<Rightarrow> sql_value \<Rightarrow> value_object" where
  "block_value J now decl old S_Null = old"
| "block_value J now decl old (S_Integer w) = VInt (sint w)"
| "block_value J now decl old (S_Float d) = VDouble d"
| "block_value J now decl old (S_Text t) = VString (of_bytes (takeWhile (\<lambda>b. b \<noteq> 0) (to_bytes t)))"
| "block_value J now decl old (S_Blob b) = kind_value J now (block_kind decl) b"

lemma Shared_names_loop_ok:
  assumes "fills S ready names decl rows" "ready t" "i + m = length names"
  shows "Shared_names_loop (statement_ops.truncate S) t m (int i) ns = (E_OK, ns @ drop i names)"
  using assms(3)
proof (induction m arbitrary: i ns)
  case (Suc m)
  then have "st_GetColumnName (statement_ops.truncate S) (int i) t = (E_OK, names ! i)"
    using fills_names(2) [OF assms(1,2), of i] by (simp add: statement_ops.truncate_def)
  then show ?case using Suc.IH [of "Suc i" "ns @ [names ! i]"] Suc.prems
    by (simp add: add.commute Cons_nth_drop_Suc flip: of_nat_Suc)
qed simp

lemma shared_columns:
  assumes "fills (e_ops E) ready names decl rows" "sh_inv ready names decl rows s"
  shows "\<exists>s1. (\<forall>c. GetColumnCount (names_vtable E) c s = ((E_OK, int (length names)), s1)) \<and> need_columns (shared_vtable E) s = (E_OK, s1)
    \<and> sh_inv ready names decl rows s1 \<and> rowPos s1 = rowPos s \<and> sh_block s1 = sh_block s
    \<and> columnCount s1 = int (length names) \<and> length (wholeColumnNames s1) = length names"
proof (cases "columnCount s = -1")
  case True
  obtain t where t: "sh_stmt s = Some t" "ready t" "\<not> isClosed s" "sh_conn s" using assms(2) by (auto simp: sh_inv_def)
  have "Shared_GetColumnNames E s = ((E_OK, names), s)"
    using t fills_names(1) [OF assms(1) t(2)] Shared_names_loop_ok [OF assms(1) t(2), of 0 "length names" "[]"]
    by (simp add: Shared_GetColumnNames_def Shared_PrepareStep_def)
  moreover have "sh_inv ready names decl rows (s\<lparr>wholeColumnNames := names, columnMap := m, columnCount := int (length names)\<rparr>)" for m
    using assms(2) by (auto simp: sh_inv_def split: option.splits)
  ultimately show ?thesis using True t
    by (simp add: GetColumnCount_def need_columns_def InitColumnNames_def names_vtable_def shared_vtable_def)
next
  case False
  then have "columnCount s = int (length names)" "length (wholeColumnNames s) = length names" using assms(2) by (auto simp: sh_inv_def)
  then show ?thesis using assms(2) by (simp add: GetColumnCount_def need_columns_def)
qed

lemma CheckState_inside:
  assumes "fills (e_ops E) ready names decl rows" "sh_inv ready names decl rows s"
    and "0 \<le> rowPos s" "rowPos s < int (length rows)" "i < length names"
  shows "GetBlock E s = s \<and> (\<exists>s1. CheckState E (int i) s = (E_OK, s1) \<and> sh_inv ready names decl rows s1 \<and> rowPos s1 = rowPos s
    \<and> sh_block s1 = sh_block s \<and> (columnCount s = int (length names) \<longrightarrow> columnCount s1 = columnCount s))"
proof -
  obtain s1 where s1: "\<And>c. GetColumnCount (names_vtable E) c s = ((E_OK, int (length names)), s1)"
      "sh_inv ready names decl rows s1" "rowPos s1 = rowPos s" "sh_block s1 = sh_block s" "columnCount s1 = int (length names)"
    using shared_columns [OF assms(1,2)] by blast
  have "sh_block s \<noteq> None" "AbsResultSet_GetRowCount 0 s = (E_OK, int (length rows))" "\<not> isClosed s"
    using assms(2-4) by (auto simp: sh_inv_def AbsResultSet_GetRowCount_def split: option.splits)
  then show ?thesis using assms(3-5) s1 by (auto simp: CheckState_def GetBlock_def)
qed

lemma cell_read:
  assumes "in_window (length names) decl rows p B" "0 \<le> p" "p < int (length rows)" "i < length names" "length names \<le> COL_MAX_NUM"
  shows "\<exists>G r a. stands_for B G \<and> r < g_rows G \<and> i < g_cols G \<and> a = cell_addr r i (mData B) \<and> cell_at (int i) B = Some a
    \<and> g_cell G r i = Some (cell_of (decl i) (rows ! nat p ! i))"
proof -
  obtain G where G: "stands_for B G" "g_rows G = rowNums (mData B)" "g_rows G = 0 \<or> g_cols G = length names"
      "\<forall>r < g_rows G. \<forall>c < length names. g_cell G r c = Some (cell_of (decl c) (rows ! (startPos (mData B) + r) ! c))"
    using assms(1) unfolding in_window_def window_of_def by blast
  let ?r = "blockPos (mData B)"
  have r: "?r < g_rows G" "startPos (mData B) + ?r = nat p" "nat (int i mod 2 ^ 32) = i" using assms nat_u32(1) [of i] G(2) by (auto simp: in_window_def)
  then have "g_cols G = length names" using G(3) by auto
  moreover have "g_cell G ?r i = Some (cell_of (decl i) (rows ! nat p ! i))" using G(4) r assms(4) by metis
  moreover have "cell_at (int i) B = Some (cell_addr ?r i (mData B))"
    using stands_for_reads(1) [OF G(1) r(1)] calculation assms(4) r(3) by (simp add: cell_at_def)
  ultimately show ?thesis using G(1) r(1) assms(4) by (intro exI [of _ G] exI [of _ ?r] exI [of _ "cell_addr ?r i (mData B)"]) simp
qed

lemma Shared_Get_inside:
  assumes S: "fills (e_ops E) ready names decl rows" and inv: "sh_inv ready names decl rows s"
    and n: "length names \<le> COL_MAX_NUM" and p: "0 \<le> rowPos s" "rowPos s < int (length rows)" "i < length names"
    and v: "v = rows ! nat (rowPos s) ! i" "v \<noteq> S_Blob []"
  shows "\<exists>s1. Shared_Get E (int i) old s = Some ((E_OK, block_value (e_json E) (e_now E) (decl i) old v), s1)
    \<and> sh_inv ready names decl rows s1 \<and> rowPos s1 = rowPos s"
proof -
  obtain s1 where s1: "GetBlock E s = s" "CheckState E (int i) s = (E_OK, s1)" "sh_inv ready names decl rows s1" "rowPos s1 = rowPos s"
      "sh_block s1 = sh_block s"
    using CheckState_inside [OF S inv p] by blast
  obtain B where B: "sh_block s = Some B" "in_window (length names) decl rows (rowPos s) B" using inv p by (auto simp: sh_inv_def split: option.splits)
  obtain G r a where c: "stands_for B G" "r < g_rows G" "i < g_cols G" "a = cell_addr r i (mData B)" "cell_at (int i) B = Some a"
      "g_cell G r i = Some (cell_of (decl i) v)"
    using cell_read [OF B(2) p n] v(1) by blast
  note cell = stands_for_cell [OF c(1-4)]
  have "Shared_Get E (int i) old s = Some ((E_OK, block_value (e_json E) (e_now E) (decl i) old v), s1)"
  proof (cases v)
    case (S_Blob b)
    note k = block_kind_range [of "decl i"]
    have "block_kind (decl i) \<noteq> 3" by (auto simp: block_kind_def Let_def split: option.split)
    moreover have "cell_type a (mData B) = block_kind (decl i)" using cell(1) c(6) S_Blob by simp
    moreover have "block_kind (decl i) = 4 \<Longrightarrow> CellUnit_GetBlob a B = Some b" using cell(4) c(6) S_Blob by simp
    moreover have "CellUnit_GetRawData a B = Some (cell_offset a (mData B)) \<and> bytes_at (cell_offset a (mData B)) (cell_size a (mData B)) (mData B) = b"
      using cell(2) c(6) S_Blob v(2) k by (simp add: scalar_type_def)
    ultimately show ?thesis using s1 B(1) c(5) S_Blob k
      by (auto simp: Shared_Get_def GetCustomerValue_def kind_value_def Let_def)
  qed (use cell c(5,6) s1 B(1) in \<open>auto simp: Shared_Get_def Let_def scalar_type_def\<close>)
  then show ?thesis using s1 by blast
qed

text \<open>A row as the cursor gives it, and the rows that can be read through a block.\<close>

definition block_row :: "'j json_ops \<Rightarrow> 64 word \<Rightarrow> (nat \<Rightarrow> string option) \<Rightarrow> sql_value list \<Rightarrow> value_object list" where
  "block_row J now decl row = map (\<lambda>i. block_value J now (decl i) VNull (row ! i)) [0..<length row]"

definition rows_fit :: "nat \<Rightarrow> sql_value list list \<Rightarrow> bool" where
  "rows_fit n rows \<longleftrightarrow> list_all (\<lambda>row. length row = n \<and> row_fits DEFAULT_BLOCK_SIZE row) rows"

definition shared_row :: "('s, 'j) shared_env \<Rightarrow> 's shared_result_set \<Rightarrow> value_object list option" where
  "shared_row E s =
     (case GetRowData (shared_vtable E) s of
        Some ((e, row), s1) \<Rightarrow> if e = E_OK then Some row else None
      | None \<Rightarrow> None)"

lemma block_row_nth: "length (block_row J now decl row) = length row"
  "i < length row \<Longrightarrow> block_row J now decl row ! i = block_value J now (decl i) VNull (row ! i)"
  by (simp_all add: block_row_def)

lemma rows_fitD:
  assumes "rows_fit n rows" "r < length rows"
  shows "length (rows ! r) = n" "i < n \<Longrightarrow> rows ! r ! i \<noteq> S_Blob []"
proof -
  show l: "length (rows ! r) = n" using assms by (simp add: rows_fit_def list_all_length)
  show "rows ! r ! i \<noteq> S_Blob []" if "i < n"
    using assms nth_mem [of i "rows ! r"] l that by (auto simp: rows_fit_def list_all_length row_fits_def simp del: nth_mem)
qed

lemma Shared_GetRowData_loop_ok:
  assumes S: "fills (e_ops E) ready names decl rows" and n: "length names \<le> COL_MAX_NUM" and f: "rows_fit (length names) rows"
    and "sh_inv ready names decl rows s" "0 \<le> rowPos s" "rowPos s < int (length rows)" "i + m = length names"
  shows "\<exists>s1. GetRowData_loop (shared_vtable E) m (int i) acc s
    = Some ((E_OK, acc @ drop i (block_row (e_json E) (e_now E) decl (rows ! nat (rowPos s)))), s1)"
  using assms(4-)
proof (induction m arbitrary: i acc s)
  case 0
  then show ?case using rows_fitD(1) [OF f, of "nat (rowPos s)"] by (simp add: block_row_nth nat_less_iff)
next
  case (Suc m)
  let ?row = "rows ! nat (rowPos s)" and ?b = "block_row (e_json E) (e_now E) decl (rows ! nat (rowPos s))"
  have r: "length ?row = length names" "?row ! i \<noteq> S_Blob []"
    using rows_fitD(1) [OF f, of "nat (rowPos s)"] rows_fitD(2) [OF f, of "nat (rowPos s)" i] Suc.prems by (simp_all add: nat_less_iff)
  obtain s1 where s1: "Shared_Get E (int i) VNull s = Some ((E_OK, ?b ! i), s1)" "sh_inv ready names decl rows s1" "rowPos s1 = rowPos s"
    using Shared_Get_inside [OF S Suc.prems(1) n Suc.prems(2,3) _ refl r(2), of VNull] Suc.prems(4) r(1) by (auto simp: block_row_nth)
  have "drop i ?b = ?b ! i # drop (Suc i) ?b" 
    using Suc.prems(4) r(1) by (intro Cons_nth_drop_Suc [symmetric]) (simp add: block_row_nth)
  then show ?case using Suc.IH [of s1 "Suc i" "acc @ [?b ! i]"] Suc.prems s1 by (simp add: shared_vtable_def add.commute)
qed

lemma Shared_GetRowData_ok:
  assumes S: "fills (e_ops E) ready names decl rows" and n: "length names \<le> COL_MAX_NUM" and f: "rows_fit (length names) rows"
    and inv: "sh_inv ready names decl rows s" and p: "0 \<le> rowPos s" "rowPos s < int (length rows)"
  shows "shared_row E s = Some (block_row (e_json E) (e_now E) decl (rows ! nat (rowPos s)))"
proof -
  obtain s1 where s1: "need_columns (shared_vtable E) s = (E_OK, s1)" "sh_inv ready names decl rows s1" "rowPos s1 = rowPos s"
      "columnCount s1 = int (length names)" "length (wholeColumnNames s1) = length names"
    using shared_columns [OF S inv] by blast
  have "lastErr s = E_OK" using inv by (simp add: sh_inv_def)
  with s1 Shared_GetRowData_loop_ok [OF S n f s1(2), of 0 "length names" "[]"] p show ?thesis
    by (auto simp: shared_row_def GetRowData_def)
qed

text \<open>The result set is a cursor over the rows as the block gives them.\<close>

lemma shared_result_set_cursor:
  assumes S: "fills (e_ops E) ready names decl rows" and n: "length names \<le> COL_MAX_NUM" and f: "rows_fit (length names) rows"
    and "e_ashmem E = Some mem" "length rows < 2 ^ 31"
  shows "cursor (sh_inv ready names decl rows) (\<lambda>_. map (block_row (e_json E) (e_now E) decl) rows) rowPos
    (\<lambda>p s. the (Shared_GoToRow E p s)) (\<lambda>s. the (Shared_GoToRow E (rowPos s + 1) s)) (shared_row E)"
proof
  fix s p
  assume inv: "sh_inv ready names decl rows s"
  note row = Shared_GoToRow_row [OF S inv assms(4) n assms(5)] and out = Shared_GoToRow_outside [OF inv, of _ E]
  have keep: "sh_inv ready names decl rows (snd (the (Shared_GoToRow E q s)))" for q
    using row [of q] out [of q] by (cases "0 \<le> q \<and> q < int (length rows)") auto
  let ?rows = "map (block_row (e_json E) (e_now E) decl) rows"
  show "sh_inv ready names decl rows (snd (the (Shared_GoToRow E p s))) \<and> ?rows = ?rows"
    "sh_inv ready names decl rows (snd (the (Shared_GoToRow E (rowPos s + 1) s))) \<and> ?rows = ?rows" using keep by simp_all
  show "fst (the (Shared_GoToRow E p s)) = E_OK \<and> rowPos (snd (the (Shared_GoToRow E p s))) = p"
    if "0 \<le> p" "p < int (length ?rows)" using row [of p] that by auto
  show "fst (the (Shared_GoToRow E (rowPos s + 1) s)) = E_OK \<and> rowPos (snd (the (Shared_GoToRow E (rowPos s + 1) s))) = rowPos s + 1"
    if "-1 \<le> rowPos s" "rowPos s + 1 < int (length ?rows)" using row [of "rowPos s + 1"] that by auto
  show "fst (the (Shared_GoToRow E (rowPos s + 1) s)) = E_ROW_OUT_RANGE" if "rowPos s + 1 = int (length ?rows)"
    using out [of "rowPos s + 1"] that by auto
  show "shared_row E s = Some (?rows ! nat (rowPos s))" if "0 \<le> rowPos s" "rowPos s < int (length ?rows)"
    using Shared_GetRowData_ok [OF S n f inv] that by (simp add: nat_less_iff)
qed

text \<open>A sequence of moves of a client, \<open>Some p\<close> for \<open>GoToRow\<close> and \<open>None\<close> for \<open>GoToNextRow\<close>.\<close>

definition shared_move :: "('s, 'j) shared_env \<Rightarrow> int option \<Rightarrow> 's shared_result_set \<Rightarrow> (int \<times> 's shared_result_set) option" where
  "shared_move E m s = (case m of Some p \<Rightarrow> Shared_GoToRow E p s | None \<Rightarrow> AbsResultSet_GoToNextRow (shared_vtable E) s)"

fun shared_moves :: "('s, 'j) shared_env \<Rightarrow> int option list \<Rightarrow> 's shared_result_set \<Rightarrow> 's shared_result_set option" where
  "shared_moves E [] s = Some s"
| "shared_moves E (m # ms) s = do { (_, s1) \<leftarrow> shared_move E m s; shared_moves E ms s1 }"

lemma shared_moves_return:
  assumes S: "fills (e_ops E) ready names decl rows" and n: "length names \<le> COL_MAX_NUM"
    and "e_ashmem E = Some mem" "length rows < 2 ^ 31" "sh_inv ready names decl rows s"
  shows "shared_moves E ms s = Some (fold (\<lambda>m. case m of Some q \<Rightarrow> snd \<circ> (\<lambda>s. the (Shared_GoToRow E q s))
      | None \<Rightarrow> snd \<circ> (\<lambda>s. the (Shared_GoToRow E (rowPos s + 1) s))) ms s)"
  using assms(5)
proof (induction ms arbitrary: s)
  case (Cons m ms)
  let ?p = "case m of Some p \<Rightarrow> p | None \<Rightarrow> rowPos s + 1"
  obtain e s1 where "Shared_GoToRow E ?p s = Some (e, s1)" "sh_inv ready names decl rows s1"
    using Shared_GoToRow_row [OF S Cons.prems assms(3) n assms(4), of ?p] Shared_GoToRow_outside [OF Cons.prems, of ?p E]
    by (cases "0 \<le> ?p \<and> ?p < int (length rows)") auto
  then show ?case using Cons.IH [of s1]
    by (cases m) (simp_all add: shared_move_def AbsResultSet_GoToNextRow_def shared_vtable_def names_vtable_def)
qed simp

section \<open>A block filled by sqlite\<close>

definition sqlite_block_ops ::
    "('d, 't, 'c, 'j) stmt_lib \<Rightarrow> (shared_block, 't) fill_opt \<Rightarrow> ('t, 'c) sqlite_statement block_statement_ops" where
  "sqlite_block_ops L fillOpt =
     statement_ops.extend (sqlite_statement_ops L fillOpt)
       \<lparr>st_FillBlockInfo = (\<lambda>info. FillBlockInfo L shared_block_ops fillOpt info RETRY_TIME)\<rparr>"

definition sqlite_env ::
    "('d, 't, 'c, 'j) stmt_lib \<Rightarrow> (shared_block, 't) fill_opt \<Rightarrow> file_system \<Rightarrow> 'c option \<Rightarrow> ('d, 'c) sqlite_connection \<Rightarrow> string \<Rightarrow>
     memory option \<Rightarrow> (('t, 'c) sqlite_statement, 'j) shared_env" where
  "sqlite_env L fillOpt files owner cn msg ashmem =
     \<lparr>e_ops = sqlite_block_ops L fillOpt, e_create = (\<lambda>sql. CreateStatement L files sql owner [] cn), e_connMsg = msg,
      e_ashmem = ashmem, e_json = l_json L, e_now = l_now L\<rparr>"

lemma sqlite_env_simps [simp]:
  "e_ops (sqlite_env L f files owner cn msg ashmem) = sqlite_block_ops L f" "e_ashmem (sqlite_env L f files owner cn msg ashmem) = ashmem"
  "e_create (sqlite_env L f files owner cn msg ashmem) = (\<lambda>sql. CreateStatement L files sql owner [] cn)"
  "e_json (sqlite_env L f files owner cn msg ashmem) = l_json L" "e_now (sqlite_env L f files owner cn msg ashmem) = l_now L"
  by (simp_all add: sqlite_env_def)

lemma sqlite_block_ops_simps [simp]:
  "st_Count (sqlite_block_ops L f) = Stmt_Count L f" "st_Bind (sqlite_block_ops L f) = Stmt_Bind L"
  "st_ReadOnly (sqlite_block_ops L f) = ss_readOnly" "st_GetColumnCount (sqlite_block_ops L f) = ss_columnCount"
  "st_GetColumnName (sqlite_block_ops L f) = Stmt_GetColumnName L"
  "st_FillBlockInfo (sqlite_block_ops L f) = (\<lambda>info. FillBlockInfo L shared_block_ops f info RETRY_TIME)"
  by (simp_all add: sqlite_block_ops_def sqlite_statement_ops_def statement_ops.extend_def)

lemma FillBlockInfo_fills:
  assumes Q: "sqlite_query (l_sqlite L) ok at names rows" and D: "declares (l_sqlite L) ok (length names) decl"
    and "small_rows rows" "rows_fit (length names) rows" "length names \<le> COL_MAX_NUM"
    and x: "\<forall>t. ok t \<longrightarrow> \<not> sqlite3_use_sharedblock (l_sqlite L) (sqlite3_db_handle (l_sqlite L) t)"
    and t: "prepared L ok (length names) decl t" "at (ss_stmt t) = 0" and blk: "cleared DEFAULT_BLOCK_SIZE (length names) blk"
    and r: "k \<le> req" "req < length rows"
  shows "\<exists>info t' B st. FillBlockInfo L shared_block_ops f
        ((SharedBlockInfo_new (Some blk))\<lparr>bi_requiredPos := int req, bi_columnNum := int (length names),
           bi_isCountAllRows := False, bi_startPos := int k\<rparr>) RETRY_TIME t = Some (E_OK, info, t')
      \<and> (prepared L ok (length names) decl t' \<and> at (ss_stmt t') = 0) \<and> bi_sharedBlock info = Some B \<and> bi_startPos info = int st
      \<and> window_of (length names) decl rows st B \<and> st \<le> req \<and> req < st + rowNums (mData B)"
proof -
  let ?i = "(SharedBlockInfo_new (Some blk))\<lparr>bi_requiredPos := int req, bi_columnNum := int (length names),
           bi_isCountAllRows := False, bi_startPos := int k\<rparr>"
  have ok: "ok (ss_stmt t)" using t(1) by (simp add: prepared_def)
  have fit: "row_fits DEFAULT_BLOCK_SIZE (rows ! q)" if "k \<le> q" "q \<le> req" for q
    using assms(4) r that by (auto simp: rows_fit_def list_all_length)
  have i: "bi_sharedBlock ?i = Some blk" "bi_startPos ?i = int k" "bi_columnNum ?i = int (length names)" "\<not> bi_isFull ?i"
      "\<not> bi_hasException ?i" "bi_requiredPos ?i = int req" by (simp_all add: SharedBlockInfo_new_def)
  obtain info u B G st a where F: "FillSharedBlock (l_sqlite L) shared_block_ops RETRY_TIME ?i (ss_stmt t) = Some (E_OK, info, u)" "ok u"
      "bi_sharedBlock info = Some B" "mSize B = DEFAULT_BLOCK_SIZE" "bi_startPos info = int st" "bi_addedRows info = int a"
      "stands_for B G" "g_rows G = a" "g_cols G = length names" "rowNums (mData B) = a"
      "\<forall>r < a. \<forall>c < length names. st + r < length rows \<and> g_cell G r c = Some (cell_of (decl c) (rows ! (st + r) ! c))"
      "st \<le> req" "req < st + a" "st + a \<le> length rows"
    using fill_window [OF Q D assms(3) refl assms(5) blk ok t(2) i r, of RETRY_TIME] fit by blast
  obtain e w where w: "sqlite3_reset (l_sqlite L) u = (e, w)" by fastforce
  have w': "ok w" "at w = 0" using sqlite_queryD(3,4) [OF Q F(2)] w by simp_all
  have "prepared L ok (length names) decl (t\<lparr>ss_stmt := w\<rparr>)"
    using prepared_stmt [OF t(1) w'(1)] sqlite_queryD(8) [OF Q w'(1)] by blast
  moreover have "window_of (length names) decl rows st B"
    unfolding window_of_def using F(4,7-11,14) by (intro conjI exI [of _ G]) auto
  moreover have "FillBlockInfo L shared_block_ops f ?i RETRY_TIME t = Some (E_OK, info, t\<lparr>ss_stmt := w\<rparr>)"
    using F(1,6,12,13) x ok w by (simp add: FillBlockInfo_def SupportBlockInfo_def ResetStatement_def)
  ultimately show ?thesis using F(3,5,10,12,13) w'(2) by auto
qed

lemma sqlite_block_ops_fills:
  assumes "sqlite_query (l_sqlite L) ok at names rows" "declares (l_sqlite L) ok (length names) decl"
    and "small_rows rows" "rows_fit (length names) rows" "length names \<le> COL_MAX_NUM"
    and "\<forall>t. ok t \<longrightarrow> \<not> sqlite3_use_sharedblock (l_sqlite L) (sqlite3_db_handle (l_sqlite L) t)"
  shows "fills (sqlite_block_ops L f) (\<lambda>t. prepared L ok (length names) decl t \<and> at (ss_stmt t) = 0) names decl rows"
proof -
  have "Stmt_GetColumnName L (int i) t = (E_OK, names ! i)" if "prepared L ok (length names) decl t" "i < length names" for t i
    using that sqlite_queryD(7) [OF assms(1), of "ss_stmt t" i] by (simp add: Stmt_GetColumnName_def IsValid_def prepared_def)
  then show ?thesis unfolding fills_def sqlite_block_ops_simps
    using FillBlockInfo_fills [OF assms] prepared_columns by blast
qed

text \<open>Text without a NUL and a declared blob are read from the block as from the statement.\<close>

definition no_nul :: "sql_value \<Rightarrow> bool" where
  "no_nul v \<longleftrightarrow> (case v of S_Text s \<Rightarrow> char_of (0 :: nat) \<notin> set s | _ \<Rightarrow> True)"

lemma byte_nul: "(of_char c :: byte) = 0 \<longleftrightarrow> c = char_of (0 :: nat)"
proof
  show "c = char_of (0 :: nat)" if "(of_char c :: byte) = 0" using of_to_bytes [of "[c]"] that by (simp add: to_bytes_def of_bytes_def)
  show "(of_char c :: byte) = 0" if "c = char_of (0 :: nat)" using that by (simp add: char_of_def of_char_Char)
qed

lemma takeWhile_text: "of_bytes (takeWhile (\<lambda>b. b \<noteq> 0) (to_bytes s)) = takeWhile (\<lambda>c. c \<noteq> char_of (0 :: nat)) s"
proof -
  have "takeWhile (\<lambda>b. b \<noteq> 0) (to_bytes s) = to_bytes (takeWhile (\<lambda>c. c \<noteq> char_of (0 :: nat)) s)"
    by (simp add: to_bytes_def takeWhile_map comp_def byte_nul)
  then show ?thesis by simp
qed

lemma takeWhile_no_nul: "char_of (0 :: nat) \<notin> set s \<Longrightarrow> takeWhile (\<lambda>c. c \<noteq> char_of (0 :: nat)) s = s"
  by (auto simp: takeWhile_eq_all_conv)

lemma block_value_column:
  assumes "no_nul v" "v \<noteq> S_Blob []" "fst (column_value L decl v) = E_OK"
  shows "block_value (l_json L) (l_now L) decl VNull v = snd (column_value L decl v)"
proof (cases v)
  case (S_Blob b)
  then obtain d where "decl = Some d" using assms(3) by (cases decl) (auto simp: errno)
  then show ?thesis using S_Blob assms(2)
    by (auto simp: kind_value_def block_kind_def parse_blob_def decl_column_type_def Let_def column_type_defs)
qed (use assms(1) in \<open>auto simp: no_nul_def takeWhile_text takeWhile_no_nul simp del: of_to_bytes\<close>)

lemma block_row_values:
  assumes "readable L decl rows" "rows_fit n rows" "list_all (list_all no_nul) rows" "r < length rows"
  shows "block_row (l_json L) (l_now L) decl (rows ! r) = row_values L decl (rows ! r)"
proof -
  have "block_value (l_json L) (l_now L) (decl i) VNull (rows ! r ! i) = snd (column_value L (decl i) (rows ! r ! i))" if "i < length (rows ! r)" for i
    using assms that rows_fitD [OF assms(2,4)] by (intro block_value_column) (auto simp: readable_def list_all_length)
  then show ?thesis by (simp add: block_row_def row_values_def)
qed

lemma new_shared_result_set:
  assumes "sqlite_query (l_sqlite L) ok at names rows"
    and "answers L (cn_dbHandle cn) sql n args ok at (length names)" "length args \<le> n" "n < 2 ^ 31"
    and "GetSqlStatementType sql \<noteq> STATEMENT_ERROR" "\<forall>t. ok t \<longrightarrow> \<not> sqlite3_use_sharedblock (l_sqlite L) (sqlite3_db_handle (l_sqlite L) t)"
  shows "\<exists>s. SqliteSharedResultSet_new (sqlite_env L f files owner cn msg ashmem) True sql args path = Some s
    \<and> sh_inv (\<lambda>t. prepared L ok (length names) decl t \<and> at (ss_stmt t) = 0) names decl rows s"
proof -
  have "sql \<noteq> []" using assms(5) by (auto simp: GetSqlStatementType_def)
  then obtain s0 s1 w where C: "CreateStatement L files sql owner [] cn = (E_OK, Some s0)" "ss_readOnly s0" "Stmt_Bind L args s0 = (E_OK, s1)"
      "Stmt_Count L f s1 = Some ((E_OK, int (length rows)), s1\<lparr>ss_stmt := w\<rparr>)" "prepared L ok (length names) decl (s1\<lparr>ss_stmt := w\<rparr>)" "at w = 0"
    using query_statement [OF assms(1-4) _ assms(6)] by blast
  then show ?thesis using assms(5)
    by (auto simp: SqliteSharedResultSet_new_def Shared_PrepareStep_def sh_inv_def)
qed

text \<open>What the queries below ask: rows that sqlite has, that can be read and that fit into a block.\<close>

definition block_query ::
    "('d, 't, 'c, 'j) stmt_lib \<Rightarrow> ('d, 'c) sqlite_connection \<Rightarrow> string \<Rightarrow> value_object list \<Rightarrow> ('t \<Rightarrow> bool) \<Rightarrow> ('t \<Rightarrow> nat) \<Rightarrow>
     string list \<Rightarrow> (nat \<Rightarrow> string option) \<Rightarrow> sql_value list list \<Rightarrow> bool" where
  "block_query L cn sql args ok at names decl rows \<longleftrightarrow>
     sqlite_query (l_sqlite L) ok at names rows \<and> declares (l_sqlite L) ok (length names) decl \<and> readable L decl rows
     \<and> (\<exists>n. answers L (cn_dbHandle cn) sql n args ok at (length names) \<and> length args \<le> n \<and> n < 2 ^ 31)
     \<and> GetSqlStatementType sql \<noteq> STATEMENT_ERROR
     \<and> (\<forall>t. ok t \<longrightarrow> \<not> sqlite3_use_sharedblock (l_sqlite L) (sqlite3_db_handle (l_sqlite L) t))
     \<and> small_rows rows \<and> rows_fit (length names) rows \<and> length names \<le> COL_MAX_NUM \<and> length rows < 2 ^ 31"

lemma block_query_fills:
  assumes "block_query L cn sql args ok at names decl rows" "E = sqlite_env L fillOpt files owner cn msg (Some mem)"
  shows "fills (e_ops E) (\<lambda>t. prepared L ok (length names) decl t \<and> at (ss_stmt t) = 0) names decl rows"
    "length names \<le> COL_MAX_NUM" "rows_fit (length names) rows" "e_ashmem E = Some mem" "length rows < 2 ^ 31"
    "readable L decl rows"
  using assms sqlite_block_ops_fills [of L ok at names rows decl fillOpt] by (auto simp: block_query_def)

lemma block_query_new:
  assumes "block_query L cn sql args ok at names decl rows" "E = sqlite_env L fillOpt files owner cn msg (Some mem)"
  shows "\<exists>s. SqliteSharedResultSet_new E True sql args path = Some s
    \<and> sh_inv (\<lambda>t. prepared L ok (length names) decl t \<and> at (ss_stmt t) = 0) names decl rows s"
  using assms(1) new_shared_result_set [of L ok at names rows cn sql _ args fillOpt files owner msg "Some mem" path decl]
  by (auto simp: block_query_def assms(2))

lemma shared_query_at_row:
  assumes Q: "block_query L cn sql args ok at names decl rows" and E: "E = sqlite_env L fillOpt files owner cn msg (Some mem)"
    and p: "0 \<le> p" "p < int (length rows)" and ready: "ready = (\<lambda>t. prepared L ok (length names) decl t \<and> at (ss_stmt t) = 0)"
  shows "\<exists>s s' t. SqliteSharedResultSet_new E True sql args path = Some s \<and> shared_moves E ms s = Some s'
    \<and> Shared_GoToRow E p s' = Some (E_OK, t) \<and> sh_inv ready names decl rows t \<and> rowPos t = p
    \<and> shared_row E t = Some (block_row (l_json L) (l_now L) decl (rows ! nat p))"
proof -
  note F = block_query_fills [OF Q E, folded ready]
  obtain s where s: "SqliteSharedResultSet_new E True sql args path = Some s" "sh_inv ready names decl rows s"
    using block_query_new [OF Q E] unfolding ready by blast
  note C = shared_result_set_cursor [OF F(1-5)]
  define s' where "s' = fold (\<lambda>m. case m of Some q \<Rightarrow> snd \<circ> (\<lambda>s. the (Shared_GoToRow E q s))
      | None \<Rightarrow> snd \<circ> (\<lambda>s. the (Shared_GoToRow E (rowPos s + 1) s))) ms s"
  have s': "shared_moves E ms s = Some s'" "sh_inv ready names decl rows s'"
    using shared_moves_return [OF F(1,2,4,5) s(2)] cursor.moves_valid [OF C s(2)] by (simp_all add: s'_def)
  moreover obtain t where "Shared_GoToRow E p s' = Some (E_OK, t)" "sh_inv ready names decl rows t" "rowPos t = p"
    using Shared_GoToRow_row [OF F(1) s'(2) F(4,2,5) p] by blast
  ultimately show ?thesis using cursor.seek_peek [OF C s(2), of p s' ms] s(1) p E by (auto simp: s'_def nat_less_iff)
qed

section \<open>Properties\<close>

text \<open>
  C37: a query through a connection, read by a shared block, gives what the same query gives row by row:
  the result set is made, its rows counted, and after any sequence of moves, forward or backward, with
  the window filled again as needed, moving to a row succeeds and reads the values that sqlite has
  there. Each row must fit into the block alone, and text must not contain a NUL.
\<close>

theorem shared_query_reads_rows:
  assumes "block_query L cn sql args ok at names decl rows" "list_all (list_all no_nul) rows"
    and "0 \<le> p" "p < int (length rows)" "E = sqlite_env L fillOpt files owner cn msg (Some mem)"
  shows "\<exists>s s' t. SqliteSharedResultSet_new E True sql args path = Some s \<and> shared_moves E ms s = Some s'
    \<and> Shared_GoToRow E p s' = Some (E_OK, t) \<and> shared_row E t = Some (row_values L decl (rows ! nat p))"
proof -
  have "block_row (l_json L) (l_now L) decl (rows ! nat p) = row_values L decl (rows ! nat p)"
    using block_query_fills [OF assms(1,5)] assms(2-4) by (intro block_row_values) (auto simp: nat_less_iff)
  then show ?thesis using shared_query_at_row [OF assms(1,5,3,4) refl, of path ms] by auto
qed

lemma sample_block_query:
  "block_query sample_lib sample_connection ''SELECT id, v FROM t'' [] (list_query_ok (length sample_rows)) rows_read [''id'', ''v''] sample_decl sample_rows"
proof -
  have "declares (l_sqlite sample_lib) (list_query_ok (length sample_rows)) (length [''id'', ''v'']) sample_decl"
    using sample_query_facts(2) by (simp add: sample_lib_def numeral_2_eq_2)
  moreover have "answers sample_lib (cn_dbHandle sample_connection) ''SELECT id, v FROM t'' 0 [] (list_query_ok (length sample_rows)) rows_read (length [''id'', ''v''])"
    using sample_answers by (simp add: sample_connection_def numeral_2_eq_2)
  moreover have "GetSqlStatementType ''SELECT id, v FROM t'' \<noteq> STATEMENT_ERROR" by code_simp
  moreover have "\<forall>t. list_query_ok (length sample_rows) t \<longrightarrow> \<not> sqlite3_use_sharedblock (l_sqlite sample_lib) (sqlite3_db_handle (l_sqlite sample_lib) t)"
    by (simp add: sample_lib_def sample_query_def list_query_def)
  moreover have "readable sample_lib sample_decl sample_rows" by (simp add: readable_def sample_rows_def less_Suc_eq)
  moreover have "rows_fit (length [''id'', ''v'']) sample_rows" by (simp add: rows_fit_def sample_rows_def row_fits_def)
  moreover have "length ([] :: value_object list) \<le> 0" "(0 :: nat) < 2 ^ 31" "length [''id'', ''v''] \<le> COL_MAX_NUM" "length sample_rows < 2 ^ 31"
    by (simp_all add: sample_rows_def)
  ultimately show ?thesis unfolding block_query_def using sample_lib_query(1) sample_query_facts(3) by blast
qed

theorem shared_query_reads_rows_witness:
  "\<exists>E s s' t. E = sqlite_env sample_lib (\<lambda>_ _ _. None) Map.empty (Some True) sample_connection [] (Some (\<lambda>_. 0))
     \<and> SqliteSharedResultSet_new E True ''SELECT id, v FROM t'' [] [] = Some s \<and> shared_moves E [Some 2, None, Some 0, None] s = Some s'
     \<and> Shared_GoToRow E 1 s' = Some (E_OK, t) \<and> shared_row E t = Some [VNull, VBlob [1, 2]]"
proof -
  have "list_all (list_all no_nul) sample_rows" by (simp add: sample_rows_def no_nul_def char_of_def)
  moreover have "row_values sample_lib sample_decl (sample_rows ! nat 1) = [VNull, VBlob [1, 2]]" by code_simp
  ultimately show ?thesis
    using shared_query_reads_rows [OF sample_block_query, of 1 _ "\<lambda>_ _ _. None" Map.empty "Some True" "[]" "\<lambda>_. 0" "[]" "[Some 2, None, Some 0, None]"]
    by (simp add: sample_rows_def)
qed

lemma block_value_old: "v \<noteq> S_Null \<Longrightarrow> block_value J now d old v = block_value J now d VNull v"
  by (cases v) auto

text \<open>
  C38: what \<open>Get\<close> of a shared result set gives for one column: a null leaves the caller's value as it was,
  every other value replaces it, and text ends at its first NUL.
\<close>

theorem shared_get_column:
  assumes "block_query L cn sql args ok at names decl rows" "0 \<le> p" "p < int (length rows)" "i < length names"
    and "E = sqlite_env L fillOpt files owner cn msg (Some mem)" "v = rows ! nat p ! i"
  shows "\<exists>s s' t t1 val. SqliteSharedResultSet_new E True sql args path = Some s \<and> shared_moves E ms s = Some s'
    \<and> Shared_GoToRow E p s' = Some (E_OK, t) \<and> Shared_Get E (int i) old t = Some ((E_OK, val), t1)
    \<and> (v = S_Null \<longrightarrow> val = old) \<and> (\<forall>str. v = S_Text str \<longrightarrow> val = VString (takeWhile (\<lambda>c. c \<noteq> char_of (0 :: nat)) str))
    \<and> (v \<noteq> S_Null \<and> no_nul v \<longrightarrow> val = row_values L decl (rows ! nat p) ! i)"
proof -
  note F = block_query_fills [OF assms(1,5)]
  have r: "nat p < length rows" using assms(2,3) by (simp add: nat_less_iff)
  have v: "v \<noteq> S_Blob []" "length (rows ! nat p) = length names" using rows_fitD [OF F(3) r] assms(4,6) by auto
  obtain s s' t where t: "SqliteSharedResultSet_new E True sql args path = Some s" "shared_moves E ms s = Some s'"
      "Shared_GoToRow E p s' = Some (E_OK, t)" "rowPos t = p"
      "sh_inv (\<lambda>t. prepared L ok (length names) decl t \<and> at (ss_stmt t) = 0) names decl rows t"
    using shared_query_at_row [OF assms(1,5,2,3) refl, of path ms] by blast
  let ?val = "block_value (e_json E) (e_now E) (decl i) old v"
  obtain t1 where "Shared_Get E (int i) old t = Some ((E_OK, ?val), t1)"
    using Shared_Get_inside [OF F(1) t(5) F(2), of i v old] assms t(4) v by auto
  moreover have "?val = row_values L decl (rows ! nat p) ! i" if "v \<noteq> S_Null" "no_nul v"
    using that block_value_old [OF that(1), of "e_json E" "e_now E" "decl i" old] block_value_column [OF that(2) v(1), of L "decl i"] F(6) assms(4-6) v(2) r
    by (auto simp: readable_def list_all_length row_values_def)
  moreover have "?val = VString (takeWhile (\<lambda>c. c \<noteq> char_of (0 :: nat)) str)" if "v = S_Text str" for str
    using that by (simp add: takeWhile_text)
  ultimately show ?thesis using t(1-3) by (intro exI conjI) auto
qed

theorem shared_get_column_witness:
  "\<exists>E s s' t t1. E = sqlite_env sample_lib (\<lambda>_ _ _. None) Map.empty (Some True) sample_connection [] (Some (\<lambda>_. 0))
     \<and> SqliteSharedResultSet_new E True ''SELECT id, v FROM t'' [] [] = Some s \<and> shared_moves E [Some 0] s = Some s'
     \<and> Shared_GoToRow E 1 s' = Some (E_OK, t) \<and> Shared_Get E 0 (VInt 5) t = Some ((E_OK, VInt 5), t1)"
proof -
  have "sample_rows ! nat 1 ! 0 = S_Null" by (simp add: sample_rows_def)
  then show ?thesis
    using shared_get_column [OF sample_block_query, of 1 0 _ "\<lambda>_ _ _. None" Map.empty "Some True" "[]" "\<lambda>_. 0" _ "[]" "[Some 0]" "VInt 5"]
    by (simp add: sample_rows_def)
qed

text \<open>
  A shared result set that was closed holds neither its block nor its statement, and refuses every
  operation.
\<close>

lemma shared_closed_refuses:
  assumes "\<not> isClosed s0" "s = snd (Shared_Close s0)"
  shows "sh_block s = None \<and> sh_stmt s = None \<and> Shared_GoToRow E p s = Some (E_ALREADY_CLOSED, s)
    \<and> Shared_Get E col val s = Some ((E_ALREADY_CLOSED, val), s) \<and> Shared_GetColumnType E col ct s = Some ((E_ALREADY_CLOSED, ct), s)
    \<and> Shared_GetSize E col s = ((E_ALREADY_CLOSED, 0), s) \<and> Shared_GetColumnNames E s = ((E_ALREADY_CLOSED, []), s)
    \<and> FillBlock E p s = Some (E_ERROR, s) \<and> Shared_Close s = (E_OK, s)"
proof -
  have s: "s = s0\<lparr>columnMap := [], wholeColumnNames := [], isClosed := True, rowPos := INIT_POS, rowCount := NO_COUNT, columnCount := -1,
      sh_block := None, sh_name := [], sh_stmt := None, sh_conn := False, sh_sql := [], sh_args := []\<rparr>"
    using assms by (simp add: Shared_Close_def AbsSharedResultSet_Close_def AbsResultSet_Close_def Let_def)
  then have c: "isClosed s" "sh_block s = None" "sh_stmt s = None" "GetBlock E s = s" by (simp_all add: GetBlock_def)
  moreover have "CheckState E q s = (E_ALREADY_CLOSED, s)" for q using c by (simp add: CheckState_def)
  moreover have "Shared_Close s = (E_OK, s)" using s by (simp add: Shared_Close_def AbsSharedResultSet_Close_def)
  ultimately show ?thesis
    by (simp add: Shared_GoToRow_def Shared_Get_def Shared_GetColumnType_def Shared_GetSize_def Shared_GetColumnNames_def FillBlock_def errno)
qed

end
