(* ===== verification/Rdb_Sql_Utils.thy ===== *)
theory Rdb_Sql_Utils
  imports Query_Building
begin

text \<open>
  \<open>RdbSqlUtils\<close> (\<open>rdb_sql_utils.cpp\<close>): the statements that the store and the transactions execute for
  an insert, an update and a delete, the checks of table names, fields and assets, and the paths of
  databases. Creating a missing directory is the operation \<open>mkdir\<close> of a file system, which says whether
  it failed and whether the directory existed.
\<close>

definition E_INVALID_CONFLICT_FLAG :: int where [errno]: "E_INVALID_CONFLICT_FLAG = E_BASE + 0x15"
definition E_CREATE_FOLDER_FAIL :: int where [errno]: "E_CREATE_FOLDER_FAIL = E_BASE + 0x25"

abbreviation TYPE_ASSET :: nat where "TYPE_ASSET \<equiv> 6"
abbreviation TYPE_ASSETS :: nat where "TYPE_ASSETS \<equiv> 7"

section \<open>Statements\<close>

record sql_info =
  si_sql :: string
  si_args :: "value_object list"

abbreviation SqlInfo_new :: sql_info where "SqlInfo_new \<equiv> \<lparr>si_sql = [], si_args = []\<rparr>"

text \<open>
  The loop over the values of a row: the text and the arguments, or none of them when a list of assets
  is to replace another, and the row, whose assets get their status through the constant reference.
\<close>

fun insert_loop ::
  "ConflictResolution \<Rightarrow> values_bucket \<Rightarrow> string \<Rightarrow> string \<Rightarrow> value_object list \<Rightarrow>
     (string \<times> value_object list) option \<times> values_bucket" where
  "insert_loop resolution [] split sql args = (Some (sql, args), [])"
| "insert_loop resolution ((key, val) # row) split sql args =
     (if GetType val = TYPE_ASSETS \<and> resolution = ON_CONFLICT_REPLACE then (None, (key, val) # row)
      else
        (let val1 = UpdateAssetStatus STATUS_INSERT val;
             (r, row1) = insert_loop resolution row '','' (sql @ split @ key) (args @ [val1])
         in (r, (key, val1) # row1)))"

definition GetInsertSqlInfo ::
  "string \<Rightarrow> values_bucket \<Rightarrow> ConflictResolution \<Rightarrow> ((int \<times> sql_info) \<times> values_bucket) option" where
  "GetInsertSqlInfo tbl row resolution =
     (if tbl = [] then Some ((E_EMPTY_TABLE_NAME, SqlInfo_new), row)
      else if IsEmpty row then Some ((E_EMPTY_VALUES_BUCKET, SqlInfo_new), row)
      else
        (case GetConflictClause (int (resolution_index resolution)) of
           None \<Rightarrow> Some ((E_INVALID_CONFLICT_FLAG, SqlInfo_new), row)
         | Some conflictClause \<Rightarrow>
             (case insert_loop resolution row [] (''INSERT'' @ conflictClause @ '' INTO '' @ tbl @ ''('') [] of
                (None, row1) \<Rightarrow> Some ((E_INVALID_ARGS, SqlInfo_new), row1)
              | (Some (sql, args), row1) \<Rightarrow>
                  map_option (\<lambda>marks. ((E_OK, \<lparr>si_sql = sql @ '') VALUES ('' @ marks @ '')'', si_args = args\<rparr>), row1))
                    (GetSqlArgs (length row)))))"

text \<open>The item of a column in \<open>SET\<close>; assets are merged into those stored.\<close>

definition set_item :: "string \<Rightarrow> value_object \<Rightarrow> string" where
  "set_item key val =
     (if GetType val = TYPE_ASSETS then key @ ''=merge_assets('' @ key @ '', ?)''
      else if GetType val = TYPE_ASSET then key @ ''=merge_asset('' @ key @ '', ?)''
      else key @ ''=?'')"

fun update_loop :: "values_bucket \<Rightarrow> string \<Rightarrow> string \<Rightarrow> value_object list \<Rightarrow> string \<times> value_object list" where
  "update_loop [] split sql args = (sql, args)"
| "update_loop ((key, val) # row) split sql args = update_loop row '','' (sql @ split @ set_item key val) (args @ [val])"

definition add_where_clause :: "string \<Rightarrow> string \<Rightarrow> string" where
  "add_where_clause sql wher = (if wher = [] then sql else sql @ '' WHERE '' @ wher)"

definition GetUpdateSqlInfo ::
  "abs_rdb_predicates \<Rightarrow> values_bucket \<Rightarrow> ConflictResolution \<Rightarrow> int \<times> sql_info" where
  "GetUpdateSqlInfo p row resolution =
     (if tableName p = [] then (E_EMPTY_TABLE_NAME, SqlInfo_new)
      else if IsEmpty row then (E_EMPTY_VALUES_BUCKET, SqlInfo_new)
      else
        (case GetConflictClause (int (resolution_index resolution)) of
           None \<Rightarrow> (E_INVALID_CONFLICT_FLAG, SqlInfo_new)
         | Some clause \<Rightarrow>
             (let (sql, tmpBindArgs) = update_loop row [] (''UPDATE'' @ clause @ '' '' @ tableName p @ '' SET '') []
              in (E_OK, \<lparr>si_sql = add_where_clause sql (whereClause p), si_args = tmpBindArgs @ bindArgs p\<rparr>))))"

definition GetDeleteSqlInfo :: "abs_rdb_predicates \<Rightarrow> int \<times> sql_info" where
  "GetDeleteSqlInfo p =
     (if tableName p = [] then (E_EMPTY_TABLE_NAME, SqlInfo_new)
      else (E_OK, \<lparr>si_sql = add_where_clause (''DELETE FROM '' @ tableName p) (whereClause p), si_args = bindArgs p\<rparr>))"

text \<open>\<open>joinClause\<close> is what the virtual \<open>GetJoinClause\<close> of the predicates gives.\<close>

definition GetQuerySqlInfo :: "string \<Rightarrow> abs_rdb_predicates \<Rightarrow> string list \<Rightarrow> int \<times> sql_info" where
  "GetQuerySqlInfo joinClause p columns =
     (E_OK, \<lparr>si_sql = BuildQueryString joinClause p columns, si_args = bindArgs p\<rparr>)"

section \<open>Checks\<close>

definition is_letter :: "char \<Rightarrow> bool" where
  "is_letter c = (CHR ''a'' \<le> c \<and> c \<le> CHR ''z'' \<or> CHR ''A'' \<le> c \<and> c \<le> CHR ''Z'')"

text \<open>\<open>[a-zA-Z][a-zA-Z0-9_]*\<close>, and the whole expression with one dot at most.\<close>

definition is_name :: "string \<Rightarrow> bool" where
  "is_name s = (s \<noteq> [] \<and> is_letter (hd s)
     \<and> list_all (\<lambda>c. is_letter c \<or> CHR ''0'' \<le> c \<and> c \<le> CHR ''9'' \<or> c = CHR ''_'') (tl s))"

definition IsValidTableName :: "string \<Rightarrow> bool" where
  "IsValidTableName tbl =
     (let rest = dropWhile (\<lambda>c. c \<noteq> CHR ''.'') tbl
      in is_name (takeWhile (\<lambda>c. c \<noteq> CHR ''.'') tbl) \<and> (rest = [] \<or> is_name (tl rest)))"

abbreviation FIELDS_LIMIT :: nat where "FIELDS_LIMIT \<equiv> 4"

definition IsValidFields :: "string list \<Rightarrow> bool" where
  "IsValidFields flds = (0 < length flds \<and> length flds \<le> FIELDS_LIMIT \<and> list_all (\<lambda>f. set f \<inter> set ''*, '' = {}) flds)"

text \<open>The white space of \<open>find_first_not_of\<close> and \<open>find_last_not_of\<close>: blank, tab, line feed, return, form feed, vertical tab.\<close>

definition trim_chars :: string where
  "trim_chars = map char_of [32, 9, 10, 13, 12, 11 :: nat]"

fun find_first_not_of :: "string \<Rightarrow> string \<Rightarrow> nat option" where
  "find_first_not_of cs [] = None"
| "find_first_not_of cs (c # s) = (if c \<notin> set cs then Some 0 else map_option Suc (find_first_not_of cs s))"

fun find_last_not_of :: "string \<Rightarrow> string \<Rightarrow> nat option" where
  "find_last_not_of cs [] = None"
| "find_last_not_of cs (c # s) =
     (case find_last_not_of cs s of Some k \<Rightarrow> Some (Suc k) | None \<Rightarrow> if c \<notin> set cs then Some 0 else None)"

definition Trim :: "string \<Rightarrow> string" where
  "Trim s =
     (case find_first_not_of trim_chars s of
        None \<Rightarrow> []
      | Some start \<Rightarrow> take (the (find_last_not_of trim_chars s) - start + 1) (drop start s))"

definition BatchTrim :: "string list \<Rightarrow> string list" where
  "BatchTrim value = fold (\<lambda>str res. res @ [Trim str]) value []"

abbreviation MAX_RETURNING_COUNT :: int where "MAX_RETURNING_COUNT \<equiv> 0x7FFE"

definition IsValidReturningMaxCount :: "int \<Rightarrow> bool" where
  "IsValidReturningMaxCount maxCount = (\<not> (maxCount \<le> 0 \<or> maxCount > MAX_RETURNING_COUNT))"

text \<open>The names seen so far are a \<open>std::set\<close>; \<open>insert\<close> says whether the name was new.\<close>

fun duplicate_loop :: "asset list \<Rightarrow> string set \<Rightarrow> bool" where
  "duplicate_loop [] names = False"
| "duplicate_loop (a # assets) names = (asset_name a \<in> names \<or> duplicate_loop assets (insert (asset_name a) names))"

definition HasDuplicateAssets :: "value_object \<Rightarrow> bool" where
  "HasDuplicateAssets v = (case get_if_assets v of None \<Rightarrow> False | Some assets \<Rightarrow> duplicate_loop assets {})"

definition HasDuplicateAssets_values :: "value_object list \<Rightarrow> bool" where
  "HasDuplicateAssets_values vs = list_ex HasDuplicateAssets vs"

definition HasDuplicateAssets_bucket :: "values_bucket \<Rightarrow> bool" where
  "HasDuplicateAssets_bucket row = list_ex (\<lambda>(key, val). HasDuplicateAssets val) row"

definition HasDuplicateAssets_buckets :: "values_buckets \<Rightarrow> bool" where
  "HasDuplicateAssets_buckets b = list_ex (\<lambda>a. HasDuplicateAssets (vbs_heap b ! a)) (vbs_values b)"

section \<open>Paths\<close>

function split_path :: "string \<Rightarrow> string list" where
  "split_path s =
     (case str_find ''/'' s of None \<Rightarrow> [s] | Some pos \<Rightarrow> take pos s # split_path (drop (pos + 1) s))"
  by pat_completeness auto
termination
  by (relation "measure length") (use str_find_Some in \<open>fastforce+\<close>)

record 'f dir_ops =
  dir_access :: "string \<Rightarrow> 'f \<Rightarrow> bool"
  dir_mkdir :: "string \<Rightarrow> 'f \<Rightarrow> (bool \<times> bool) \<times> 'f"

definition CreateSingleDirectory :: "'f dir_ops \<Rightarrow> string \<Rightarrow> 'f \<Rightarrow> int \<times> 'f" where
  "CreateSingleDirectory F dir fs =
     (let ((failed, exists), fs1) = dir_mkdir F dir fs
      in (if failed \<and> \<not> exists then E_CREATE_FOLDER_FAIL else E_OK, fs1))"

fun create_loop :: "'f dir_ops \<Rightarrow> string list \<Rightarrow> string \<Rightarrow> 'f \<Rightarrow> int \<times> 'f" where
  "create_loop F [] dir fs = (E_OK, fs)"
| "create_loop F (d # ds) dir fs =
     (let dir1 = dir @ ''/'' @ d
      in if dir_access F dir1 fs then create_loop F ds dir1 fs
         else
           (let (ret, fs1) = CreateSingleDirectory F dir1 fs
            in if ret \<noteq> E_OK then (ret, fs1) else create_loop F ds dir1 fs1))"

definition CreateDirectory :: "'f dir_ops \<Rightarrow> string \<Rightarrow> 'f \<Rightarrow> int \<times> 'f" where
  "CreateDirectory F databaseDir fs = create_loop F (split_path databaseDir) [] fs"

definition GetDefaultDatabasePath :: "'f dir_ops \<Rightarrow> string \<Rightarrow> string \<Rightarrow> string \<Rightarrow> 'f \<Rightarrow> (string \<times> int) \<times> 'f" where
  "GetDefaultDatabasePath F baseDir name customDir fs =
     (let databaseDir = (if customDir = [] then baseDir @ ''/rdb'' else baseDir @ ''/rdb/'' @ customDir);
          (errorCode, fs1) = CreateDirectory F databaseDir fs
      in ((databaseDir @ ''/'' @ name, errorCode), fs1))"

definition ends_with :: "string \<Rightarrow> string \<Rightarrow> bool" where
  "ends_with seg s = (length s \<ge> length seg \<and> drop (length s - length seg) s = seg)"

definition GetDataBaseDirFromRealPath :: "string \<Rightarrow> bool \<Rightarrow> string \<Rightarrow> string \<Rightarrow> string" where
  "GetDataBaseDirFromRealPath path persist customDir name =
     (if \<not> persist then path
      else if path = [] \<or> name = [] then []
      else
        (case str_find_last_of ''/'' path of
           None \<Rightarrow> []
         | Some lastSlash \<Rightarrow>
             if drop (lastSlash + 1) path \<noteq> name then []
             else
               (let dir = take lastSlash path;
                    customSeg = ''/'' @ customDir;
                    cut = (if customDir = [] then Some dir
                           else if ends_with customSeg dir then Some (take (length dir - length customSeg) dir) else None)
                in case cut of
                     None \<Rightarrow> []
                   | Some dir1 \<Rightarrow>
                       if \<not> ends_with ''/rdb'' dir1 then [] else take (length dir1 - length ''/rdb'') dir1)))"

section \<open>The statements\<close>

lemma resolution_clause: "GetConflictClause (int (resolution_index r)) = Some (g_onConflictClause ! resolution_index r)"
  by (cases r) (simp_all add: GetConflictClause_def ON_CONFLICT_CLAUSE_def g_onConflictClause_def)

lemma qmarks_clause [simp]: "qmarks (g_onConflictClause ! resolution_index r) = 0"
  by (cases r) (simp_all add: g_onConflictClause_def)

definition replaces_assets :: "ConflictResolution \<Rightarrow> values_bucket \<Rightarrow> bool" where
  "replaces_assets resolution row \<longleftrightarrow> resolution = ON_CONFLICT_REPLACE \<and> list_ex (\<lambda>(_, val). GetType val = TYPE_ASSETS) row"

text \<open>A list of items with their separators, as the loops write it.\<close>

lemma join_with_concat: "join_with sep (x # xs) = x @ concat (map (\<lambda>y. sep @ y) xs)"
  by (induction xs arbitrary: x) auto

lemma insert_loop_result:
  "fst (insert_loop resolution row split sql args) =
     (if replaces_assets resolution row then None
      else Some (sql @ (if row = [] then [] else split @ join_with '','' (map fst row)),
                 args @ map (\<lambda>(_, val). UpdateAssetStatus STATUS_INSERT val) row))"
proof (induction row arbitrary: split sql args)
  case (Cons kv row)
  obtain key val where kv: "kv = (key, val)" by fastforce
  show ?case
  proof (cases "GetType val = TYPE_ASSETS \<and> resolution = ON_CONFLICT_REPLACE")
    case True
    then show ?thesis by (simp add: kv replaces_assets_def)
  next
    case False
    then have "replaces_assets resolution (kv # row) = replaces_assets resolution row" by (auto simp: kv replaces_assets_def)
    then show ?thesis using False Cons.IH
      by (cases row) (auto simp: kv case_prod_beta Let_def join_with_concat)
  qed
qed (simp add: replaces_assets_def)

lemma insert_loop_row:
  "\<not> replaces_assets resolution row \<Longrightarrow>
     snd (insert_loop resolution row split sql args) = map (\<lambda>(key, val). (key, UpdateAssetStatus STATUS_INSERT val)) row"
proof (induction row arbitrary: split sql args)
  case (Cons kv row)
  obtain key val where kv: "kv = (key, val)" by fastforce
  have "\<not> replaces_assets resolution row" "\<not> (GetType val = TYPE_ASSETS \<and> resolution = ON_CONFLICT_REPLACE)"
    using Cons.prems by (auto simp: kv replaces_assets_def)
  then show ?case using Cons.IH by (auto simp: kv case_prod_beta Let_def)
qed simp

lemma update_loop_result:
  "update_loop row split sql args =
     (sql @ (if row = [] then [] else split @ join_with '','' (map (\<lambda>(key, val). set_item key val) row)), args @ map snd row)"
proof (induction row arbitrary: split sql args)
  case (Cons kv row)
  then show ?case by (cases kv; cases row) (auto simp: join_with_concat)
qed simp

lemma qmarks_join: "qmarks sep = 0 \<Longrightarrow> qmarks (join_with sep xs) = sum_list (map qmarks xs)"
proof (cases xs)
  case (Cons x ys)
  assume "qmarks sep = 0"
  then have "qmarks (concat (map (\<lambda>y. sep @ y) ys)) = sum_list (map qmarks ys)" for ys by (induction ys) auto
  then show ?thesis by (simp add: Cons join_with_concat)
qed simp

lemma qmarks_set_item: "qmarks key = 0 \<Longrightarrow> qmarks (set_item key val) = 1"
  by (simp add: set_item_def)

lemma qmarks_add_where: "qmarks (add_where_clause sql wher) = qmarks sql + qmarks wher"
  by (simp add: add_where_clause_def)

text \<open>
  The insert of a row: its columns in the order of the row, one placeholder for each, and its values as
  the arguments, with the assets marked as inserted.
\<close>

lemma GetInsertSqlInfo_text:
  assumes "tbl \<noteq> []" "row \<noteq> []" "\<not> replaces_assets resolution row"
  shows "GetInsertSqlInfo tbl row resolution = Some ((E_OK,
     \<lparr>si_sql = ''INSERT'' @ g_onConflictClause ! resolution_index resolution @ '' INTO '' @ tbl @ ''(''
        @ join_with '','' (map fst row) @ '') VALUES ('' @ join_with '','' (replicate (length row) ''?'') @ '')'',
      si_args = map (\<lambda>(_, val). UpdateAssetStatus STATUS_INSERT val) row\<rparr>),
     map (\<lambda>(key, val). (key, UpdateAssetStatus STATUS_INSERT val)) row)"
proof -
  let ?r = "insert_loop resolution row [] (''INSERT'' @ g_onConflictClause ! resolution_index resolution @ '' INTO '' @ tbl @ ''('') []"
  have "?r = (Some (''INSERT'' @ g_onConflictClause ! resolution_index resolution @ '' INTO '' @ tbl @ ''('' @ join_with '','' (map fst row),
      map (\<lambda>(_, val). UpdateAssetStatus STATUS_INSERT val) row), map (\<lambda>(key, val). (key, UpdateAssetStatus STATUS_INSERT val)) row)"
    using insert_loop_row [OF assms(3)] assms by (intro prod_eqI) (simp_all add: insert_loop_result)
  moreover have "GetSqlArgs (length row) = Some (join_with '','' (replicate (length row) ''?''))" using assms(2) by (intro GetSqlArgs_join) simp
  ultimately show ?thesis using assms(1,2)
    by (simp add: GetInsertSqlInfo_def resolution_clause IsEmpty_def)
qed

lemma insert_arguments:
  assumes "GetInsertSqlInfo tbl row resolution = Some ((E_OK, info), row1)"
  shows "row \<noteq> []" "tbl \<noteq> []" "\<not> replaces_assets resolution row" "length (si_args info) = length row"
proof -
  have r: "tbl \<noteq> []" "row \<noteq> []" using assms(1) by (auto simp: GetInsertSqlInfo_def IsEmpty_def errno split: if_splits)
  let ?r = "insert_loop resolution row [] (''INSERT'' @ g_onConflictClause ! resolution_index resolution @ '' INTO '' @ tbl @ ''('') []"
  have "\<not> replaces_assets resolution row"
  proof
    assume "replaces_assets resolution row"
    then obtain row' where "?r = (None, row')" using insert_loop_result by (metis prod.collapse)
    then show False using assms(1) r by (simp add: GetInsertSqlInfo_def resolution_clause IsEmpty_def errno)
  qed
  with r show "row \<noteq> []" "tbl \<noteq> []" "\<not> replaces_assets resolution row" "length (si_args info) = length row"
    using GetInsertSqlInfo_text [OF r] assms(1) by auto
qed

lemma insert_marks:
  assumes "GetInsertSqlInfo tbl row resolution = Some ((E_OK, info), row1)" "qmarks tbl = 0" "list_all (\<lambda>(key, _). qmarks key = 0) row"
  shows "qmarks (si_sql info) = length (si_args info)"
proof -
  have i: "info = \<lparr>si_sql = ''INSERT'' @ g_onConflictClause ! resolution_index resolution @ '' INTO '' @ tbl @ ''(''
        @ join_with '','' (map fst row) @ '') VALUES ('' @ join_with '','' (replicate (length row) ''?'') @ '')'',
      si_args = map (\<lambda>(_, val). UpdateAssetStatus STATUS_INSERT val) row\<rparr>"
    using GetInsertSqlInfo_text [OF insert_arguments(2,1,3) [OF assms(1)]] assms(1) by simp
  have "sum_list (map qmarks (map fst row)) = 0" using assms(3) by (induction row) auto
  moreover have "sum_list (map qmarks (replicate (length row) ''?'')) = length row" by (simp add: sum_list_replicate)
  ultimately show ?thesis using assms(2) by (simp add: i qmarks_join)
qed

lemma update_marks:
  assumes "GetUpdateSqlInfo p row resolution = (E_OK, info)" "qmarks (tableName p) = 0" "list_all (\<lambda>(key, _). qmarks key = 0) row"
    and "qmarks (whereClause p) = length (bindArgs p)"
  shows "qmarks (si_sql info) = length (si_args info)"
proof -
  have "row \<noteq> []" using assms(1) by (auto simp: GetUpdateSqlInfo_def IsEmpty_def errno split: if_splits)
  moreover have "sum_list (map (\<lambda>x. qmarks (case x of (key, val) \<Rightarrow> set_item key val)) row) = length row"
    using assms(3) by (induction row) (auto simp: qmarks_set_item)
  ultimately show ?thesis using assms
    by (auto simp: GetUpdateSqlInfo_def resolution_clause update_loop_result qmarks_add_where qmarks_join comp_def errno split: if_splits)
qed

lemma delete_marks:
  assumes "GetDeleteSqlInfo p = (E_OK, info)" "qmarks (tableName p) = 0" "qmarks (whereClause p) = length (bindArgs p)"
  shows "qmarks (si_sql info) = length (si_args info)"
  using assms by (auto simp: GetDeleteSqlInfo_def qmarks_add_where errno split: if_splits)

section \<open>Paths and checks\<close>

lemma last_slash_append: "c \<notin> set b \<Longrightarrow> str_find_last_of [c] (a @ c # b) = Some (length a)"
proof -
  assume "c \<notin> set b"
  then have "str_find_last_of [c] b = None" by (induction b) auto
  then show ?thesis by (induction a) auto
qed

lemma last_slash_cut: "str_find_last_of [c] s = Some k \<Longrightarrow> s = take k s @ c # drop (k + 1) s \<and> c \<notin> set (drop (k + 1) s)"
proof (induction s arbitrary: k)
  case (Cons d s)
  have "str_find_last_of [c] s = None \<Longrightarrow> c \<notin> set s" by (induction s) (auto split: option.splits if_splits)
  then show ?case using Cons by (cases k) (auto split: option.splits if_splits)
qed simp

lemma ends_with_append [simp]: "ends_with seg (a @ seg)"
  by (simp add: ends_with_def)

lemma ends_with_cut: "ends_with seg s \<Longrightarrow> take (length s - length seg) s @ seg = s"
  unfolding ends_with_def by (metis append_take_drop_id)

definition rdb_dir :: "string \<Rightarrow> string \<Rightarrow> string" where
  "rdb_dir baseDir customDir = baseDir @ ''/rdb'' @ (if customDir = [] then [] else ''/'' @ customDir)"

lemma GetDefaultDatabasePath_text: "fst (fst (GetDefaultDatabasePath F baseDir name customDir fs)) = rdb_dir baseDir customDir @ ''/'' @ name"
  by (simp add: GetDefaultDatabasePath_def rdb_dir_def Let_def case_prod_beta)

lemma GetDataBaseDir_below:
  assumes "name \<noteq> []" "CHR ''/'' \<notin> set name"
  shows "GetDataBaseDirFromRealPath (dir @ ''/'' @ name) True customDir name =
     (let customSeg = ''/'' @ customDir;
          cut = (if customDir = [] then Some dir
                 else if ends_with customSeg dir then Some (take (length dir - length customSeg) dir) else None)
      in case cut of None \<Rightarrow> [] | Some dir1 \<Rightarrow> if \<not> ends_with ''/rdb'' dir1 then [] else take (length dir1 - length ''/rdb'') dir1)"
  using assms last_slash_append [OF assms(2), of dir] by (simp add: GetDataBaseDirFromRealPath_def)

text \<open>
  The directory that \<open>GetDataBaseDirFromRealPath\<close> recovers from the path of a database is the one
  \<open>GetDefaultDatabasePath\<close> made the path from; and whenever it recovers a directory, the path is the
  default path below it.
\<close>

lemma database_dir_roundtrip:
  assumes "name \<noteq> []" "CHR ''/'' \<notin> set name"
  shows "GetDataBaseDirFromRealPath (fst (fst (GetDefaultDatabasePath F baseDir name customDir fs))) True customDir name = baseDir
    \<and> (GetDataBaseDirFromRealPath path True customDir name = baseDir \<and> baseDir \<noteq> [] \<longrightarrow>
         path = fst (fst (GetDefaultDatabasePath F baseDir name customDir fs)))"
proof -
  have e: "ends_with (''/'' @ customDir) (rdb_dir baseDir customDir)" "length (rdb_dir baseDir customDir) - length (''/'' @ customDir) = length (baseDir @ ''/rdb'')"
    if "customDir \<noteq> []" using that ends_with_append [of "''/'' @ customDir" "baseDir @ ''/rdb''"] by (simp_all add: rdb_dir_def)
  have "ends_with ''/rdb'' (baseDir @ ''/rdb'')" by (rule ends_with_append)
  then have "GetDataBaseDirFromRealPath (rdb_dir baseDir customDir @ ''/'' @ name) True customDir name = baseDir"
    unfolding GetDataBaseDir_below [OF assms] using e by (cases "customDir = []") (simp_all add: rdb_dir_def)
  moreover have "path = rdb_dir baseDir customDir @ ''/'' @ name"
    if r: "GetDataBaseDirFromRealPath path True customDir name = baseDir" and ne: "baseDir \<noteq> []"
  proof -
    obtain k where k: "str_find_last_of ''/'' path = Some k" "drop (k + 1) path = name"
      using r ne by (auto simp: GetDataBaseDirFromRealPath_def split: if_splits option.splits)
    define dir where "dir = take k path"
    have p: "path = dir @ ''/'' @ name" using last_slash_cut [OF k(1)] k(2) by (simp add: dir_def)
    note v = r [unfolded p GetDataBaseDir_below [OF assms] Let_def]
    show ?thesis
    proof (cases "customDir = []")
      case True
      then have "ends_with ''/rdb'' dir" using v ne by (auto split: if_splits)
      then show ?thesis using ends_with_cut [of "''/rdb''" dir] v True p by (simp add: rdb_dir_def)
    next
      case False
      then have c: "ends_with (''/'' @ customDir) dir" using v ne by (auto split: if_splits)
      define dir1 where "dir1 = take (length dir - length (''/'' @ customDir)) dir"
      have "ends_with ''/rdb'' dir1" "baseDir = take (length dir1 - length ''/rdb'') dir1"
        using v ne c False unfolding dir1_def by (auto split: if_splits)
      then have "baseDir @ ''/rdb'' = dir1" using ends_with_cut by metis
      moreover have "dir = dir1 @ ''/'' @ customDir" using ends_with_cut [OF c] by (simp add: dir1_def)
      ultimately show ?thesis using p False by (simp add: rdb_dir_def)
    qed
  qed
  ultimately show ?thesis by (simp add: GetDefaultDatabasePath_text)
qed

lemma duplicate_loop_iff: "duplicate_loop assets names \<longleftrightarrow> \<not> (distinct (map asset_name assets) \<and> set (map asset_name assets) \<inter> names = {})"
  by (induction assets arbitrary: names) auto

lemma HasDuplicateAssets_iff: "HasDuplicateAssets (VAssets assets) \<longleftrightarrow> \<not> distinct (map asset_name assets)"
  by (simp add: HasDuplicateAssets_def duplicate_loop_iff)



end
