(* ===== verification/Transactions.thy ===== *)
theory Transactions
  imports Rdb_Sql_Utils Cache_Result_Set
begin

text \<open>
  Transactions: \<open>TransDB\<close> (\<open>trans_db.cpp\<close>), the store over the one connection of a transaction, and
  \<open>TransactionImpl\<close> (\<open>transaction_impl.cpp\<close>) with its base class \<open>Transaction\<close> (\<open>transaction.cpp\<close>).

  The classes \<open>Connection\<close> and \<open>Statement\<close> are abstract; their virtual functions are the record
  \<open>db_ops\<close> over the state of a connection, with its database, and of a statement. The weak pointer of
  \<open>TransDB\<close> to its connection is an option. What a transaction made of its connection is kept in
  \<open>tx_returned\<close> when it lets go of it: the connection and whether it may be used again. A result set is
  held by its client; the transaction closes those that are still there. Locks, statistics and logs are
  left out.
\<close>

section \<open>Connections and statements\<close>

record ('c, 's) db_ops =
  d_CreateStatement :: "string \<Rightarrow> string \<Rightarrow> 'c \<Rightarrow> int \<times> 's option"
  d_Execute :: "value_object list \<Rightarrow> 's \<Rightarrow> 'c \<Rightarrow> int \<times> 's \<times> 'c"
  d_ExecuteForRows :: "value_object list \<Rightarrow> int \<Rightarrow> 's \<Rightarrow> 'c \<Rightarrow> (int \<times> values_bucket list) \<times> 's \<times> 'c"
  d_ExecuteForValue :: "value_object list \<Rightarrow> 's \<Rightarrow> 'c \<Rightarrow> (int \<times> value_object) \<times> 's \<times> 'c"
  d_Changes :: "'s \<Rightarrow> 'c \<Rightarrow> int"
  d_LastInsertRowId :: "'s \<Rightarrow> 'c \<Rightarrow> int"
  d_GetColumnCount :: "'s \<Rightarrow> int"
  d_GetColumn :: "int \<Rightarrow> 's \<Rightarrow> 'c \<Rightarrow> int \<times> value_object"
  d_Reset :: "'s \<Rightarrow> 'c \<Rightarrow> 's"
  d_Prepare :: "string \<Rightarrow> 's \<Rightarrow> 'c \<Rightarrow> int \<times> 's"
  d_GetMaxVariable :: "'c \<Rightarrow> int"
  d_GetLastErrorMsg :: "'c \<Rightarrow> string"

record results =
  changed :: int
  result_set :: "cache_result_set option"

abbreviation no_results :: "int \<Rightarrow> results" where "no_results n \<equiv> \<lparr>changed = n, result_set = None\<rparr>"

record returning_config =
  rc_columns :: "string list"
  maxReturningCount :: int
  defaultRowIndex :: int

abbreviation DEFAULT_RETURNING_COUNT :: int where "DEFAULT_RETURNING_COUNT \<equiv> 1024"
abbreviation FIRST_ROW_INDEX :: int where "FIRST_ROW_INDEX \<equiv> 0"

definition ReturningConfig_new :: returning_config where
  "ReturningConfig_new = \<lparr>rc_columns = [], maxReturningCount = DEFAULT_RETURNING_COUNT, defaultRowIndex = FIRST_ROW_INDEX\<rparr>"

record query_options =
  preCount :: bool
  isGotoNextRowReturnLastError :: bool

record ('c, 'r) result_ops =
  r_step :: "'c option \<Rightarrow> string \<Rightarrow> value_object list \<Rightarrow> query_options \<Rightarrow> bool \<Rightarrow> 'r"
  r_close :: "'r \<Rightarrow> 'r"

section \<open>\<open>TransDB\<close>\<close>

record trans_db =
  td_maxArgs :: int
  td_vSchema :: int
  td_path :: string

definition TransDB_new :: "('c, 's) db_ops \<Rightarrow> 'c \<Rightarrow> string \<Rightarrow> trans_db" where
  "TransDB_new D c path = \<lparr>td_maxArgs = d_GetMaxVariable D c, td_vSchema = 0, td_path = path\<rparr>"

definition TransDB_GetStatement :: "('c, 's) db_ops \<Rightarrow> string \<Rightarrow> string \<Rightarrow> 'c option \<Rightarrow> int \<times> 's option" where
  "TransDB_GetStatement D sql returningSql conn =
     (case conn of None \<Rightarrow> (E_ALREADY_CLOSED, None) | Some c \<Rightarrow> d_CreateStatement D sql returningSql c)"

text \<open>An update that changed nothing has an empty result set; a violated constraint may have changed rows.\<close>

definition GenerateResult ::
    "('c, 's) db_ops \<Rightarrow> int \<Rightarrow> 's option \<Rightarrow> values_bucket list \<Rightarrow> bool \<Rightarrow> int \<Rightarrow> 'c \<Rightarrow> int \<times> results" where
  "GenerateResult D code stmt returningValues isDML rowIndex c =
     (case stmt of
        None \<Rightarrow> (E_ALREADY_CLOSED, no_results (-1))
      | Some s \<Rightarrow>
          (let r1 = (if code = E_OK
                     then \<lparr>changed = if isDML then d_Changes D s c else 0, result_set = Some (CacheResultSet_new returningValues rowIndex)\<rparr>
                     else no_results (-1));
               r2 = (if code = E_SQLITE_CONSTRAINT then r1\<lparr>changed := d_Changes D s c\<rparr> else r1);
               r3 = (if isDML \<and> changed r2 \<le> 0 then r2\<lparr>result_set := Some CacheResultSet_empty\<rparr> else r2)
           in (code, r3)))"

definition insert_marks_of :: "value_object list \<Rightarrow> string option" where
  "insert_marks_of args = (if args = [] then Some [] else GetSqlArgs (length args))"

definition TransDB_Insert ::
    "('c, 's) db_ops \<Rightarrow> string \<Rightarrow> values_bucket \<Rightarrow> ConflictResolution \<Rightarrow> 'c option \<Rightarrow>
     ((int \<times> int) \<times> values_bucket \<times> 'c option) option" where
  "TransDB_Insert D tbl row resolution conn =
     (case GetConflictClause (int (resolution_index resolution)) of
        None \<Rightarrow> Some ((E_INVALID_ARGS, -1), row, conn)
      | Some conflictClause \<Rightarrow>
          if tbl = [] \<or> IsEmpty row then Some ((E_INVALID_ARGS, -1), row, conn)
          else
            (case insert_loop resolution row [] (''INSERT'' @ conflictClause @ '' INTO '' @ tbl @ ''('') [] of
               (None, row1) \<Rightarrow> Some ((E_INVALID_ARGS, -1), row1, conn)
             | (Some (sql, args), row1) \<Rightarrow> do {
                 marks \<leftarrow> insert_marks_of args;
                 Some (case TransDB_GetStatement D (sql @ '') VALUES ('' @ marks @ '')'') [] conn of
                         (errCode, None) \<Rightarrow> ((errCode, -1), row1, conn)
                       | (errCode, Some s) \<Rightarrow>
                           (let (errCode1, s1, c1) = d_Execute D args s (the conn)
                            in if errCode1 \<noteq> E_OK then ((errCode1, -1), row1, Some c1)
                               else ((errCode1, if d_Changes D s1 c1 > 0 then d_LastInsertRowId D s1 c1 else -1), row1, Some c1)))
               }))"

text \<open>The loops of a batch: an early return is \<open>Some\<close> of its code.\<close>

fun execute_all :: "('c, 's) db_ops \<Rightarrow> value_object list list \<Rightarrow> 's \<Rightarrow> 'c \<Rightarrow> int option \<times> 's \<times> 'c" where
  "execute_all D [] s c = (None, s, c)"
| "execute_all D (args # rest) s c =
     (let (errCode, s1, c1) = d_Execute D args s c
      in if errCode = E_OK then execute_all D rest s1 c1 else (Some errCode, s1, c1))"

fun batch_loop ::
    "('c, 's) db_ops \<Rightarrow> (string \<times> value_object list list) list \<Rightarrow> 'c option \<Rightarrow> int option \<times> 'c option" where
  "batch_loop D [] conn = (None, conn)"
| "batch_loop D ((sql, batchArgs) # rest) conn =
     (case TransDB_GetStatement D sql [] conn of
        (errCode, None) \<Rightarrow> (Some errCode, conn)
      | (errCode, Some s) \<Rightarrow>
          (case execute_all D batchArgs s (the conn) of
             (Some errCode1, s1, c1) \<Rightarrow> (Some errCode1, Some c1)
           | (None, s1, c1) \<Rightarrow> batch_loop D rest (Some c1)))"

text \<open>The arguments of a batch are references to the values of its rows, the null value for a missing one.\<close>

definition ref_value :: "values_buckets \<Rightarrow> nat option \<Rightarrow> value_object" where
  "ref_value b r = (case r of None \<Rightarrow> VNull | Some a \<Rightarrow> vbs_heap b ! a)"

definition batch_values :: "values_buckets \<Rightarrow> (string \<times> nat option list list) list \<Rightarrow> (string \<times> value_object list list) list" where
  "batch_values b = map (\<lambda>(sql, argss). (sql, map (map (ref_value b)) argss))"

definition TransDB_BatchInsert ::
    "('c, 's) db_ops \<Rightarrow> string \<Rightarrow> values_buckets \<Rightarrow> trans_db \<Rightarrow> 'c option \<Rightarrow>
     ((int \<times> int) \<times> values_buckets \<times> 'c option) option" where
  "TransDB_BatchInsert D tbl rows td conn =
     (if RowSize rows = 0 then Some ((E_OK, 0), rows, conn)
      else
        (let (batch, rows1) = GenerateSqls tbl rows (td_maxArgs td) ON_CONFLICT_REPLACE
         in map_option (\<lambda>batchInfo.
              if tbl = [] \<or> batchInfo = [] then ((E_INVALID_ARGS, -1), rows1, conn)
              else
                (case batch_loop D (batch_values rows1 batchInfo) conn of
                   (Some errCode, conn1) \<Rightarrow> ((errCode, -1), rows1, conn1)
                 | (None, conn1) \<Rightarrow> ((E_OK, int (RowSize rows)), rows1, conn1))) batch))"

definition TransDB_BatchInsert_returning ::
    "('c, 's) db_ops \<Rightarrow> string \<Rightarrow> values_buckets \<Rightarrow> returning_config \<Rightarrow> ConflictResolution \<Rightarrow> trans_db \<Rightarrow> 'c option \<Rightarrow>
     ((int \<times> results) \<times> values_buckets \<times> 'c option) option" where
  "TransDB_BatchInsert_returning D tbl rows config resolution td conn =
     (if RowSize rows = 0 then Some ((E_OK, no_results 0), rows, conn)
      else
        (let (batch, rows1) = GenerateSqls tbl rows (td_maxArgs td) resolution
         in map_option (\<lambda>sqlArgs.
              if length sqlArgs \<noteq> 1 \<or> length (snd (hd sqlArgs)) \<noteq> 1 then ((E_INVALID_ARGS, no_results (-1)), rows1, conn)
              else
                (let (sql, bindArgs1) = hd (batch_values rows1 sqlArgs)
                 in case TransDB_GetStatement D sql (GetReturningSql (rc_columns config)) conn of
                      (errCode, None) \<Rightarrow> ((errCode, no_results (-1)), rows1, conn)
                    | (errCode, Some s) \<Rightarrow>
                        (let ((errCode1, vs), s1, c1) = d_ExecuteForRows D (hd bindArgs1) (maxReturningCount config) s (the conn)
                         in (GenerateResult D errCode1 (Some s1) vs True (defaultRowIndex config) c1, rows1, Some c1)))) batch))"

text \<open>The statement of an update or a delete, executed for the rows it returns.\<close>

definition execute_for_rows ::
    "('c, 's) db_ops \<Rightarrow> string \<Rightarrow> value_object list \<Rightarrow> returning_config \<Rightarrow> 'c option \<Rightarrow> (int \<times> results) \<times> 'c option" where
  "execute_for_rows D sql args config conn =
     (case TransDB_GetStatement D sql (GetReturningSql (rc_columns config)) conn of
        (errCode, stmt) \<Rightarrow>
          if errCode \<noteq> E_OK \<or> stmt = None then ((if errCode \<noteq> E_OK then errCode else E_ERROR, no_results (-1)), conn)
          else
            (let ((errCode1, vs), s1, c1) = d_ExecuteForRows D args (maxReturningCount config) (the stmt) (the conn)
             in (GenerateResult D errCode1 (Some s1) vs True (defaultRowIndex config) c1, Some c1)))"

definition TransDB_Update ::
    "('c, 's) db_ops \<Rightarrow> values_bucket \<Rightarrow> abs_rdb_predicates \<Rightarrow> returning_config \<Rightarrow> ConflictResolution \<Rightarrow> 'c option \<Rightarrow>
     (int \<times> results) \<times> 'c option" where
  "TransDB_Update D row p config resolution conn =
     (case GetConflictClause (int (resolution_index resolution)) of
        None \<Rightarrow> ((E_INVALID_ARGS, no_results 0), conn)
      | Some clause \<Rightarrow>
          if tableName p = [] \<or> IsEmpty row then ((E_INVALID_ARGS, no_results 0), conn)
          else
            (let (sql, totalArgs) = update_loop row [] (''UPDATE'' @ clause @ '' '' @ tableName p @ '' SET '') []
             in execute_for_rows D (add_where_clause sql (whereClause p)) (totalArgs @ bindArgs p) config conn))"

definition TransDB_Delete ::
    "('c, 's) db_ops \<Rightarrow> abs_rdb_predicates \<Rightarrow> returning_config \<Rightarrow> 'c option \<Rightarrow> (int \<times> results) \<times> 'c option" where
  "TransDB_Delete D p config conn =
     (if tableName p = [] then ((E_INVALID_ARGS, no_results (-1)), conn)
      else execute_for_rows D (add_where_clause (''DELETE FROM '' @ tableName p) (whereClause p)) (bindArgs p) config conn)"

definition TransDB_QueryByStep ::
    "('c, 'r) result_ops \<Rightarrow> string \<Rightarrow> value_object list \<Rightarrow> query_options \<Rightarrow> 'c option \<Rightarrow> 'r" where
  "TransDB_QueryByStep R sql args options conn = r_step R conn sql args options True"

text \<open>A version that is not a number in range is undefined.\<close>

definition TransDB_HandleSchemaDDL ::
    "('c, 's) db_ops \<Rightarrow> 's \<Rightarrow> trans_db \<Rightarrow> 'c \<Rightarrow> (trans_db \<times> 'c) option" where
  "TransDB_HandleSchemaDDL D s td c =
     (let s1 = d_Reset D s c;
          (_, s2) = d_Prepare D ''PRAGMA schema_version'' s1 c;
          ((_, version), _, c1) = d_ExecuteForValue D [] s2 c
      in map_option (\<lambda>v. (if td_vSchema td < v then td\<lparr>td_vSchema := v\<rparr> else td, c1)) (operator_int64 version))"

definition TransDB_Execute ::
    "('c, 's) db_ops \<Rightarrow> string \<Rightarrow> value_object list \<Rightarrow> trans_db \<Rightarrow> 'c option \<Rightarrow>
     ((int \<times> value_object) \<times> trans_db \<times> 'c option) option" where
  "TransDB_Execute D sql args td conn =
     (let sqlType = GetSqlStatementType sql
      in if \<not> IsSupportSqlForExecute sqlType \<and> \<not> IsSpecial sqlType then Some ((E_INVALID_ARGS, VNull), td, conn)
         else
           (let (errCode, stmt) = TransDB_GetStatement D sql [] conn
            in if errCode \<noteq> E_OK then Some ((errCode, VNull), td, conn)
               else do {
                 s \<leftarrow> stmt;
                 let (errCode1, s1, c1) = d_Execute D args s (the conn);
                 if errCode1 \<noteq> E_OK then Some ((errCode1, VNull), td, Some c1)
                 else if sqlType = STATEMENT_INSERT
                 then Some ((errCode1, VInt (if d_Changes D s1 c1 > 0 then d_LastInsertRowId D s1 c1 else -1)), td, Some c1)
                 else if sqlType = STATEMENT_UPDATE then Some ((errCode1, VInt (d_Changes D s1 c1)), td, Some c1)
                 else if sqlType = STATEMENT_PRAGMA \<and> d_GetColumnCount D s1 = 1 then Some (d_GetColumn D 0 s1 c1, td, Some c1)
                 else if sqlType = STATEMENT_DDL
                 then do { (td1, c2) \<leftarrow> TransDB_HandleSchemaDDL D s1 td c1; Some ((errCode1, VNull), td1, Some c2) }
                 else Some ((errCode1, VNull), td, Some c1)
               }))"

definition TransDB_ExecuteExt ::
    "('c, 's) db_ops \<Rightarrow> string \<Rightarrow> value_object list \<Rightarrow> trans_db \<Rightarrow> 'c option \<Rightarrow>
     ((int \<times> results) \<times> trans_db \<times> 'c option) option" where
  "TransDB_ExecuteExt D sql args td conn =
     (let sqlType = GetSqlStatementType sql
      in if \<not> IsSupportSqlForExecute sqlType \<and> \<not> IsSpecial sqlType then Some ((E_INVALID_ARGS, no_results (-1)), td, conn)
         else
           (let (errCode, stmt) = TransDB_GetStatement D sql [] conn
            in if errCode \<noteq> E_OK \<or> stmt = None
               then Some ((if errCode \<noteq> E_OK then errCode else E_ERROR, no_results (-1)), td, conn)
               else
                 (let ((errCode1, rows), s1, c1) = d_ExecuteForRows D args DEFAULT_RETURNING_COUNT (the stmt) (the conn);
                      (errCode2, result) = GenerateResult D errCode1 (Some s1) rows
                         (sqlType = STATEMENT_INSERT \<or> sqlType = STATEMENT_UPDATE) FIRST_ROW_INDEX c1
                  in if errCode2 \<noteq> E_OK then Some ((errCode2, result), td, Some c1)
                     else if sqlType = STATEMENT_DDL
                     then do { (td1, c2) \<leftarrow> TransDB_HandleSchemaDDL D s1 td c1; Some ((errCode2, result), td1, Some c2) }
                     else Some ((errCode2, result), td, Some c1))))"

definition TransDB_GetLastErrorMsg :: "('c, 's) db_ops \<Rightarrow> 'c option \<Rightarrow> string" where
  "TransDB_GetLastErrorMsg D conn = (case conn of None \<Rightarrow> [] | Some c \<Rightarrow> d_GetLastErrorMsg D c)"

section \<open>\<open>TransactionImpl\<close>\<close>

record ('c, 'r) transaction =
  tx_path :: string
  tx_store :: "trans_db option"
  tx_connection :: "'c option"
  tx_resultSets :: "'r list"
  tx_returned :: "('c \<times> bool) option"

definition TransactionImpl_new :: "'c \<Rightarrow> string \<Rightarrow> ('c, 'r) transaction" where
  "TransactionImpl_new c path =
     \<lparr>tx_path = path, tx_store = None, tx_connection = Some c, tx_resultSets = [], tx_returned = None\<rparr>"

definition CloseInner :: "('c, 'r) result_ops \<Rightarrow> bool \<Rightarrow> ('c, 'r) transaction \<Rightarrow> ('c, 'r) transaction" where
  "CloseInner R connRecycle t =
     t\<lparr>tx_store := None, tx_connection := None, tx_resultSets := map (r_close R) (tx_resultSets t),
       tx_returned := (case tx_connection t of None \<Rightarrow> tx_returned t | Some c \<Rightarrow> Some (c, connRecycle))\<rparr>"

definition Close_transaction :: "('c, 'r) result_ops \<Rightarrow> ('c, 'r) transaction \<Rightarrow> int \<times> ('c, 'r) transaction" where
  "Close_transaction R t = (E_OK, CloseInner R True t)"

definition BEGIN_SQLS :: "string list" where
  "BEGIN_SQLS = [''BEGIN DEFERRED;'', ''BEGIN IMMEDIATE;'', ''BEGIN EXCLUSIVE;'']"

definition GetBeginSql :: "int \<Rightarrow> string" where
  "GetBeginSql type = (if type < 0 \<or> type \<ge> 3 then [] else BEGIN_SQLS ! nat type)"

text \<open>The statement of \<open>Begin\<close>, \<open>Commit\<close> and \<open>Rollback\<close>: \<open>ok\<close> and \<open>failed\<close> say whether the connection may be used again.\<close>

definition run_statement ::
    "('c, 's) db_ops \<Rightarrow> ('c, 'r) result_ops \<Rightarrow> string \<Rightarrow> bool option \<Rightarrow> bool \<Rightarrow> ('c, 'r) transaction \<Rightarrow> (int \<times> ('c, 'r) transaction) option" where
  "run_statement D R sql ok failed t = do {
     c \<leftarrow> tx_connection t;
     let (errorCode, stmt) = d_CreateStatement D sql [] c;
     if errorCode \<noteq> E_OK then Some (errorCode, CloseInner R failed t)
     else do {
       s \<leftarrow> stmt;
       let (errorCode1, s1, c1) = d_Execute D [] s c;
       let t1 = t\<lparr>tx_connection := Some c1\<rparr>;
       Some (if errorCode1 \<noteq> E_OK then (errorCode1, CloseInner R failed t1)
             else (E_OK, case ok of None \<Rightarrow> t1 | Some recycle \<Rightarrow> CloseInner R recycle t1))
     }
   }"

definition Begin ::
    "('c, 's) db_ops \<Rightarrow> ('c, 'r) result_ops \<Rightarrow> int \<Rightarrow> ('c, 'r) transaction \<Rightarrow> (int \<times> ('c, 'r) transaction) option" where
  "Begin D R type t = do {
     c \<leftarrow> tx_connection t;
     let t1 = t\<lparr>tx_store := Some (TransDB_new D c (tx_path t))\<rparr>;
     if GetBeginSql type = [] then Some (E_INVALID_ARGS, CloseInner R True t1)
     else run_statement D R (GetBeginSql type) None True t1
   }"

definition Commit ::
    "('c, 's) db_ops \<Rightarrow> ('c, 'r) result_ops \<Rightarrow> ('c, 'r) transaction \<Rightarrow> (int \<times> ('c, 'r) transaction) option" where
  "Commit D R t =
     (if tx_connection t = None then Some (E_ALREADY_CLOSED, t) else run_statement D R ''COMMIT;'' (Some True) False t)"

definition Rollback ::
    "('c, 's) db_ops \<Rightarrow> ('c, 'r) result_ops \<Rightarrow> ('c, 'r) transaction \<Rightarrow> (int \<times> ('c, 'r) transaction) option" where
  "Rollback D R t =
     (if tx_connection t = None then Some (E_ALREADY_CLOSED, t) else run_statement D R ''ROLLBACK;'' (Some True) False t)"

text \<open>The destructor rolls back what was not ended.\<close>

definition TransactionImpl_destroy ::
    "('c, 's) db_ops \<Rightarrow> ('c, 'r) result_ops \<Rightarrow> ('c, 'r) transaction \<Rightarrow> ('c, 'r) transaction option" where
  "TransactionImpl_destroy D R t =
     (if tx_connection t = None then Some t else map_option snd (Rollback D R t))"

text \<open>The transaction is handed out with \<open>E_OK\<close> only; otherwise it is destroyed, its connection already given back.\<close>

definition TransactionImpl_Create ::
    "('c, 's) db_ops \<Rightarrow> ('c, 'r) result_ops \<Rightarrow> int \<Rightarrow> 'c \<Rightarrow> string \<Rightarrow> (int \<times> ('c, 'r) transaction) option" where
  "TransactionImpl_Create D R type c path = Begin D R type (TransactionImpl_new c path)"

section \<open>The operations of a transaction\<close>

text \<open>A transaction without a store refuses; otherwise the store works on the connection.\<close>

definition on_store ::
    "'a \<Rightarrow> (trans_db \<Rightarrow> 'c option \<Rightarrow> ('a \<times> trans_db \<times> 'c option) option) \<Rightarrow> ('c, 'r) transaction \<Rightarrow> ('a \<times> ('c, 'r) transaction) option" where
  "on_store refused f t =
     (case tx_store t of
        None \<Rightarrow> Some (refused, t)
      | Some td \<Rightarrow> do {
          (r, td1, conn1) \<leftarrow> f td (tx_connection t);
          Some (r, t\<lparr>tx_store := Some td1, tx_connection := conn1\<rparr>)
        })"

definition Transaction_Insert ::
    "('c, 's) db_ops \<Rightarrow> string \<Rightarrow> values_bucket \<Rightarrow> ConflictResolution \<Rightarrow> ('c, 'r) transaction \<Rightarrow> ((int \<times> int) \<times> ('c, 'r) transaction) option" where
  "Transaction_Insert D tbl row resolution =
     on_store (E_ALREADY_CLOSED, -1)
       (\<lambda>td conn. map_option (\<lambda>(r, _, conn1). (r, td, conn1)) (TransDB_Insert D tbl row resolution conn))"

text \<open>\<open>RdbStore::BatchInsert\<close> on a list of rows, which makes a batch of them.\<close>

definition RdbStore_BatchInsert_rows ::
    "(values_buckets \<Rightarrow> 'w \<Rightarrow> ((int \<times> int) \<times> 'w) option) \<Rightarrow> int \<Rightarrow> values_bucket list \<Rightarrow> 'w \<Rightarrow> ((int \<times> int) \<times> 'w) option" where
  "RdbStore_BatchInsert_rows batchInsert outInsertNum rows w = do {
     ((errCode, count), w1) \<leftarrow> batchInsert (ValuesBuckets_of rows) w;
     Some ((errCode, if errCode = E_OK then count else outInsertNum), w1)
   }"

definition Transaction_BatchInsert_rows ::
    "('c, 's) db_ops \<Rightarrow> string \<Rightarrow> values_bucket list \<Rightarrow> ('c, 'r) transaction \<Rightarrow> ((int \<times> int) \<times> ('c, 'r) transaction) option" where
  "Transaction_BatchInsert_rows D tbl rows =
     on_store (E_ALREADY_CLOSED, -1)
       (\<lambda>td conn. map_option (\<lambda>(r, conn1). (r, td, conn1))
          (RdbStore_BatchInsert_rows (\<lambda>b c. map_option (\<lambda>(r, _, c1). (r, c1)) (TransDB_BatchInsert D tbl b td c)) 0 rows conn))"

definition Transaction_BatchInsert ::
    "('c, 's) db_ops \<Rightarrow> string \<Rightarrow> values_buckets \<Rightarrow> ('c, 'r) transaction \<Rightarrow> ((int \<times> int) \<times> ('c, 'r) transaction) option" where
  "Transaction_BatchInsert D tbl rows =
     on_store (E_ALREADY_CLOSED, -1)
       (\<lambda>td conn. map_option (\<lambda>(r, _, conn1). (r, td, conn1)) (TransDB_BatchInsert D tbl rows td conn))"

definition Transaction_BatchInsert_returning ::
    "('c, 's) db_ops \<Rightarrow> string \<Rightarrow> values_buckets \<Rightarrow> returning_config \<Rightarrow> ConflictResolution \<Rightarrow> ('c, 'r) transaction \<Rightarrow>
     ((int \<times> results) \<times> ('c, 'r) transaction) option" where
  "Transaction_BatchInsert_returning D tbl rows config resolution =
     on_store (E_ALREADY_CLOSED, no_results (-1))
       (\<lambda>td conn. map_option (\<lambda>(r, _, conn1). (r, td, conn1)) (TransDB_BatchInsert_returning D tbl rows config resolution td conn))"

definition Transaction_BatchInsert_resolution ::
    "('c, 's) db_ops \<Rightarrow> string \<Rightarrow> values_buckets \<Rightarrow> ConflictResolution \<Rightarrow> ('c, 'r) transaction \<Rightarrow> ((int \<times> int) \<times> ('c, 'r) transaction) option" where
  "Transaction_BatchInsert_resolution D tbl rows resolution t = do {
     ((code, result), t1) \<leftarrow> Transaction_BatchInsert_returning D tbl rows ReturningConfig_new resolution t;
     Some ((code, changed result), t1)
   }"

definition Transaction_Update ::
    "('c, 's) db_ops \<Rightarrow> values_bucket \<Rightarrow> abs_rdb_predicates \<Rightarrow> returning_config \<Rightarrow> ConflictResolution \<Rightarrow> ('c, 'r) transaction \<Rightarrow>
     ((int \<times> results) \<times> ('c, 'r) transaction) option" where
  "Transaction_Update D row p config resolution =
     on_store (E_ALREADY_CLOSED, no_results (-1))
       (\<lambda>td conn. let (r, conn1) = TransDB_Update D row p config resolution conn in Some (r, td, conn1))"

text \<open>Predicates of a table with a where clause and its arguments.\<close>

definition predicates_where :: "string \<Rightarrow> string \<Rightarrow> value_object list \<Rightarrow> abs_rdb_predicates" where
  "predicates_where tbl wher args = SetBindArgs args (SetWhereClause wher (AbsRdbPredicates_table tbl))"

definition Transaction_Update_changed ::
    "('c, 's) db_ops \<Rightarrow> values_bucket \<Rightarrow> abs_rdb_predicates \<Rightarrow> ConflictResolution \<Rightarrow> ('c, 'r) transaction \<Rightarrow>
     ((int \<times> int) \<times> ('c, 'r) transaction) option" where
  "Transaction_Update_changed D row p resolution t = do {
     ((code, result), t1) \<leftarrow> Transaction_Update D row p ReturningConfig_new resolution t;
     Some ((code, changed result), t1)
   }"

definition Transaction_Update_where ::
    "('c, 's) db_ops \<Rightarrow> string \<Rightarrow> values_bucket \<Rightarrow> string \<Rightarrow> value_object list \<Rightarrow> ConflictResolution \<Rightarrow> ('c, 'r) transaction \<Rightarrow>
     ((int \<times> int) \<times> ('c, 'r) transaction) option" where
  "Transaction_Update_where D tbl row wher args resolution t =
     Transaction_Update_changed D row (predicates_where tbl wher args) resolution t"

definition Transaction_Delete ::
    "('c, 's) db_ops \<Rightarrow> abs_rdb_predicates \<Rightarrow> returning_config \<Rightarrow> ('c, 'r) transaction \<Rightarrow> ((int \<times> results) \<times> ('c, 'r) transaction) option" where
  "Transaction_Delete D p config =
     on_store (E_ALREADY_CLOSED, no_results (-1)) (\<lambda>td conn. let (r, conn1) = TransDB_Delete D p config conn in Some (r, td, conn1))"

definition Transaction_Delete_changed ::
    "('c, 's) db_ops \<Rightarrow> abs_rdb_predicates \<Rightarrow> ('c, 'r) transaction \<Rightarrow> ((int \<times> int) \<times> ('c, 'r) transaction) option" where
  "Transaction_Delete_changed D p t = do {
     ((code, result), t1) \<leftarrow> Transaction_Delete D p ReturningConfig_new t;
     Some ((code, changed result), t1)
   }"

definition Transaction_Delete_where ::
    "('c, 's) db_ops \<Rightarrow> string \<Rightarrow> string \<Rightarrow> value_object list \<Rightarrow> ('c, 'r) transaction \<Rightarrow> ((int \<times> int) \<times> ('c, 'r) transaction) option" where
  "Transaction_Delete_where D tbl wher args t = Transaction_Delete_changed D (predicates_where tbl wher args) t"

definition Transaction_Execute ::
    "('c, 's) db_ops \<Rightarrow> string \<Rightarrow> value_object list \<Rightarrow> ('c, 'r) transaction \<Rightarrow> ((int \<times> value_object) \<times> ('c, 'r) transaction) option" where
  "Transaction_Execute D sql args = on_store (E_ALREADY_CLOSED, VNull) (TransDB_Execute D sql args)"

definition Transaction_ExecuteExt ::
    "('c, 's) db_ops \<Rightarrow> string \<Rightarrow> value_object list \<Rightarrow> ('c, 'r) transaction \<Rightarrow> ((int \<times> results) \<times> ('c, 'r) transaction) option" where
  "Transaction_ExecuteExt D sql args = on_store (E_ALREADY_CLOSED, no_results (-1)) (TransDB_ExecuteExt D sql args)"

definition AddResultSet :: "'r \<Rightarrow> ('c, 'r) transaction \<Rightarrow> ('c, 'r) transaction" where
  "AddResultSet resultSet t = t\<lparr>tx_resultSets := tx_resultSets t @ [resultSet]\<rparr>"

definition Transaction_QueryByStep ::
    "('c, 'r) result_ops \<Rightarrow> string \<Rightarrow> value_object list \<Rightarrow> query_options \<Rightarrow> ('c, 'r) transaction \<Rightarrow> 'r option \<times> ('c, 'r) transaction" where
  "Transaction_QueryByStep R sql args options t =
     (case tx_store t of
        None \<Rightarrow> (None, t)
      | Some td \<Rightarrow>
          (let resultSet = TransDB_QueryByStep R sql args options (tx_connection t) in (Some resultSet, AddResultSet resultSet t)))"

text \<open>A query by predicates: \<open>#_\<close> marks the fields that are joined from the log table.\<close>

definition ColHasSpecificField :: "string list \<Rightarrow> bool" where
  "ColHasSpecificField columns = list_ex (\<lambda>column. str_find ''#_'' column \<noteq> None) columns"

definition RdbStore_GetLogTableName :: "string \<Rightarrow> string" where
  "RdbStore_GetLogTableName tbl = ''naturalbase_rdb_aux_'' @ tbl @ ''_log''"

definition QueryByStep_sql :: "string \<Rightarrow> abs_rdb_predicates \<Rightarrow> string list \<Rightarrow> string" where
  "QueryByStep_sql joinClause p columns =
     (if ColHasSpecificField columns \<or> hasSpecificField p
      then BuildLockRowQueryString p columns (RdbStore_GetLogTableName (tableName p))
      else BuildQueryString joinClause p columns)"

definition Transaction_QueryByStep_predicates ::
    "('c, 'r) result_ops \<Rightarrow> string \<Rightarrow> abs_rdb_predicates \<Rightarrow> string list \<Rightarrow> query_options \<Rightarrow> ('c, 'r) transaction \<Rightarrow>
     'r option \<times> ('c, 'r) transaction" where
  "Transaction_QueryByStep_predicates R joinClause p columns options t =
     Transaction_QueryByStep R (QueryByStep_sql joinClause p columns) (bindArgs p) options t"

definition Transaction_GetLastErrorMsg :: "('c, 's) db_ops \<Rightarrow> ('c, 'r) transaction \<Rightarrow> string" where
  "Transaction_GetLastErrorMsg D t =
     (case tx_store t of None \<Rightarrow> [] | Some _ \<Rightarrow> TransDB_GetLastErrorMsg D (tx_connection t))"

section \<open>A transactional database\<close>

text \<open>
  What a transaction relies on. The database of a connection has a content, and \<open>saved\<close> is the content at
  the start of the open transaction, if one is open. \<open>BEGIN\<close> opens a transaction where none is open,
  \<open>COMMIT\<close> keeps the content and \<open>ROLLBACK\<close> restores it, if they succeed. Every other statement leaves
  the saved content alone or, as a conflict that is resolved by a rollback does, ends the transaction.
  No other connection changes the content in between.
\<close>

definition keeps_saved :: "('c \<Rightarrow> 'db option) \<Rightarrow> 'c \<Rightarrow> 'c \<Rightarrow> bool" where
  "keeps_saved saved c c1 \<longleftrightarrow> saved c1 = saved c \<or> saved c1 = None"

abbreviation ordinary :: "string \<Rightarrow> bool" where "ordinary sql \<equiv> \<not> IsSpecial (GetSqlStatementType sql)"

definition transactional :: "('c, 's) db_ops \<Rightarrow> ('c \<Rightarrow> 'db) \<Rightarrow> ('c \<Rightarrow> 'db option) \<Rightarrow> ('s \<Rightarrow> string) \<Rightarrow> bool" where
  "transactional D content saved txt \<longleftrightarrow>
     (\<forall>sql ret c e s. d_CreateStatement D sql ret c = (e, Some s) \<longrightarrow> txt s = sql @ ret) \<and>
     (\<forall>args s c e s1 c1. d_Execute D args s c = (e, s1, c1) \<longrightarrow> txt s1 = txt s
        \<and> (ordinary (txt s) \<longrightarrow> keeps_saved saved c c1)
        \<and> (txt s \<in> set BEGIN_SQLS \<longrightarrow> (if e = E_OK then saved c = None \<and> saved c1 = Some (content c) \<and> content c1 = content c else saved c1 = saved c))
        \<and> (txt s = ''COMMIT;'' \<longrightarrow> e = E_OK \<longrightarrow> saved c \<noteq> None \<and> saved c1 = None \<and> content c1 = content c)
        \<and> (txt s = ''ROLLBACK;'' \<longrightarrow> e = E_OK \<longrightarrow> saved c \<noteq> None \<and> saved c1 = None \<and> content c1 = the (saved c))) \<and>
     (\<forall>args m s c r s1 c1. d_ExecuteForRows D args m s c = (r, s1, c1) \<longrightarrow> txt s1 = txt s \<and> (ordinary (txt s) \<longrightarrow> keeps_saved saved c c1)) \<and>
     (\<forall>args s c r s1 c1. d_ExecuteForValue D args s c = (r, s1, c1) \<longrightarrow> ordinary (txt s) \<longrightarrow> keeps_saved saved c c1) \<and>
     (\<forall>sql s c e s1. d_Prepare D sql s c = (e, s1) \<longrightarrow> txt s1 = sql \<or> txt s1 = txt s) \<and>
     (\<forall>s c. txt (d_Reset D s c) = txt s)"

lemma transactionalD:
  assumes "transactional D content saved txt"
  shows "d_CreateStatement D sql ret c = (e, Some s) \<Longrightarrow> txt s = sql @ ret"
    "d_Execute D args s c = (e, s1, c1) \<Longrightarrow> txt s1 = txt s"
    "d_Execute D args s c = (e, s1, c1) \<Longrightarrow> ordinary (txt s) \<Longrightarrow> keeps_saved saved c c1"
    "d_Execute D args s c = (E_OK, s1, c1) \<Longrightarrow> txt s \<in> set BEGIN_SQLS \<Longrightarrow> saved c = None \<and> saved c1 = Some (content c) \<and> content c1 = content c"
    "d_Execute D args s c = (E_OK, s1, c1) \<Longrightarrow> txt s = ''COMMIT;'' \<Longrightarrow> saved c \<noteq> None \<and> saved c1 = None \<and> content c1 = content c"
    "d_Execute D args s c = (E_OK, s1, c1) \<Longrightarrow> txt s = ''ROLLBACK;'' \<Longrightarrow> saved c \<noteq> None \<and> saved c1 = None \<and> content c1 = the (saved c)"
    "d_ExecuteForRows D args m s c = (r, s1, c1) \<Longrightarrow> txt s1 = txt s"
    "d_ExecuteForRows D args m s c = (r, s1, c1) \<Longrightarrow> ordinary (txt s) \<Longrightarrow> keeps_saved saved c c1"
    "d_ExecuteForValue D args s c = (v, s1, c1) \<Longrightarrow> ordinary (txt s) \<Longrightarrow> keeps_saved saved c c1"
    "d_Prepare D sql s c = (e, s1) \<Longrightarrow> txt s1 = sql \<or> txt s1 = txt s" "txt (d_Reset D s c) = txt s"
  using assms unfolding transactional_def by metis+

lemma keeps_saved_trans: "keeps_saved saved c c1 \<Longrightarrow> keeps_saved saved c1 c2 \<Longrightarrow> keeps_saved saved c c2"
  by (auto simp: keeps_saved_def)

lemma keeps_saved_refl [simp]: "keeps_saved saved c c"
  by (simp add: keeps_saved_def)

text \<open>The statements that the operations write are ordinary.\<close>

lemma ordinary_prefix: "ordinary (''INSERT'' @ x)" "ordinary (''UPDATE'' @ x)" "ordinary (''DELETE'' @ x)" "ordinary (''PRAGMA'' @ x)"
  using statement_type_by_prefix [of "[]" "''INSERT'' @ x"] statement_type_by_prefix [of "[]" "''UPDATE'' @ x"]
    statement_type_by_prefix [of "[]" "''DELETE'' @ x"] statement_type_by_prefix [of "[]" "''PRAGMA'' @ x"]
  by (simp_all add: is_space_def is_cntrl_def StrToUpper_def to_upper_def c_str_def SQL_TYPE_MAP_def IsSpecial_def
      STATEMENT_INSERT_def STATEMENT_UPDATE_def STATEMENT_PRAGMA_def STATEMENT_BEGIN_def STATEMENT_COMMIT_def STATEMENT_ROLLBACK_def)

text \<open>What the operations of the store do to a connection, for ordinary statements.\<close>

definition conn_kept :: "('c \<Rightarrow> 'db option) \<Rightarrow> 'c option \<Rightarrow> 'c option \<Rightarrow> bool" where
  "conn_kept saved conn conn1 \<longleftrightarrow> (\<forall>c. conn = Some c \<longrightarrow> (\<exists>c1. conn1 = Some c1 \<and> keeps_saved saved c c1))"

lemma conn_kept_refl [simp]: "conn_kept saved conn conn"
  by (simp add: conn_kept_def)

lemma conn_kept_Some: "conn = Some c \<Longrightarrow> keeps_saved saved c c1 \<Longrightarrow> conn_kept saved conn (Some c1)"
  by (simp add: conn_kept_def)

lemma conn_kept_trans: "conn_kept saved a b \<Longrightarrow> conn_kept saved b c \<Longrightarrow> conn_kept saved a c"
  by (fastforce simp: conn_kept_def intro: keeps_saved_trans)

lemma TransDB_GetStatement_Some:
  assumes "transactional D content saved txt" "TransDB_GetStatement D sql ret conn = (e, Some s)"
  shows "\<exists>c. conn = Some c \<and> txt s = sql @ ret"
  using assms(2) transactionalD(1) [OF assms(1)] by (auto simp: TransDB_GetStatement_def split: option.splits)

lemma execute_kept:
  assumes T: "transactional D content saved txt" and "TransDB_GetStatement D sql ret conn = (e, Some s)" "ordinary (sql @ ret)"
    and "d_Execute D args s (the conn) = (e1, s1, c1)"
  shows "conn_kept saved conn (Some c1)" "txt s1 = sql @ ret"
  using TransDB_GetStatement_Some [OF T assms(2)] transactionalD(2,3) [OF T assms(4)] assms(3) by (auto simp: conn_kept_def)

lemma execute_for_rows_kept:
  assumes T: "transactional D content saved txt" and "ordinary (sql @ GetReturningSql (rc_columns config))"
  shows "conn_kept saved conn (snd (execute_for_rows D sql args config conn))"
proof -
  obtain e stmt where g: "TransDB_GetStatement D sql (GetReturningSql (rc_columns config)) conn = (e, stmt)" by fastforce
  show ?thesis
  proof (cases stmt)
    case (Some st)
    obtain c where c: "conn = Some c" "txt st = sql @ GetReturningSql (rc_columns config)" using TransDB_GetStatement_Some [OF T] g Some by blast
    obtain r s1 c1 where x: "d_ExecuteForRows D args (maxReturningCount config) st c = (r, s1, c1)" by (metis prod_cases3)
    then have "keeps_saved saved c c1" using transactionalD(8) [OF T x] c assms(2) by simp
    then show ?thesis using g Some c(1) x by (auto simp: execute_for_rows_def conn_kept_def split: prod.splits)
  qed (use g in \<open>simp add: execute_for_rows_def\<close>)
qed

lemma TransDB_Insert_kept:
  assumes T: "transactional D content saved txt" and "TransDB_Insert D tbl row resolution conn = Some (r, row1, conn1)"
  shows "conn_kept saved conn conn1"
proof -
  let ?l = "insert_loop resolution row [] (''INSERT'' @ g_onConflictClause ! resolution_index resolution @ '' INTO '' @ tbl @ ''('') []"
  have x: "\<exists>x. sql = ''INSERT'' @ x" if "?l = (Some (sql, args), row2)" for sql args row2
    using insert_loop_result [of resolution row "[]" "''INSERT'' @ g_onConflictClause ! resolution_index resolution @ '' INTO '' @ tbl @ ''(''" "[]"] that
    by (auto split: if_splits)
  show ?thesis
  proof (cases "tbl = [] \<or> IsEmpty row \<or> fst ?l = None")
    case True
    then show ?thesis using assms(2) by (auto simp: TransDB_Insert_def resolution_clause split: if_splits prod.splits option.splits)
  next
    case False
    then obtain sql args row2 where l: "?l = (Some (sql, args), row2)" by (cases ?l) auto
    then obtain marks where m: "insert_marks_of args = Some marks"
      using assms(2) False by (auto simp: TransDB_Insert_def resolution_clause split: Option.bind_splits)
    obtain e stmt where g: "TransDB_GetStatement D (sql @ '') VALUES ('' @ marks @ '')'') [] conn = (e, stmt)" by fastforce
    show ?thesis
    proof (cases stmt)
      case None
      then show ?thesis using assms(2) False l m g by (simp add: TransDB_Insert_def resolution_clause)
    next
      case (Some st)
      obtain e1 s1 c1 where ex: "d_Execute D args st (the conn) = (e1, s1, c1)" by (metis prod_cases3)
      have "ordinary ((sql @ '') VALUES ('' @ marks @ '')'') @ [])" using x [OF l] ordinary_prefix(1) by auto
      from execute_kept(1) [OF T g [unfolded Some] this ex] show ?thesis
        using assms(2) False l m g Some ex by (auto simp: TransDB_Insert_def resolution_clause split: if_splits)
    qed
  qed
qed

lemma execute_all_kept:
  assumes T: "transactional D content saved txt" and "ordinary (txt s)" "execute_all D argss s c = (r, s1, c1)"
  shows "keeps_saved saved c c1"
  using assms(2,3)
proof (induction argss arbitrary: s c)
  case (Cons args argss)
  obtain e s2 c2 where x: "d_Execute D args s c = (e, s2, c2)" by (metis prod_cases3)
  show ?case using Cons.IH [of s2 c2] Cons.prems x transactionalD(2,3) [OF T x] by (auto split: if_splits intro: keeps_saved_trans)
qed simp

lemma batch_loop_kept:
  assumes T: "transactional D content saved txt" and "list_all (\<lambda>(sql, _). ordinary sql) bs" "batch_loop D bs conn = (r, conn1)"
  shows "conn_kept saved conn conn1"
  using assms(2,3)
proof (induction bs arbitrary: conn)
  case (Cons b bs)
  obtain sql argss where b: "b = (sql, argss)" by fastforce
  obtain e stmt where g: "TransDB_GetStatement D sql [] conn = (e, stmt)" by fastforce
  show ?case
  proof (cases stmt)
    case (Some st)
    obtain c where c: "conn = Some c" "txt st = sql" using TransDB_GetStatement_Some [OF T g [unfolded Some]] by auto
    obtain r1 s1 c1 where x: "execute_all D argss st c = (r1, s1, c1)" by (metis prod_cases3)
    have k: "conn_kept saved conn (Some c1)" using execute_all_kept [OF T _ x] Cons.prems(1) c b by (auto simp: conn_kept_def)
    show ?thesis
    proof (cases r1)
      case None
      then have "conn_kept saved (Some c1) conn1" using Cons.IH [of "Some c1"] Cons.prems g Some c x b by simp
      then show ?thesis using k conn_kept_trans by blast
    qed (use Cons.prems g Some c x b k in auto)
  qed (use Cons.prems b g in auto)
qed simp

lemma butlast_prefix: "x \<noteq> [] \<Longrightarrow> \<exists>y. butlast (pre @ x) = pre @ y"
  by (simp add: butlast_append)

lemma GenerateSqls_fields_text:
  "snd (snd (GenerateSqls_fields flds k n m b args sql)) = sql @ concat (map (\<lambda>f. f @ '','') flds)"
  by (induction flds arbitrary: k b args sql) (simp_all add: case_prod_beta)

lemma MakeExecuteSqls_prefix:
  assumes "MakeExecuteSqls (pre @ x) args n limit = Some bs" "x \<noteq> []"
  shows "list_all (\<lambda>(sql, _). \<exists>y. sql = pre @ y) bs"
proof -
  have "\<exists>y. appendAgsSql a (pre @ x) k = pre @ y" for a k
    using butlast_prefix [of "x @ z" pre for z] assms(2) by (simp add: appendAgsSql_def)
  then show ?thesis using assms(1) by (auto simp: MakeExecuteSqls_def Let_def split: if_splits option.splits prod.splits)
qed

lemma GenerateSqls_ordinary:
  assumes "GenerateSqls tbl rows limit resolution = (Some bs, rows1)"
  shows "list_all (\<lambda>(sql, _). \<exists>y. sql = ''INSERT'' @ y) bs"
proof -
  let ?x = "g_onConflictClause ! resolution_index resolution @ '' INTO '' @ tbl @ '' (''"
  let ?f = "concat (map (\<lambda>f. f @ '','') (vbs_fields rows))"
  obtain args1 where "MakeExecuteSqls (butlast (''INSERT'' @ ?x @ ?f) @ '') VALUES '') args1 (to_i32 (int (length (vbs_fields rows)))) limit = Some bs"
    using assms GenerateSqls_fields_text [of "vbs_fields rows"] by (auto simp: GenerateSqls_def Let_def case_prod_beta)
  moreover obtain y where "butlast (''INSERT'' @ ?x @ ?f) = ''INSERT'' @ y" using butlast_prefix [of "?x @ ?f" "''INSERT''"] by auto
  ultimately have "MakeExecuteSqls (''INSERT'' @ y @ '') VALUES '') args1 (to_i32 (int (length (vbs_fields rows)))) limit = Some bs" by (metis append.assoc)
  from MakeExecuteSqls_prefix [OF this] show ?thesis by simp
qed

lemma batch_values_ordinary:
  assumes "GenerateSqls tbl rows limit resolution = (Some bs, rows1)"
  shows "list_all (\<lambda>(sql, _). \<exists>y. sql = ''INSERT'' @ y) (batch_values b bs)"
  using GenerateSqls_ordinary [OF assms] by (auto simp: batch_values_def list_all_iff)

lemma TransDB_BatchInsert_kept:
  assumes T: "transactional D content saved txt" and "TransDB_BatchInsert D tbl rows td conn = Some (r, rows1, conn1)"
  shows "conn_kept saved conn conn1"
proof -
  obtain batch rows2 where g: "GenerateSqls tbl rows (td_maxArgs td) ON_CONFLICT_REPLACE = (batch, rows2)" by fastforce
  have "conn_kept saved conn conn2" if "batch = Some bs" "batch_loop D (batch_values rows2 bs) conn = (e, conn2)" for bs e conn2
  proof (rule batch_loop_kept [OF T _ that(2)])
    have "list_all (\<lambda>(sql, _). \<exists>y. sql = ''INSERT'' @ y) (batch_values rows2 bs)" using batch_values_ordinary g that(1) by blast
    then show "list_all (\<lambda>(sql, _). ordinary sql) (batch_values rows2 bs)"
      unfolding list_all_iff case_prod_beta using ordinary_prefix(1) by metis
  qed
  then show ?thesis using assms(2) g
    by (cases "RowSize rows = 0"; cases batch) (auto simp: TransDB_BatchInsert_def split: if_splits prod.splits option.splits)
qed

lemma execute_rows_kept:
  assumes T: "transactional D content saved txt" and "TransDB_GetStatement D sql ret conn = (e, Some s)" "ordinary (sql @ ret)"
    and "d_ExecuteForRows D args m s (the conn) = (r, s1, c1)"
  shows "conn_kept saved conn (Some c1)" "txt s1 = sql @ ret"
  using TransDB_GetStatement_Some [OF T assms(2)] transactionalD(7,8) [OF T assms(4)] assms(3) by (auto simp: conn_kept_def)

lemma TransDB_BatchInsert_returning_kept:
  assumes T: "transactional D content saved txt"
    and "TransDB_BatchInsert_returning D tbl rows config resolution td conn = Some (r, rows1, conn1)"
  shows "conn_kept saved conn conn1"
proof -
  obtain batch rows2 where g: "GenerateSqls tbl rows (td_maxArgs td) resolution = (batch, rows2)" by fastforce
  let ?ret = "GetReturningSql (rc_columns config)"
  show ?thesis
  proof (cases "RowSize rows = 0")
    case False
    then obtain bs where bs: "batch = Some bs" using assms(2) g by (auto simp: TransDB_BatchInsert_returning_def)
    show ?thesis
    proof (cases "length bs \<noteq> 1 \<or> length (snd (hd bs)) \<noteq> 1")
      case one: False
      then obtain sql bindArgs1 where h: "hd (batch_values rows2 bs) = (sql, bindArgs1)" "batch_values rows2 bs \<noteq> []"
        by (cases "hd (batch_values rows2 bs)"; cases bs) (auto simp: batch_values_def)
      have "list_all (\<lambda>(sql, _). \<exists>y. sql = ''INSERT'' @ y) (batch_values rows2 bs)" using batch_values_ordinary g bs by blast
      then obtain y where "sql = ''INSERT'' @ y" using h by (cases "batch_values rows2 bs") auto
      then have o: "ordinary (sql @ ?ret)" using ordinary_prefix(1) by simp
      obtain e stmt where st: "TransDB_GetStatement D sql ?ret conn = (e, stmt)" by fastforce
      show ?thesis
      proof (cases stmt)
        case (Some st1)
        obtain v s1 c1 where x: "d_ExecuteForRows D (hd bindArgs1) (maxReturningCount config) st1 (the conn) = (v, s1, c1)" by (metis prod_cases3)
        from execute_rows_kept(1) [OF T st [unfolded Some] o x] show ?thesis
          using assms(2) g bs False one h(1) st Some x by (cases v) (simp add: TransDB_BatchInsert_returning_def)
      qed (use assms(2) g bs False one h(1) st in \<open>simp add: TransDB_BatchInsert_returning_def\<close>)
    qed (use assms(2) g bs False in \<open>simp add: TransDB_BatchInsert_returning_def\<close>)
  qed (use assms(2) in \<open>simp add: TransDB_BatchInsert_returning_def\<close>)
qed

lemma TransDB_Update_kept:
  assumes "transactional D content saved txt"
  shows "conn_kept saved conn (snd (TransDB_Update D row p config resolution conn))"
proof -
  have "ordinary (add_where_clause (''UPDATE'' @ x) w @ ret)" for x w ret
    using ordinary_prefix(2) by (simp add: add_where_clause_def)
  then show ?thesis using execute_for_rows_kept [OF assms]
    by (simp add: TransDB_Update_def resolution_clause update_loop_result)
qed

lemma TransDB_Delete_kept:
  assumes "transactional D content saved txt"
  shows "conn_kept saved conn (snd (TransDB_Delete D p config conn))"
proof -
  have "ordinary (add_where_clause (''DELETE FROM '' @ x) w @ ret)" for x w ret
    using ordinary_prefix(3) [of "'' FROM '' @ y" for y] by (simp add: add_where_clause_def)
  then show ?thesis using execute_for_rows_kept [OF assms] by (simp add: TransDB_Delete_def)
qed

lemma HandleSchemaDDL_kept:
  assumes T: "transactional D content saved txt" and "ordinary (txt s)" "TransDB_HandleSchemaDDL D s td c = Some (td1, c1)"
  shows "keeps_saved saved c c1"
proof -
  obtain e s2 where p: "d_Prepare D ''PRAGMA schema_version'' (d_Reset D s c) c = (e, s2)" by fastforce
  obtain v s3 c3 where x: "d_ExecuteForValue D [] s2 c = (v, s3, c3)" by (metis prod_cases3)
  have "ordinary (txt s2)"
    using transactionalD(10) [OF T p] transactionalD(11) [OF T, of s c] assms(2) ordinary_prefix(4) [of "'' schema_version''"] by auto
  from transactionalD(9) [OF T x this] show ?thesis using assms(3) p x by (auto simp: TransDB_HandleSchemaDDL_def split: prod.splits)
qed

lemma schema_kept:
  assumes T: "transactional D content saved txt" and "ordinary (txt s)" "TransDB_HandleSchemaDDL D s td c = Some (td1, c1)"
    and "conn_kept saved conn (Some c)"
  shows "conn_kept saved conn (Some c1)"
  using HandleSchemaDDL_kept [OF assms(1-3)] conn_kept_trans [OF assms(4), of "Some c1"] by (simp add: conn_kept_def)

lemma TransDB_Execute_kept:
  assumes T: "transactional D content saved txt" and o: "ordinary sql" and r: "TransDB_Execute D sql args td conn = Some (r, td1, conn1)"
  shows "conn_kept saved conn conn1"
proof -
  let ?ty = "GetSqlStatementType sql"
  obtain e stmt where g: "TransDB_GetStatement D sql [] conn = (e, stmt)" by fastforce
  show ?thesis
  proof (cases "\<not> IsSupportSqlForExecute ?ty \<or> e \<noteq> E_OK")
    case True
    then show ?thesis using r g o by (auto simp: TransDB_Execute_def Let_def split: if_splits)
  next
    case False
    then obtain s where s: "stmt = Some s" using r g by (cases stmt) (auto simp: TransDB_Execute_def Let_def)
    obtain e1 s1 c1 where x: "d_Execute D args s (the conn) = (e1, s1, c1)" by (metis prod_cases3)
    have k: "conn_kept saved conn (Some c1)" "txt s1 = sql" using execute_kept [OF T g [unfolded s] _ x] o by auto
    show ?thesis
    proof (cases "e1 = E_OK \<and> ?ty = STATEMENT_DDL")
      case True
      have "conn_kept saved conn (Some c2)" if "TransDB_HandleSchemaDDL D s1 td c1 = Some (td2, c2)" for td2 c2
        using schema_kept [OF T _ that k(1)] k(2) o by simp
      then show ?thesis using r g s x False True k(1)
        by (auto simp: TransDB_Execute_def Let_def split: if_splits Option.bind_splits)
    qed (use r g s x False k(1) in \<open>auto simp: TransDB_Execute_def Let_def split: if_splits\<close>)
  qed
qed

lemma TransDB_ExecuteExt_kept:
  assumes T: "transactional D content saved txt" and o: "ordinary sql" and r: "TransDB_ExecuteExt D sql args td conn = Some (r, td1, conn1)"
  shows "conn_kept saved conn conn1"
proof -
  let ?ty = "GetSqlStatementType sql"
  obtain e stmt where g: "TransDB_GetStatement D sql [] conn = (e, stmt)" by fastforce
  show ?thesis
  proof (cases "\<not> IsSupportSqlForExecute ?ty \<or> e \<noteq> E_OK \<or> stmt = None")
    case True
    then show ?thesis using r g o by (auto simp: TransDB_ExecuteExt_def Let_def split: if_splits)
  next
    case False
    then obtain s where s: "stmt = Some s" by auto
    obtain e1 rows s1 c1 where x: "d_ExecuteForRows D args DEFAULT_RETURNING_COUNT s (the conn) = ((e1, rows), s1, c1)" by (metis prod.exhaust)
    have k: "conn_kept saved conn (Some c1)" "txt s1 = sql" using execute_rows_kept [OF T g [unfolded s] _ x] o by auto
    obtain e2 result where e2: "GenerateResult D e1 (Some s1) rows (?ty = STATEMENT_INSERT \<or> ?ty = STATEMENT_UPDATE) FIRST_ROW_INDEX c1 = (e2, result)"
      by fastforce
    show ?thesis
    proof (cases "e2 = E_OK \<and> ?ty = STATEMENT_DDL")
      case True
      have "conn_kept saved conn (Some c2)" if "TransDB_HandleSchemaDDL D s1 td c1 = Some (td2, c2)" for td2 c2
        using schema_kept [OF T _ that k(1)] k(2) o by simp
      then show ?thesis using r g s x False True k(1) e2
        by (auto simp: TransDB_ExecuteExt_def Let_def split: if_splits Option.bind_splits)
    qed (use r g s x False k(1) e2 in \<open>auto simp: TransDB_ExecuteExt_def Let_def split: if_splits\<close>)
  qed
qed

section \<open>Runs of a transaction\<close>

text \<open>The operations a client may call between the start and the end of a transaction, and their results.\<close>

datatype tx_op =
    TxInsert string values_bucket ConflictResolution
  | TxBatchInsert_rows string "values_bucket list"
  | TxBatchInsert string values_buckets
  | TxBatchInsert_returning string values_buckets returning_config ConflictResolution
  | TxUpdate values_bucket abs_rdb_predicates returning_config ConflictResolution
  | TxDelete abs_rdb_predicates returning_config
  | TxExecute string "value_object list"
  | TxExecuteExt string "value_object list"
  | TxQueryByStep string "value_object list" query_options

datatype 'r tx_result = CountResult int int | RowsResult int results | ValueResult int value_object | SetResult "'r option"

fun tx_exec ::
    "('c, 's) db_ops \<Rightarrow> ('c, 'r) result_ops \<Rightarrow> tx_op \<Rightarrow> ('c, 'r) transaction \<Rightarrow> ('r tx_result \<times> ('c, 'r) transaction) option" where
  "tx_exec D R (TxInsert tbl row resolution) t = map_option (map_prod (\<lambda>(e, n). CountResult e n) id) (Transaction_Insert D tbl row resolution t)"
| "tx_exec D R (TxBatchInsert_rows tbl rows) t = map_option (map_prod (\<lambda>(e, n). CountResult e n) id) (Transaction_BatchInsert_rows D tbl rows t)"
| "tx_exec D R (TxBatchInsert tbl rows) t = map_option (map_prod (\<lambda>(e, n). CountResult e n) id) (Transaction_BatchInsert D tbl rows t)"
| "tx_exec D R (TxBatchInsert_returning tbl rows config resolution) t =
     map_option (map_prod (\<lambda>(e, r). RowsResult e r) id) (Transaction_BatchInsert_returning D tbl rows config resolution t)"
| "tx_exec D R (TxUpdate row p config resolution) t = map_option (map_prod (\<lambda>(e, r). RowsResult e r) id) (Transaction_Update D row p config resolution t)"
| "tx_exec D R (TxDelete p config) t = map_option (map_prod (\<lambda>(e, r). RowsResult e r) id) (Transaction_Delete D p config t)"
| "tx_exec D R (TxExecute sql args) t = map_option (map_prod (\<lambda>(e, v). ValueResult e v) id) (Transaction_Execute D sql args t)"
| "tx_exec D R (TxExecuteExt sql args) t = map_option (map_prod (\<lambda>(e, r). RowsResult e r) id) (Transaction_ExecuteExt D sql args t)"
| "tx_exec D R (TxQueryByStep sql args options) t = Some (map_prod SetResult id (Transaction_QueryByStep R sql args options t))"

primrec tx_run :: "('c, 's) db_ops \<Rightarrow> ('c, 'r) result_ops \<Rightarrow> tx_op list \<Rightarrow> ('c, 'r) transaction \<Rightarrow> ('c, 'r) transaction option" where
  "tx_run D R [] t = Some t"
| "tx_run D R (op # ops) t = do { (_, t1) \<leftarrow> tx_exec D R op t; tx_run D R ops t1 }"

text \<open>An operation that is not given a statement that starts or ends a transaction.\<close>

fun ordinary_op :: "tx_op \<Rightarrow> bool" where
  "ordinary_op (TxExecute sql args) = ordinary sql"
| "ordinary_op (TxExecuteExt sql args) = ordinary sql"
| "ordinary_op _ = True"

text \<open>The result of an operation of a transaction that has ended.\<close>

fun refused :: "tx_op \<Rightarrow> 'r tx_result" where
  "refused (TxInsert _ _ _) = CountResult E_ALREADY_CLOSED (-1)"
| "refused (TxBatchInsert_rows _ _) = CountResult E_ALREADY_CLOSED (-1)"
| "refused (TxBatchInsert _ _) = CountResult E_ALREADY_CLOSED (-1)"
| "refused (TxExecute _ _) = ValueResult E_ALREADY_CLOSED VNull"
| "refused (TxQueryByStep _ _ _) = SetResult None"
| "refused _ = RowsResult E_ALREADY_CLOSED (no_results (-1))"

text \<open>An open transaction has its store and its connection; the content at its start is still saved, unless a statement ended it.\<close>

definition tx_open :: "('c \<Rightarrow> 'db option) \<Rightarrow> 'db \<Rightarrow> ('c, 'r) transaction \<Rightarrow> bool" where
  "tx_open saved snap t \<longleftrightarrow> tx_store t \<noteq> None \<and> (\<exists>c. tx_connection t = Some c \<and> (saved c = Some snap \<or> saved c = None))"

lemma on_store_open:
  assumes "tx_open saved snap t" "on_store x f t = Some (r, t1)"
    and "\<And>td conn v td1 conn1. f td conn = Some (v, td1, conn1) \<Longrightarrow> conn_kept saved conn conn1"
  shows "tx_open saved snap t1"
proof -
  obtain td c where t: "tx_store t = Some td" "tx_connection t = Some c" "saved c = Some snap \<or> saved c = None"
    using assms(1) by (auto simp: tx_open_def)
  then obtain v td1 conn1 where f: "f td (Some c) = Some (v, td1, conn1)" "t1 = t\<lparr>tx_store := Some td1, tx_connection := conn1\<rparr>"
    using assms(2) by (auto simp: on_store_def split: Option.bind_splits)
  from assms(3) [OF f(1)] t f(2) show ?thesis by (auto simp: tx_open_def conn_kept_def keeps_saved_def)
qed

lemma tx_exec_open:
  assumes T: "transactional D content saved txt" and w: "tx_open saved snap t" and "ordinary_op op" "tx_exec D R op t = Some (r, t1)"
  shows "tx_open saved snap t1"
  using assms(3,4)
proof (cases op)
  case (TxInsert tbl row resolution)
  then have "\<exists>v. Transaction_Insert D tbl row resolution t = Some (v, t1)" using assms(4) by auto
  then show ?thesis unfolding Transaction_Insert_def
    by (elim exE) (erule on_store_open [OF w], auto dest: TransDB_Insert_kept [OF T])
next
  case (TxBatchInsert_rows tbl rows)
  then have "\<exists>v. Transaction_BatchInsert_rows D tbl rows t = Some (v, t1)" using assms(4) by auto
  then show ?thesis unfolding Transaction_BatchInsert_rows_def RdbStore_BatchInsert_rows_def
    by (elim exE) (erule on_store_open [OF w], auto split: Option.bind_splits dest: TransDB_BatchInsert_kept [OF T])
next
  case (TxBatchInsert tbl rows)
  then have "\<exists>v. Transaction_BatchInsert D tbl rows t = Some (v, t1)" using assms(4) by auto
  then show ?thesis unfolding Transaction_BatchInsert_def
    by (elim exE) (erule on_store_open [OF w], auto dest: TransDB_BatchInsert_kept [OF T])
next
  case (TxBatchInsert_returning tbl rows config resolution)
  then have "\<exists>v. Transaction_BatchInsert_returning D tbl rows config resolution t = Some (v, t1)" using assms(4) by auto
  then show ?thesis unfolding Transaction_BatchInsert_returning_def
    by (elim exE) (erule on_store_open [OF w], auto dest: TransDB_BatchInsert_returning_kept [OF T])
next
  case (TxUpdate row p config resolution)
  then have "\<exists>v. Transaction_Update D row p config resolution t = Some (v, t1)" using assms(4) by auto
  then show ?thesis unfolding Transaction_Update_def
    by (elim exE) (erule on_store_open [OF w], auto simp: case_prod_beta intro: TransDB_Update_kept [OF T])
next
  case (TxDelete p config)
  then have "\<exists>v. Transaction_Delete D p config t = Some (v, t1)" using assms(4) by auto
  then show ?thesis unfolding Transaction_Delete_def
    by (elim exE) (erule on_store_open [OF w], auto simp: case_prod_beta intro: TransDB_Delete_kept [OF T])
next
  case (TxExecute sql args)
  then have "\<exists>v. Transaction_Execute D sql args t = Some (v, t1)" using assms(4) by auto
  then show ?thesis using assms(3) TxExecute unfolding Transaction_Execute_def
    by (elim exE) (erule on_store_open [OF w], auto dest: TransDB_Execute_kept [OF T])
next
  case (TxExecuteExt sql args)
  then have "\<exists>v. Transaction_ExecuteExt D sql args t = Some (v, t1)" using assms(4) by auto
  then show ?thesis using assms(3) TxExecuteExt unfolding Transaction_ExecuteExt_def
    by (elim exE) (erule on_store_open [OF w], auto dest: TransDB_ExecuteExt_kept [OF T])
next
  case (TxQueryByStep sql args options)
  then show ?thesis using assms(4) w
    by (auto simp: Transaction_QueryByStep_def AddResultSet_def tx_open_def Let_def split: option.splits)
qed

lemma tx_run_open:
  assumes "transactional D content saved txt"
  shows "tx_open saved snap t \<Longrightarrow> list_all ordinary_op ops \<Longrightarrow> tx_run D R ops t = Some t1 \<Longrightarrow> tx_open saved snap t1"
  by (induction ops arbitrary: t) (auto split: Option.bind_splits dest: tx_exec_open [OF assms])

text \<open>The statements that start and end a transaction.\<close>

lemma run_statement_cases:
  assumes T: "transactional D content saved txt" and "run_statement D R sql ok failed t = Some (e, t1)"
  obtains (ok) c s s1 c1 where "tx_connection t = Some c" "txt s = sql" "d_Execute D [] s c = (E_OK, s1, c1)" "e = E_OK"
      "t1 = (case ok of None \<Rightarrow> t\<lparr>tx_connection := Some c1\<rparr> | Some recycle \<Rightarrow> CloseInner R recycle (t\<lparr>tx_connection := Some c1\<rparr>))"
    | (failed) c1 where "e \<noteq> E_OK" "t1 = CloseInner R failed (t\<lparr>tx_connection := Some c1\<rparr>)"
proof -
  obtain c where c: "tx_connection t = Some c" using assms(2) by (cases "tx_connection t") (auto simp: run_statement_def)
  obtain e1 stmt where g: "d_CreateStatement D sql [] c = (e1, stmt)" by fastforce
  show ?thesis
  proof (cases "e1 = E_OK")
    case False
    then show ?thesis using assms(2) c g that(2) [of c] by (auto simp: run_statement_def CloseInner_def)
  next
    case True
    then obtain s where s: "stmt = Some s" using assms(2) c g by (cases stmt) (auto simp: run_statement_def)
    obtain e2 s1 c1 where x: "d_Execute D [] s c = (e2, s1, c1)" by (metis prod_cases3)
    have "txt s = sql" using transactionalD(1) [OF T] g s by fastforce
    then show ?thesis using assms(2) c g True s x that(1) [of c s s1 c1] that(2) [of c1]
      by (cases "e2 = E_OK") (auto simp: run_statement_def Let_def)
  qed
qed

lemma BEGIN_SQLS_type: "GetBeginSql type \<noteq> [] \<Longrightarrow> GetBeginSql type \<in> set BEGIN_SQLS"
  by (cases "type = 0 \<or> type = 1 \<or> type = 2") (auto simp: GetBeginSql_def BEGIN_SQLS_def split: if_splits)

lemma Create_cases:
  assumes T: "transactional D content saved txt" and "TransactionImpl_Create D R type c path = Some (e, t)"
  shows "if e = E_OK then saved c = None \<and> tx_open saved (content c) t
         else tx_store t = None \<and> tx_connection t = None \<and> (\<exists>c1. tx_returned t = Some (c1, True))"
proof (cases "GetBeginSql type = []")
  case True
  then show ?thesis using assms(2)
    by (auto simp: TransactionImpl_Create_def Begin_def TransactionImpl_new_def CloseInner_def E_INVALID_ARGS_def E_OK_def E_BASE_def)
next
  case False
  let ?t = "(TransactionImpl_new c path)\<lparr>tx_store := Some (TransDB_new D c path)\<rparr>"
  have "run_statement D R (GetBeginSql type) None True ?t = Some (e, t)"
    using assms(2) False by (auto simp: TransactionImpl_Create_def Begin_def TransactionImpl_new_def)
  from T this show ?thesis
  proof (cases rule: run_statement_cases)
    case (ok c0 s s1 c1)
    then have "c0 = c" by (simp add: TransactionImpl_new_def)
    with ok show ?thesis using transactionalD(4) [OF T ok(3)] BEGIN_SQLS_type [OF False]
      by (auto simp: tx_open_def)
  qed (auto simp: CloseInner_def)
qed

lemma Rollback_result:
  assumes T: "transactional D content saved txt" and "tx_open saved snap t" "Rollback D R t = Some (e, t1)"
  shows "if e = E_OK then \<exists>c1. tx_returned t1 = Some (c1, True) \<and> saved c1 = None \<and> content c1 = snap
         else \<exists>c1. tx_returned t1 = Some (c1, False)"
proof -
  have "run_statement D R ''ROLLBACK;'' (Some True) False t = Some (e, t1)" using assms(2,3) by (auto simp: Rollback_def tx_open_def)
  from T this show ?thesis
  proof (cases rule: run_statement_cases)
    case (ok c s s1 c1)
    then show ?thesis using assms(2) transactionalD(6) [OF T ok(3)] by (auto simp: tx_open_def CloseInner_def)
  qed (auto simp: CloseInner_def)
qed

lemma Commit_result:
  assumes T: "transactional D content saved txt" and "tx_open saved snap t" "Commit D R t = Some (e, t1)"
  shows "if e = E_OK then \<exists>c1. tx_returned t1 = Some (c1, True) \<and> saved c1 = None \<and> content c1 = content (the (tx_connection t))
         else \<exists>c1. tx_returned t1 = Some (c1, False)"
proof -
  have "run_statement D R ''COMMIT;'' (Some True) False t = Some (e, t1)" using assms(2,3) by (auto simp: Commit_def tx_open_def)
  from T this show ?thesis
  proof (cases rule: run_statement_cases)
    case (ok c s s1 c1)
    then show ?thesis using assms(2) transactionalD(5) [OF T ok(3)] by (auto simp: tx_open_def CloseInner_def)
  qed (auto simp: CloseInner_def)
qed

text \<open>A database whose content is the log of its statements.\<close>

type_synonym log_db = "(string \<times> value_object list) list \<times> (string \<times> value_object list) list option"

definition log_execute :: "value_object list \<Rightarrow> string \<Rightarrow> log_db \<Rightarrow> int \<times> string \<times> log_db" where
  "log_execute args s = (\<lambda>(l, sv).
     if s \<in> set BEGIN_SQLS then (if sv = None then (E_OK, s, (l, Some l)) else (E_ERROR, s, (l, sv)))
     else if s = ''COMMIT;'' then (if sv = None then (E_ERROR, s, (l, sv)) else (E_OK, s, (l, None)))
     else if s = ''ROLLBACK;'' then (case sv of None \<Rightarrow> (E_ERROR, s, (l, sv)) | Some l1 \<Rightarrow> (E_OK, s, (l1, None)))
     else (E_OK, s, (l @ [(s, args)], sv)))"

definition log_ops :: "(log_db, string) db_ops" where
  "log_ops = \<lparr>d_CreateStatement = \<lambda>sql ret c. (E_OK, Some (sql @ ret)), d_Execute = log_execute,
     d_ExecuteForRows = \<lambda>args m s c. let (e, s1, c1) = log_execute args s c in ((e, []), s1, c1),
     d_ExecuteForValue = \<lambda>args s c. let (e, s1, c1) = log_execute args s c in ((e, VInt 0), s1, c1),
     d_Changes = \<lambda>s c. 1, d_LastInsertRowId = \<lambda>s c. int (length (fst c)), d_GetColumnCount = \<lambda>s. 0,
     d_GetColumn = \<lambda>i s c. (E_OK, VNull), d_Reset = \<lambda>s c. s, d_Prepare = \<lambda>sql s c. (E_OK, sql),
     d_GetMaxVariable = \<lambda>c. 500, d_GetLastErrorMsg = \<lambda>c. []\<rparr>"

definition log_results :: "(log_db, bool) result_ops" where
  "log_results = \<lparr>r_step = \<lambda>conn sql args options prep. True, r_close = \<lambda>_. False\<rparr>"

lemma special_texts:
  "\<not> ordinary ''BEGIN DEFERRED;''" "\<not> ordinary ''BEGIN IMMEDIATE;''" "\<not> ordinary ''BEGIN EXCLUSIVE;''"
  "\<not> ordinary ''COMMIT;''" "\<not> ordinary ''ROLLBACK;''"
  by code_simp+

lemma log_execute_saved:
  assumes "log_execute args s c = (e, s1, c1)"
  shows "s1 = s" "ordinary s \<Longrightarrow> keeps_saved snd c c1"
    "s \<in> set BEGIN_SQLS \<Longrightarrow> if e = E_OK then snd c = None \<and> snd c1 = Some (fst c) \<and> fst c1 = fst c else snd c1 = snd c"
    "s = ''COMMIT;'' \<Longrightarrow> e = E_OK \<Longrightarrow> snd c \<noteq> None \<and> snd c1 = None \<and> fst c1 = fst c"
    "s = ''ROLLBACK;'' \<Longrightarrow> e = E_OK \<Longrightarrow> snd c \<noteq> None \<and> snd c1 = None \<and> fst c1 = the (snd c)"
  using assms special_texts
  by (auto simp: log_execute_def keeps_saved_def BEGIN_SQLS_def E_OK_def E_ERROR_def E_BASE_def split: prod.splits if_splits option.splits)

lemma log_ops_transactional: "transactional log_ops fst snd id"
  unfolding transactional_def
proof (intro conjI allI impI, goal_cases)
  case (3 args s c e s1 c1)
  then show ?case using log_execute_saved(2) [of args s c e s1 c1] by (simp add: log_ops_def)
next
  case (4 args s c e s1 c1)
  then show ?case using log_execute_saved(3) [of args s c e s1 c1] by (simp add: log_ops_def)
qed (auto simp: log_ops_def split: prod.splits dest: log_execute_saved)



lemma run_statement_closes:
  assumes "run_statement D R sql (Some b) failed t = Some (e, t1)"
  shows "\<exists>c1 recycle. t1 = CloseInner R recycle (t\<lparr>tx_connection := Some c1\<rparr>)"
proof -
  obtain c where c: "tx_connection t = Some c" using assms by (cases "tx_connection t") (auto simp: run_statement_def)
  then have closes: "\<exists>c1 recycle. CloseInner R failed t = CloseInner R recycle (t\<lparr>tx_connection := Some c1\<rparr>)"
    by (intro exI [of _ c] exI [of _ failed]) (simp add: CloseInner_def)
  obtain e1 stmt where g: "d_CreateStatement D sql [] c = (e1, stmt)" by fastforce
  show ?thesis
  proof (cases "e1 = E_OK")
    case False
    then show ?thesis using assms c g closes by (simp add: run_statement_def)
  next
    case True
    then obtain s where s: "stmt = Some s" using assms c g by (cases stmt) (auto simp: run_statement_def)
    obtain e2 s1 c1 where x: "d_Execute D [] s c = (e2, s1, c1)" by (metis prod_cases3)
    have "t1 = CloseInner R (if e2 = E_OK then b else failed) (t\<lparr>tx_connection := Some c1\<rparr>)"
      using assms c g True s x by (cases "e2 = E_OK") (auto simp: run_statement_def Let_def)
    then show ?thesis by blast
  qed
qed

text \<open>C39: after \<open>Commit\<close>, \<open>Rollback\<close> or \<open>Close\<close>, whether or not it succeeded, the transaction has let go of its
  connection and closed its result sets; every later operation is refused as already closed and changes
  nothing, and so are a second \<open>Commit\<close> and \<open>Rollback\<close>.\<close>

theorem transaction_ended_refuses:
  assumes "tx_connection t = Some c"
    and "Commit D R t = Some (e, t1) \<or> Rollback D R t = Some (e, t1) \<or> Close_transaction R t = (e, t1)"
  shows "(\<exists>c1 recycle. tx_returned t1 = Some (c1, recycle)) \<and> tx_resultSets t1 = map (r_close R) (tx_resultSets t)
    \<and> tx_exec D R op t1 = Some (refused op, t1)
    \<and> Commit D R t1 = Some (E_ALREADY_CLOSED, t1) \<and> Rollback D R t1 = Some (E_ALREADY_CLOSED, t1)
    \<and> TransactionImpl_destroy D R t1 = Some t1"
proof -
  have "\<exists>c1 recycle. t1 = CloseInner R recycle (t\<lparr>tx_connection := Some c1\<rparr>)"
    using assms(2)
  proof (elim disjE)
    assume "Commit D R t = Some (e, t1)"
    then show ?thesis using run_statement_closes [of D R _ True False t e t1] assms(1) by (simp add: Commit_def)
  next
    assume "Rollback D R t = Some (e, t1)"
    then show ?thesis using run_statement_closes [of D R _ True False t e t1] assms(1) by (simp add: Rollback_def)
  next
    assume "Close_transaction R t = (e, t1)"
    then have "t1 = CloseInner R True (t\<lparr>tx_connection := Some c\<rparr>)" using assms(1) by (auto simp: Close_transaction_def CloseInner_def)
    then show ?thesis by blast
  qed
  then have "tx_store t1 = None" "tx_connection t1 = None" "\<exists>c1 recycle. tx_returned t1 = Some (c1, recycle)"
    "tx_resultSets t1 = map (r_close R) (tx_resultSets t)" by (auto simp: CloseInner_def)
  then show ?thesis by (cases op) (simp_all add: on_store_def Commit_def Rollback_def TransactionImpl_destroy_def
      Transaction_Insert_def Transaction_BatchInsert_rows_def Transaction_BatchInsert_def Transaction_BatchInsert_returning_def
      Transaction_Update_def Transaction_Delete_def Transaction_Execute_def Transaction_ExecuteExt_def Transaction_QueryByStep_def)
qed

theorem transaction_ended_refuses_witness:
  "tx_exec log_ops log_results (TxExecute ''DELETE FROM t'' []) (snd (Close_transaction log_results (TransactionImpl_new ([], None) ''a.db'')))
     = Some (ValueResult E_ALREADY_CLOSED VNull, snd (Close_transaction log_results (TransactionImpl_new ([], None) ''a.db'')))"
proof -
  let ?t = "TransactionImpl_new ([], None) ''a.db'' :: (log_db, bool) transaction"
  have "tx_connection ?t = Some ([], None)" by (simp add: TransactionImpl_new_def)
  moreover have "Close_transaction log_results ?t = (E_OK, snd (Close_transaction log_results ?t))" by (simp add: Close_transaction_def)
  ultimately show ?thesis
    using transaction_ended_refuses [of ?t "([], None)" log_ops log_results E_OK "snd (Close_transaction log_results ?t)" "TxExecute ''DELETE FROM t'' []"]
      refused.simps(4) by metis
qed

text \<open>C40: \<open>Close\<close> ends a transaction without a rollback, yet it gives the connection back as one to be used
  again: the connection keeps the changes of the transaction uncommitted, and the transaction that is
  created on it next cannot begin.\<close>

theorem closed_transaction_blocks_connection:
  assumes "transactional D content saved txt" and "TransactionImpl_Create D R type c path = Some (E_OK, t)"
    and "list_all ordinary_op ops" and "tx_run D R ops t = Some t1" and "tx_connection t1 = Some c1" and "saved c1 \<noteq> None"
    and "TransactionImpl_Create D R type2 c1 path2 = Some (e, t3)"
  shows "tx_returned (snd (Close_transaction R t1)) = Some (c1, True) \<and> saved c1 = Some (content c) \<and> e \<noteq> E_OK"
proof -
  have "tx_open saved (content c) t1"
    using tx_run_open [OF assms(1) _ assms(3,4)] Create_cases [OF assms(1,2)] by simp
  moreover have "e \<noteq> E_OK" using Create_cases [OF assms(1,7)] assms(6) by auto
  ultimately show ?thesis using assms(5,6) by (auto simp: Close_transaction_def CloseInner_def tx_open_def)
qed

theorem closed_transaction_blocks_connection_witness:
  "\<exists>c1. tx_returned (snd (Close_transaction log_results (snd (the (TransactionImpl_Create log_ops log_results 0 ([], None) ''a.db''))))) = Some (c1, True)
     \<and> fst (the (TransactionImpl_Create log_ops log_results 0 c1 ''a.db'')) \<noteq> E_OK"
proof -
  let ?c = "([], None) :: log_db" and ?c1 = "([], Some []) :: log_db"
  let ?X = "TransactionImpl_Create log_ops log_results 0 ?c ''a.db''" and ?Y = "TransactionImpl_Create log_ops log_results 0 ?c1 ''a.db''"
  have "?X = Some (E_OK, snd (the ?X))" by code_simp
  moreover have "tx_connection (snd (the ?X)) = Some ?c1" by code_simp
  moreover have "?Y = Some (fst (the ?Y), snd (the ?Y))" by code_simp
  ultimately show ?thesis
    using closed_transaction_blocks_connection [OF log_ops_transactional, of log_results 0 ?c "''a.db''" "snd (the ?X)" "[]" "snd (the ?X)" ?c1 0 "''a.db''" "fst (the ?Y)" "snd (the ?Y)"]
    by simp
qed

end
