(* ===== verification/Spec2Isabelle.thy ===== *)
theory Spec2Isabelle
  imports Query_Building Raw_Data_Parser Step_Result_Set Cache_Result_Set Connection_Pool
    Shared_Result_Set Transactions
begin

text \<open>
  A verification development of the native relational store, the C++ library under
  \<open>src/frameworks/native/rdb\<close> with its interfaces under \<open>src/interfaces/inner_api/rdb\<close>.

  \<^bold>\<open>The program.\<close> A client describes a query with predicates (\<open>AbsPredicates\<close>,
  \<open>AbsRdbPredicates\<close>, \<open>RdbPredicates\<close>) and rows with value objects and buckets (\<open>ValueObject\<close>,
  \<open>ValuesBucket\<close>, \<open>ValuesBuckets\<close>). \<open>SqliteSqlBuilder\<close> renders them as SQL with placeholders;
  \<open>SqliteUtils\<close> classifies and anonymises statements and keeps the marks of the replica. A
  statement runs on a connection of the \<open>ConnectionPool\<close>, and its rows are read through a
  result set: \<open>StepResultSet\<close> steps the statement, \<open>SqliteSharedResultSet\<close> copies a window of
  its rows into a \<open>SharedBlock\<close>, \<open>CacheResultSet\<close> holds rows that were fetched, all behind the
  navigation of \<open>AbsResultSet\<close>. \<open>SqliteStatement\<close> drives the sqlite library and, on a writing
  connection, a second statement on the replica. Values that sqlite has no type for are packed
  into blobs by \<open>RawDataParser\<close>. \<open>TransactionImpl\<close> runs a group of operations on one connection
  through a store of its own, \<open>TransDB\<close>.

  \<^bold>\<open>The theories.\<close>
  \<^item> \<open>Rdb_Prelude\<close>: machine integers, error codes (\<open>rdb_errno.h\<close>), the string functions of the
    C++ library. \<open>Ieee_Double\<close>: bit patterns of doubles and floats. \<open>Std_Containers\<close>: ordered
    maps and sets as sorted lists.
  \<^item> \<open>Value_Object\<close> (\<open>value_object.cpp\<close>, \<open>asset_value.h\<close>, \<open>big_integer.cpp\<close>): the variant, its
    accessors, conversions and order. The order is a strict weak order away from NaN.
  \<^item> \<open>String_Utils\<close> (\<open>string_utils.cpp\<close>).
  \<^item> \<open>Abs_Predicates\<close>, \<open>Rdb_Predicates\<close> (\<open>abs_predicates.cpp\<close>, \<open>abs_rdb_predicates.cpp\<close>,
    \<open>rdb_predicates.cpp\<close>): each builder method is a function on the record of the object; a
    sequence of calls is a list. The where clause is related to the grammar of boolean
    expressions; the derived class refines the base class.
  \<^item> \<open>Values_Buckets\<close> (\<open>values_bucket.cpp\<close>, \<open>values_buckets.cpp\<close>): a bucket is a map; a batch
    shares equal values and returns what was put.
  \<^item> \<open>Sqlite_Utils\<close> (\<open>sqlite_utils.cpp\<close>, \<open>sqlite_errno.h\<close>): pure functions on text, and the file
    helpers over an explicit file system.
  \<^item> \<open>Sql_Builder\<close> (\<open>sqlite_sql_builder.cpp\<close>): the statements and the batching of inserts.
    \<open>Query_Building\<close> composes predicates and builder: placeholders and arguments agree.
  \<^item> \<open>Raw_Data_Parser\<close> (\<open>raw_data_parser.cpp\<close>, \<open>serializable.cpp\<close>): round trips and bounds, with
    the JSON library as a record of operations and its laws as a predicate.
  \<^item> \<open>Result_Set\<close> (\<open>abs_result_set.cpp\<close>): the base class over its virtual calls, a record of
    functions; the locale \<open>cursor\<close> is the contract of a cursor over a list of rows.
    \<open>Step_Result_Set\<close> (\<open>step_result_set.cpp\<close>) and \<open>Cache_Result_Set\<close> (\<open>cache_result_set.cpp\<close>)
    are two of its implementations.
  \<^item> \<open>Connection_Pool\<close> (\<open>connection_pool.cpp\<close>): containers of nodes, their counters and the pool;
    an inductive step relation gives the histories of a container, and its invariant that no
    connection is handed out twice.
  \<^item> \<open>Byte_Memory\<close>: a block of bytes with bounded reads and writes. \<open>Shared_Block\<close>
    (\<open>shared_block.cpp\<close>): the layout of rows and cells in that memory, operation by operation; a
    block implements a grid of cells and never writes outside its memory. \<open>Block_Filling\<close>
    (\<open>share_block.cpp\<close>): the loop that fills a block from a statement leaves a window of its rows;
    \<open>Cache_Block\<close> (\<open>cache_block.cpp\<close>) is filled by the same loop.
  \<^item> \<open>Sqlite_Api\<close>: the calls of the sqlite library as a record of operations with their documented
    laws. \<open>Sqlite_Statement\<close> (\<open>sqlite_statement.cpp\<close>): preparation, binding, stepping, execution
    with the replica, reading of columns; values that are stored are read back.
    \<open>Statement_Queries\<close> (the statements of \<open>sqlite_connection.cpp\<close>) composes them with
    \<open>StepResultSet\<close>: a query from its text and arguments to the rows that the cursor reads.
  \<^item> \<open>Shared_Result_Set\<close> (\<open>sqlite_shared_result_set.cpp\<close>, \<open>abs_shared_result_set.cpp\<close>): the third
    implementation of \<open>cursor\<close>, over a statement and a shared block; after any moves a row reads
    as the values that sqlite has in it.
  \<^item> \<open>Rdb_Sql_Utils\<close> (\<open>rdb_sql_utils.cpp\<close>): the statements for a row with their arguments, checks
    of names and values, and the paths of a store.
  \<^item> \<open>Transactions\<close> (\<open>trans_db.cpp\<close>, \<open>transaction_impl.cpp\<close>, \<open>transaction.cpp\<close>): the start, the
    operations and the end of a transaction over the virtual functions of a connection and its
    statements, with the laws of a transactional database as a predicate. A transaction is atomic,
    an ended one refuses everything, and a closed one leaves its connection unusable.

  \<^bold>\<open>Conventions.\<close> A C++ object is a record and a derived class an extension of it. A method
  takes the object last and returns it updated where it changes it; an output parameter is
  passed in with its old value and returned. \<open>None\<close> stands for undefined behaviour or for a loop
  that does not end. Integers of 32 and 64 bits are \<open>int\<close> with the wrap-around written out where
  the code can reach it; bytes and floating point values are words. A wait on a condition
  variable takes the list of what the other threads do to the state between wake-ups, and ends
  with the list. No function uses fuel: loops that may not end are \<open>partial_function\<close>
  (\<open>Split\<close>, the counting loop of \<open>GetRowCount\<close>, the filling loop \<open>FillSharedBlock_loop\<close>), and the
  theorems that they return are stated as such; the filling loop returns for every statement that
  ends, and a block holds at most as many rows as its memory.

  \<^bold>\<open>Not modelled.\<close> The sqlite library, a parameter; of \<open>sqlite_connection.cpp\<close> everything but
  its statements, which is pragmas, hooks and the backup and restore of files; the store that
  orchestrates the parts with services and threads (\<open>rdb_store_impl.cpp\<close>) and its nested
  transactions (\<open>base_transaction.cpp\<close>); the mapping of shared memory and the block extension of
  sqlite; the keystore, statistics and logging, IPC, and the bindings to other languages; of the
  modelled files, \<open>strtod\<close> (\<open>operator double\<close>, \<open>GetDouble\<close>), access control lists and the
  restore and rekey of files. Locks are left out: every operation runs as under its lock.
\<close>

end
